theory Spec2Isabelle
  imports Main "HOL-Library.Char_ord" "HOL-Library.List_Lexorder"
begin

section \<open>Data model (main.go, lines 18-47)\<close>

text \<open>
  A Go map is a reference that may be nil. Reading a nil map behaves like reading an
  empty one (a lookup finds nothing, \<^verbatim>\<open>range\<close> visits nothing, \<^verbatim>\<open>delete\<close> is a
  no-op), but assigning to an entry of a nil map panics. \<open>encoding/json\<close> keeps the
  difference: \<^verbatim>\<open>null\<close> decodes to the nil map and \<^verbatim>\<open>{}\<close> to an empty one.
\<close>

datatype 'v gomap = NilMap | GoMap "string \<rightharpoonup> 'v"

text \<open>\<^verbatim>\<open>v, exists := m[k]\<close>\<close>

definition map_lookup :: "'v gomap \<Rightarrow> string \<Rightarrow> 'v option" where
  "map_lookup m k = (case m of NilMap \<Rightarrow> None | GoMap f \<Rightarrow> f k)"

text \<open>\<^verbatim>\<open>m[k] = v\<close>; \<open>None\<close> is the panic "assignment to entry in nil map".\<close>

definition map_assign :: "'v gomap \<Rightarrow> string \<Rightarrow> 'v \<Rightarrow> 'v gomap option" where
  "map_assign m k v = (case m of NilMap \<Rightarrow> None | GoMap f \<Rightarrow> Some (GoMap (f(k \<mapsto> v))))"

text \<open>\<^verbatim>\<open>delete(m, k)\<close>\<close>

definition map_delete :: "'v gomap \<Rightarrow> string \<Rightarrow> 'v gomap" where
  "map_delete m k = (case m of NilMap \<Rightarrow> NilMap | GoMap f \<Rightarrow> GoMap (f(k := None)))"

text \<open>\<^verbatim>\<open>make(map[string]T)\<close>\<close>

definition make_map :: "'v gomap" where
  "make_map = GoMap Map.empty"

text \<open>A \<^verbatim>\<open>time.Time\<close> is a clock reading.\<close>

type_synonym time = nat

record Member =
  MemberID :: string
  Name :: string
  Channels :: "string gomap"

text \<open>
  A slice is a list; a nil slice and an empty one are not told apart (the program only
  ranges over its slices, appends to them and takes their length).
\<close>

record Team =
  Members :: "Member list"

record Teams =
  Teams :: "Team gomap"

record User =
  MemberID :: string
  Name :: string
  UpdatedAt :: time
  Channels :: "string gomap"

type_synonym Users = "User gomap"

record Channel =
  ID :: string
  Name :: string

type_synonym Channels = "Channel gomap"

section \<open>What \<open>encoding/json\<close> makes of a value\<close>

text \<open>
  A Go string is a sequence of bytes, here the 8-bit characters of an Isabelle string. The
  strings of the program come from the request and from the Slack client and need not be
  valid UTF-8. \<^verbatim>\<open>json.MarshalIndent\<close> writes every string, and every key of a map,
  coerced to valid UTF-8: it steps through the bytes with \<^verbatim>\<open>utf8.DecodeRuneInString\<close>,
  copies each well-formed sequence, and writes the replacement character U+FFFD for each
  byte that starts none.

  \<open>runeLength s\<close> is the number of bytes of the well-formed UTF-8 sequence \<open>s\<close> starts
  with, \<open>None\<close> when it starts with none (the decoder's \<^verbatim>\<open>RuneError\<close> of width 1):
  overlong forms, surrogates, values above U+10FFFF and truncated sequences are not
  well-formed.
\<close>

definition inRange :: "nat \<Rightarrow> nat \<Rightarrow> char \<Rightarrow> bool" where
  "inRange lo hi b = (lo \<le> of_char b \<and> of_char b \<le> hi)"

fun runeLength :: "string \<Rightarrow> nat option" where
  "runeLength [] = None"
| "runeLength (b0 # rest) =
     (if inRange 0x00 0x7F b0 then Some 1
      else if inRange 0xC2 0xDF b0 then
        (case rest of
           b1 # _ \<Rightarrow> if inRange 0x80 0xBF b1 then Some 2 else None
         | _ \<Rightarrow> None)
      else if inRange 0xE0 0xEF b0 then
        (case rest of
           b1 # b2 # _ \<Rightarrow>
             if inRange (if b0 = CHR 0xE0 then 0xA0 else 0x80)
                        (if b0 = CHR 0xED then 0x9F else 0xBF) b1 \<and>
                inRange 0x80 0xBF b2
             then Some 3 else None
         | _ \<Rightarrow> None)
      else if inRange 0xF0 0xF4 b0 then
        (case rest of
           b1 # b2 # b3 # _ \<Rightarrow>
             if inRange (if b0 = CHR 0xF0 then 0x90 else 0x80)
                        (if b0 = CHR 0xF4 then 0x8F else 0xBF) b1 \<and>
                inRange 0x80 0xBF b2 \<and> inRange 0x80 0xBF b3
             then Some 4 else None
         | _ \<Rightarrow> None)
      else None)"

text \<open>The bytes of U+FFFD.\<close>

definition replacement :: string where
  "replacement = [CHR 0xEF, CHR 0xBF, CHR 0xBD]"

text \<open>
  A string after it has been written and read again. (The escapes the encoder uses for
  some characters are undone by the decoder and leave no trace.)
\<close>

function jsonString :: "string \<Rightarrow> string" where
  "jsonString [] = []"
| "jsonString (b # rest) =
     (case runeLength (b # rest) of
        Some n \<Rightarrow> take n (b # rest) @ jsonString (drop n (b # rest))
      | None \<Rightarrow> replacement @ jsonString rest)"
  by pat_completeness auto
termination
proof (relation "measure length")
  show "wf (measure length)"
    by simp
next
  fix b rest n
  assume "runeLength (b # rest) = Some n"
  then have "0 < n"
    by (auto split: if_splits list.splits)
  then show "(drop n (b # rest), b # rest) \<in> measure length"
    by simp
next
  fix b :: char and rest
  show "(rest, b # rest) \<in> measure length"
    by simp
qed

text \<open>A string is valid UTF-8 when the encoder writes it as it is.\<close>

definition validUTF8 :: "string \<Rightarrow> bool" where
  "validUTF8 s = (jsonString s = s)"

text \<open>
  A map is written as a JSON object, its keys sorted as byte strings and each written
  coerced, so two keys of the map may be written as the same key of the object; the
  decoder fills the map it returns in the order of the object, so of two members with
  the same key the later one stays. A key \<open>k\<close> of the map read back therefore carries the
  value of the greatest key of the map written that is written as \<open>k\<close>.

  \<open>candidates k\<close> lists the byte strings that may be written as \<open>k\<close>: each occurrence of
  U+FFFD in \<open>k\<close> is kept or stands for a single byte; \<open>writtenAs k\<close> keeps those that are
  written as \<open>k\<close> (lemma \<open>writtenAs_iff\<close> below: they are all of them).
\<close>

fun candidates :: "string \<Rightarrow> string list" where
  "candidates (b0 # b1 # b2 # rest) =
     map ((#) b0) (candidates (b1 # b2 # rest)) @
     (if [b0, b1, b2] = replacement
      then concat (map (\<lambda>raw. map (\<lambda>b. b # raw) Enum.enum) (candidates rest))
      else [])"
| "candidates (b # rest) = map ((#) b) (candidates rest)"
| "candidates [] = [[]]"

definition writtenAs :: "string \<Rightarrow> string list" where
  "writtenAs k = filter (\<lambda>raw. jsonString raw = k) (candidates k)"

definition lastKey :: "(string \<rightharpoonup> 'v) \<Rightarrow> string \<Rightarrow> string option" where
  "lastKey f k =
     (case filter (\<lambda>raw. f raw \<noteq> None) (writtenAs k) of
        [] \<Rightarrow> None
      | raw # raws \<Rightarrow> Some (Max (set (raw # raws))))"

text \<open>
  A map after it has been written and read again, \<open>enc\<close> being what the round trip makes
  of a value of the map. The nil map is written as \<^verbatim>\<open>null\<close> and read back as the nil
  map.
\<close>

definition jsonMap :: "('v \<Rightarrow> 'v) \<Rightarrow> 'v gomap \<Rightarrow> 'v gomap" where
  "jsonMap enc m =
     (case m of
        NilMap \<Rightarrow> NilMap
      | GoMap f \<Rightarrow>
          GoMap (\<lambda>k. case lastKey f k of None \<Rightarrow> None | Some raw \<Rightarrow> map_option enc (f raw)))"

text \<open>
  The collections after a round trip. The clock reading of a user is written with its
  full precision and read back as the same instant.
\<close>

definition jsonMember :: "Member \<Rightarrow> Member" where
  "jsonMember member =
     \<lparr>Member.MemberID = jsonString (Member.MemberID member),
      Member.Name = jsonString (Member.Name member),
      Member.Channels = jsonMap jsonString (Member.Channels member)\<rparr>"

definition jsonTeam :: "Team \<Rightarrow> Team" where
  "jsonTeam team = \<lparr>Members = map jsonMember (Members team)\<rparr>"

definition jsonTeams :: "Teams \<Rightarrow> Teams" where
  "jsonTeams teams = \<lparr>Teams = jsonMap jsonTeam (Teams teams)\<rparr>"

definition jsonUser :: "User \<Rightarrow> User" where
  "jsonUser user =
     \<lparr>User.MemberID = jsonString (User.MemberID user),
      User.Name = jsonString (User.Name user),
      UpdatedAt = UpdatedAt user,
      User.Channels = jsonMap jsonString (User.Channels user)\<rparr>"

definition jsonUsers :: "Users \<Rightarrow> Users" where
  "jsonUsers users = jsonMap jsonUser users"

definition jsonChannel :: "Channel \<Rightarrow> Channel" where
  "jsonChannel channel =
     \<lparr>ID = jsonString (ID channel), Channel.Name = jsonString (Channel.Name channel)\<rparr>"

definition jsonChannels :: "Channels \<Rightarrow> Channels" where
  "jsonChannels channels = jsonMap jsonChannel channels"

section \<open>The persistent store (main.go, lines 49-55 and 805-881)\<close>

text \<open>
  The three JSON files. A file does not exist, or it cannot be read for another reason,
  or its bytes are not a JSON document of the expected type, or they are. A file that
  holds a document is described by a value: \<open>Stored x\<close> is a file that
  \<^verbatim>\<open>json.Unmarshal\<close> decodes as it decodes the document \<^verbatim>\<open>json.MarshalIndent\<close>
  writes for \<open>x\<close>, so a load returns \<open>x\<close> after a round trip. A write that succeeds
  leaves the document of the value written, described by that value after a round trip
  (a second round trip changes nothing more); a write that fails leaves the file as it
  was.
\<close>

datatype 'a jsonfile = NotExist | Unreadable | Malformed | Stored 'a

record store =
  TeamsFile :: "Teams jsonfile"
  UsersFile :: "Users jsonfile"
  ChannelsFile :: "Channels jsonfile"

datatype error = ReadError | SyntaxError | WriteError

section \<open>The environment: the Slack client, the clock, the file system\<close>

text \<open>The fields of \<^verbatim>\<open>slack.User\<close> the program reads.\<close>

record SlackUser =
  IsBot :: bool
  ProfileDisplayName :: string
  Name :: string

text \<open>
  What the program cannot decide by itself, for the time of one command or one pass: the
  answers of the Slack API (an error is its text; an answer depends on the arguments of
  the call only), the clock reading of the \<open>i\<close>-th iteration of a loop that calls
  \<^verbatim>\<open>time.Now\<close>, whether writing each file (\<^verbatim>\<open>json.MarshalIndent\<close>, then
  \<^verbatim>\<open>ioutil.WriteFile\<close>) succeeds, and the order in which one execution of \<^verbatim>\<open>range\<close>
  over the teams or over the channels yields the keys (Go leaves the iteration order of a
  map unspecified and randomises it).
\<close>

record env =
  GetUserInfo :: "string \<Rightarrow> string + SlackUser"
  GetUsersInConversation :: "string \<Rightarrow> string + string list"
  PostMessage :: "string \<Rightarrow> string \<Rightarrow> string option"
  JoinConversation :: "string \<Rightarrow> string option"
  Now :: "nat \<Rightarrow> time"
  TeamsWritable :: bool
  UsersWritable :: bool
  ChannelsWritable :: bool
  rangeTeams :: "string list"
  rangeChannels :: "string list"

text \<open>\<open>ks\<close> is an iteration order of \<open>m\<close>: every key once.\<close>

definition range_order :: "'v gomap \<Rightarrow> string list \<Rightarrow> bool" where
  "range_order m ks =
     (distinct ks \<and> set ks = (case m of NilMap \<Rightarrow> {} | GoMap f \<Rightarrow> dom f))"

definition readTeams :: "store \<Rightarrow> error + Teams" where
  "readTeams s =
     (case TeamsFile s of
        NotExist \<Rightarrow> Inr \<lparr>Teams = make_map\<rparr>
      | Unreadable \<Rightarrow> Inl ReadError
      | Malformed \<Rightarrow> Inl SyntaxError
      | Stored teams \<Rightarrow> Inr (jsonTeams teams))"

definition writeTeams :: "env \<Rightarrow> store \<Rightarrow> Teams \<Rightarrow> error + store" where
  "writeTeams e s teams =
     (if TeamsWritable e then Inr (s\<lparr>TeamsFile := Stored (jsonTeams teams)\<rparr>)
      else Inl WriteError)"

definition readUsers :: "store \<Rightarrow> error + Users" where
  "readUsers s =
     (case UsersFile s of
        NotExist \<Rightarrow> Inr make_map
      | Unreadable \<Rightarrow> Inl ReadError
      | Malformed \<Rightarrow> Inl SyntaxError
      | Stored users \<Rightarrow> Inr (jsonUsers users))"

definition writeUsers :: "env \<Rightarrow> store \<Rightarrow> Users \<Rightarrow> error + store" where
  "writeUsers e s users =
     (if UsersWritable e then Inr (s\<lparr>UsersFile := Stored (jsonUsers users)\<rparr>)
      else Inl WriteError)"

definition readChannels :: "store \<Rightarrow> error + Channels" where
  "readChannels s =
     (case ChannelsFile s of
        NotExist \<Rightarrow> Inr make_map
      | Unreadable \<Rightarrow> Inl ReadError
      | Malformed \<Rightarrow> Inl SyntaxError
      | Stored channels \<Rightarrow> Inr (jsonChannels channels))"

definition writeChannels :: "env \<Rightarrow> store \<Rightarrow> Channels \<Rightarrow> error + store" where
  "writeChannels e s channels =
     (if ChannelsWritable e then Inr (s\<lparr>ChannelsFile := Stored (jsonChannels channels)\<rparr>)
      else Inl WriteError)"

section \<open>Responses and effects of a command handler\<close>

text \<open>
  A handler answers through \<^verbatim>\<open>responseSuccess\<close> or \<^verbatim>\<open>responseError\<close>, or panics. Its
  result is the answer, the store it leaves behind, and the calls it made to the Slack
  client, in order (with the goroutine it started, if any). Log lines are not modelled.
\<close>

datatype response = Success string | Error string | Panic

datatype call =
    CallGetUserInfo string
  | CallPostMessage string string
  | CallJoinConversation string
  | GoUpdateUserInfoForChannel string

record result =
  response :: response
  after :: store
  calls :: "call list"

definition responseSuccess :: "store \<Rightarrow> call list \<Rightarrow> string \<Rightarrow> result" where
  "responseSuccess s cs message = \<lparr>response = Success message, after = s, calls = cs\<rparr>"

definition responseError :: "store \<Rightarrow> call list \<Rightarrow> string \<Rightarrow> result" where
  "responseError s cs message = \<lparr>response = Error message, after = s, calls = cs\<rparr>"

definition panics :: "store \<Rightarrow> call list \<Rightarrow> result" where
  "panics s cs = \<lparr>response = Panic, after = s, calls = cs\<rparr>"

text \<open>The verb \<^verbatim>\<open>'%s'\<close> of the format strings, and \<^verbatim>\<open>strings.Join\<close>.\<close>

definition quoted :: "string \<Rightarrow> string" where
  "quoted x = [CHR 0x27] @ x @ [CHR 0x27]"

fun Join :: "string list \<Rightarrow> string \<Rightarrow> string" where
  "Join [] sep = ''''"
| "Join [x] sep = x"
| "Join (x # y # ys) sep = x @ sep @ Join (y # ys) sep"

section \<open>Team commands (main.go, lines 238-414)\<close>

definition handleCreateTeam :: "env \<Rightarrow> store \<Rightarrow> string list \<Rightarrow> result" where
  "handleCreateTeam e s args =
     (if length args < 1 then responseError s [] ''Please provide a team name to create.''
      else let team = args ! 0 in
        case readTeams s of
          Inl err \<Rightarrow> responseError s [] ''Error reading teams.''
        | Inr teams \<Rightarrow>
            if map_lookup (Teams teams) team \<noteq> None
            then responseError s [] (''Team '' @ quoted team @ '' already exists.'')
            else
              (case map_assign (Teams teams) team \<lparr>Members = []\<rparr> of
                 None \<Rightarrow> panics s []
               | Some m \<Rightarrow>
                   (case writeTeams e s (teams\<lparr>Teams := m\<rparr>) of
                      Inl err \<Rightarrow> responseError s [] ''Error writing to teams.''
                    | Inr s' \<Rightarrow>
                        responseSuccess s' [] (''Team '' @ quoted team @ '' has been created.''))))"

definition handleRemoveTeam :: "env \<Rightarrow> store \<Rightarrow> string list \<Rightarrow> result" where
  "handleRemoveTeam e s args =
     (if length args < 1 then responseError s [] ''Please provide a team name to remove.''
      else let team = args ! 0 in
        case readTeams s of
          Inl err \<Rightarrow> responseError s [] ''Error reading teams.''
        | Inr teams \<Rightarrow>
            if map_lookup (Teams teams) team = None
            then responseError s [] (''Team '' @ quoted team @ '' does not exist.'')
            else
              (case writeTeams e s (teams\<lparr>Teams := map_delete (Teams teams) team\<rparr>) of
                 Inl err \<Rightarrow> responseError s [] ''Error writing to teams.''
               | Inr s' \<Rightarrow>
                   responseSuccess s' [] (''Team '' @ quoted team @ '' has been removed.'')))"

text \<open>Lines 330-333 and 754-757: the display name, or the user name when it is empty.\<close>

definition displayNameOf :: "SlackUser \<Rightarrow> string" where
  "displayNameOf userInfo =
     (if ProfileDisplayName userInfo = '''' then SlackUser.Name userInfo
      else ProfileDisplayName userInfo)"

text \<open>
  Lines 352-369 of \<^verbatim>\<open>handleAdd\<close>, after the teams file is written: the user is
  registered; a failure to read or write the users file is logged and the answer is the
  same.
\<close>

definition registerUser ::
  "env \<Rightarrow> store \<Rightarrow> call list \<Rightarrow> string \<Rightarrow> string \<Rightarrow> string \<Rightarrow> result" where
  "registerUser e s cs team memberID displayName =
     (let message = ''Added user '' @ displayName @ '' ('' @ memberID @ '') to team ''
                      @ quoted team @ ''.'' in
      case readUsers s of
        Inl err \<Rightarrow> responseSuccess s cs message
      | Inr users \<Rightarrow>
          (case map_assign users memberID
                  \<lparr>User.MemberID = memberID, User.Name = displayName,
                   UpdatedAt = Now e 0, User.Channels = make_map\<rparr> of
             None \<Rightarrow> panics s cs
           | Some users' \<Rightarrow>
               (case writeUsers e s users' of
                  Inl err \<Rightarrow> responseSuccess s cs message
                | Inr s' \<Rightarrow> responseSuccess s' cs message)))"

definition handleAdd :: "env \<Rightarrow> store \<Rightarrow> string list \<Rightarrow> result" where
  "handleAdd e s args =
     (if length args < 2
      then responseError s [] ''Please provide a team name and a member ID to add.''
      else let team = args ! 0; memberID = args ! 1 in
        case readTeams s of
          Inl err \<Rightarrow> responseError s [] ''Error reading teams.''
        | Inr teams \<Rightarrow>
            (case map_lookup (Teams teams) team of
               None \<Rightarrow> responseError s [] (''Team '' @ quoted team @ '' does not exist.'')
             | Some updatedTeam \<Rightarrow>
                 if \<exists>member \<in> set (Members updatedTeam). Member.MemberID member = memberID
                 then responseError s []
                        (''User '' @ memberID @ '' is already in team '' @ quoted team @ ''.'')
                 else
                   (case GetUserInfo e memberID of
                      Inl err \<Rightarrow>
                        responseError s [CallGetUserInfo memberID]
                          (''Error getting user info: '' @ err)
                    | Inr userInfo \<Rightarrow>
                        let displayName = displayNameOf userInfo;
                            newMember = \<lparr>Member.MemberID = memberID,
                                         Member.Name = displayName,
                                         Member.Channels = make_map\<rparr>
                        in
                          (case map_assign (Teams teams) team
                                  (updatedTeam\<lparr>Members := Members updatedTeam @ [newMember]\<rparr>) of
                             None \<Rightarrow> panics s [CallGetUserInfo memberID]
                           | Some m \<Rightarrow>
                               (case writeTeams e s (teams\<lparr>Teams := m\<rparr>) of
                                  Inl err \<Rightarrow>
                                    responseError s [CallGetUserInfo memberID]
                                      ''Error writing to teams.''
                                | Inr s' \<Rightarrow>
                                    registerUser e s' [CallGetUserInfo memberID]
                                      team memberID displayName)))))"

text \<open>
  Lines 391-399: the first member with the given id is cut out of the slice and the loop
  stops; \<open>None\<close> when \<^verbatim>\<open>found\<close> stays false.
\<close>

fun removeMember :: "string \<Rightarrow> Member list \<Rightarrow> Member list option" where
  "removeMember memberID [] = None"
| "removeMember memberID (member # rest) =
     (if Member.MemberID member = memberID then Some rest
      else map_option ((#) member) (removeMember memberID rest))"

definition handleRemove :: "env \<Rightarrow> store \<Rightarrow> string list \<Rightarrow> result" where
  "handleRemove e s args =
     (if length args < 2
      then responseError s [] ''Please provide a team name and a member ID to remove.''
      else let team = args ! 0; memberID = args ! 1 in
        case readTeams s of
          Inl err \<Rightarrow> responseError s [] ''Error reading teams.''
        | Inr teams \<Rightarrow>
            (case map_lookup (Teams teams) team of
               None \<Rightarrow> responseError s [] (''Team '' @ quoted team @ '' does not exist.'')
             | Some updatedTeam \<Rightarrow>
                 (case removeMember memberID (Members updatedTeam) of
                    None \<Rightarrow>
                      responseError s []
                        (''User '' @ memberID @ '' is not in team '' @ quoted team @ ''.'')
                  | Some members \<Rightarrow>
                      (case map_assign (Teams teams) team (updatedTeam\<lparr>Members := members\<rparr>) of
                         None \<Rightarrow> panics s []
                       | Some m \<Rightarrow>
                           (case writeTeams e s (teams\<lparr>Teams := m\<rparr>) of
                              Inl err \<Rightarrow> responseError s [] ''Error writing to teams.''
                            | Inr s' \<Rightarrow>
                                responseSuccess s' []
                                  (''Removed user '' @ memberID @ '' from team ''
                                     @ quoted team @ ''.''))))))"

text \<open>Lines 480-507: \<^verbatim>\<open>print members\<close>.\<close>

definition memberEntry :: "Member \<Rightarrow> string" where
  "memberEntry member =
     (if Member.Name member \<noteq> ''''
      then Member.Name member @ '' ('' @ Member.MemberID member @ '')''
      else Member.MemberID member)"

definition printMembers :: "store \<Rightarrow> string \<Rightarrow> result" where
  "printMembers s team =
     (case readTeams s of
        Inl err \<Rightarrow> responseError s [] ''Error reading teams.''
      | Inr teams \<Rightarrow>
          (case map_lookup (Teams teams) team of
             None \<Rightarrow> responseError s [] (''Team '' @ quoted team @ '' does not exist.'')
           | Some t \<Rightarrow>
               let members = map memberEntry (Members t) in
               if length members = 0
               then responseSuccess s [] (''No members found in team '' @ quoted team @ ''.'')
               else responseSuccess s []
                      (''Members of team '' @ quoted team @ '': '' @ Join members '', '')))"

section \<open>Channel commands (main.go, lines 536-693)\<close>

text \<open>
  Lines 566-572 and 672-678: \<^verbatim>\<open>channelID\<close> starts as the empty string; the loop visits
  the entries of \<^verbatim>\<open>channels\<close> in the order \<open>ks\<close> of this execution, and stops at the
  first one whose \<^verbatim>\<open>Name\<close> is \<^verbatim>\<open>channelName\<close>. A key that is not in the map is not
  visited.
\<close>

fun findChannelID :: "Channels \<Rightarrow> string list \<Rightarrow> string \<Rightarrow> string" where
  "findChannelID channels [] channelName = ''''"
| "findChannelID channels (k # ks) channelName =
     (case map_lookup channels k of
        None \<Rightarrow> findChannelID channels ks channelName
      | Some channel \<Rightarrow>
          if Channel.Name channel = channelName then k
          else findChannelID channels ks channelName)"

text \<open>Lines 582-588: one mention for each member whose id is not empty.\<close>

fun mentionsOf :: "Member list \<Rightarrow> string list" where
  "mentionsOf [] = []"
| "mentionsOf (member # rest) =
     (if Member.MemberID member \<noteq> ''''
      then (''<@'' @ Member.MemberID member @ ''>'') # mentionsOf rest
      else mentionsOf rest)"

definition handlePing :: "env \<Rightarrow> store \<Rightarrow> string list \<Rightarrow> result" where
  "handlePing e s args =
     (if length args < 2
      then responseError s [] ''Please provide a team name and a channel name to ping.''
      else let team = args ! 0; channelName = args ! 1 in
        case readTeams s of
          Inl err \<Rightarrow> responseError s [] ''Error reading teams.''
        | Inr teams \<Rightarrow>
            (case map_lookup (Teams teams) team of
               None \<Rightarrow> responseError s [] (''Team '' @ quoted team @ '' does not exist.'')
             | Some t \<Rightarrow>
                 (case readChannels s of
                    Inl err \<Rightarrow> responseError s [] ''Error reading channels.''
                  | Inr channels \<Rightarrow>
                      let channelID = findChannelID channels (rangeChannels e) channelName in
                      if channelID = ''''
                      then responseError s []
                             (''Channel '' @ quoted channelName @ '' not found.'')
                      else let mentions = mentionsOf (Members t) in
                        if length mentions = 0
                        then responseError s []
                               (''No members of team '' @ quoted team @ '' found.'')
                        else
                          (case PostMessage e channelID (Join mentions '' '') of
                             Some err \<Rightarrow>
                               responseError s [CallPostMessage channelID (Join mentions '' '')]
                                 (''Error pinging team: '' @ err)
                           | None \<Rightarrow>
                               responseSuccess s [CallPostMessage channelID (Join mentions '' '')]
                                 (''Successfully pinged team '' @ quoted team @ '' in #''
                                    @ channelName @ ''.'')))))"

definition notInChannel :: string where
  "notInChannel = ''You need to run the command inside the channel you want to add. ''
     @ ''If you are trying to add a private channel please run /invite @connect-management.''"

definition handleAddChannel :: "env \<Rightarrow> store \<Rightarrow> string list \<Rightarrow> string \<Rightarrow> string \<Rightarrow> result" where
  "handleAddChannel e s args channelID channelName =
     (if channelID = '''' \<or> channelName = '''' then responseError s [] notInChannel
      else
        case readChannels s of
          Inl err \<Rightarrow> responseError s [] notInChannel
        | Inr channels \<Rightarrow>
            if map_lookup channels channelID \<noteq> None
            then responseError s []
                   (''Channel #'' @ channelName @ '' is already being tracked.'')
            else
              (case JoinConversation e channelID of
                 Some err \<Rightarrow> responseError s [CallJoinConversation channelID] notInChannel
               | None \<Rightarrow>
                   (case map_assign channels channelID
                           \<lparr>ID = channelID, Channel.Name = channelName\<rparr> of
                      None \<Rightarrow> panics s [CallJoinConversation channelID]
                    | Some channels' \<Rightarrow>
                        (case writeChannels e s channels' of
                           Inl err \<Rightarrow>
                             responseError s [CallJoinConversation channelID]
                               ''Error writing to channels file.''
                         | Inr s' \<Rightarrow>
                             responseSuccess s'
                               [CallJoinConversation channelID,
                                GoUpdateUserInfoForChannel channelID]
                               (''Channel #'' @ channelName
                                  @ '' has been added to the tracking list.'')))))"

definition handleRemoveChannel :: "env \<Rightarrow> store \<Rightarrow> string list \<Rightarrow> result" where
  "handleRemoveChannel e s args =
     (if length args < 1 then responseError s [] ''Please provide a channel name to remove.''
      else let channelName = args ! 0 in
        case readChannels s of
          Inl err \<Rightarrow> responseError s [] ''Error reading channels.''
        | Inr channels \<Rightarrow>
            let channelID = findChannelID channels (rangeChannels e) channelName in
            if channelID = ''''
            then responseError s []
                   (''Channel #'' @ channelName @ '' is not being tracked.'')
            else
              (case writeChannels e s (map_delete channels channelID) of
                 Inl err \<Rightarrow> responseError s [] ''Error writing to channels file.''
               | Inr s' \<Rightarrow>
                   responseSuccess s' []
                     (''Channel #'' @ channelName
                        @ '' has been removed from the tracking list.'')))"

section \<open>Reconciliation of one channel (main.go, lines 716-803)\<close>

text \<open>
  Lines 761-773: the user is created or renamed, stamped with the clock reading, and the
  channel is entered in its \<^verbatim>\<open>Channels\<close>. Both assignments panic on a nil map.
\<close>

definition updateUser :: "time \<Rightarrow> string \<Rightarrow> string \<Rightarrow> string \<Rightarrow> Users \<Rightarrow> Users option" where
  "updateUser now channelID memberID displayName users =
     (let user =
            (case map_lookup users memberID of
               None \<Rightarrow> \<lparr>User.MemberID = memberID, User.Name = displayName,
                         UpdatedAt = 0, User.Channels = make_map\<rparr>
             | Some user \<Rightarrow> user\<lparr>User.Name := displayName\<rparr>);
          user = user\<lparr>UpdatedAt := now\<rparr>
      in case map_assign (User.Channels user) channelID memberID of
           None \<Rightarrow> None
         | Some cs \<Rightarrow> map_assign users memberID (user\<lparr>User.Channels := cs\<rparr>))"

text \<open>Lines 778-787: what the inner loop does to one member of a team.\<close>

definition updateMember :: "string \<Rightarrow> string \<Rightarrow> string \<Rightarrow> Member \<Rightarrow> Member" where
  "updateMember channelID memberID displayName member =
     (if Member.MemberID member = memberID
      then member
             \<lparr>Member.Name := displayName,
              Member.Channels :=
                (case Member.Channels member of
                   NilMap \<Rightarrow> GoMap [channelID \<mapsto> memberID]
                 | GoMap cs \<Rightarrow> GoMap (cs(channelID \<mapsto> memberID)))\<rparr>
      else member)"

text \<open>
  Lines 776-789: every team is visited once and only its own members are written, so the
  order of the visit does not matter and the loops are a map over the teams. The loop as
  it runs in one iteration order \<open>ks\<close> of the teams is \<open>visitTeams\<close> below; lemma
  \<open>visitTeams_any_order\<close> shows that every iteration order gives this map.
\<close>

definition updateTeamMembers :: "string \<Rightarrow> string \<Rightarrow> string \<Rightarrow> Teams \<Rightarrow> Teams" where
  "updateTeamMembers channelID memberID displayName teams =
     teams\<lparr>Teams :=
       (case Teams teams of
          NilMap \<Rightarrow> NilMap
        | GoMap ts \<Rightarrow>
            GoMap (\<lambda>teamName.
              map_option
                (\<lambda>team. team\<lparr>Members :=
                   map (updateMember channelID memberID displayName) (Members team)\<rparr>)
                (ts teamName)))\<rparr>"

fun visitTeams :: "string \<Rightarrow> string \<Rightarrow> string \<Rightarrow> string list \<Rightarrow> Teams \<Rightarrow> Teams" where
  "visitTeams channelID memberID displayName [] teams = teams"
| "visitTeams channelID memberID displayName (teamName # ks) teams =
     visitTeams channelID memberID displayName ks
       (case map_lookup (Teams teams) teamName of
          None \<Rightarrow> teams
        | Some team \<Rightarrow>
            teams\<lparr>Teams :=
              (case Teams teams of
                 NilMap \<Rightarrow> NilMap
               | GoMap ts \<Rightarrow>
                   GoMap (ts(teamName \<mapsto>
                     team\<lparr>Members :=
                       map (updateMember channelID memberID displayName) (Members team)\<rparr>)))\<rparr>)"

text \<open>
  Lines 742-790: the loop over the members of the channel, \<open>i\<close> counting the iterations;
  \<open>None\<close> when an assignment panics.
\<close>

fun updateMembers ::
  "env \<Rightarrow> string \<Rightarrow> nat \<Rightarrow> string list \<Rightarrow> Users \<Rightarrow> Teams \<Rightarrow> (Users \<times> Teams) option" where
  "updateMembers e channelID i [] users teams = Some (users, teams)"
| "updateMembers e channelID i (memberID # rest) users teams =
     (case GetUserInfo e memberID of
        Inl err \<Rightarrow> updateMembers e channelID (Suc i) rest users teams
      | Inr userInfo \<Rightarrow>
          if IsBot userInfo then updateMembers e channelID (Suc i) rest users teams
          else
            (case updateUser (Now e i) channelID memberID (displayNameOf userInfo) users of
               None \<Rightarrow> None
             | Some users' \<Rightarrow>
                 updateMembers e channelID (Suc i) rest users'
                   (updateTeamMembers channelID memberID (displayNameOf userInfo) teams)))"

text \<open>
  How a pass ends: it returned early after an error it logged, it panicked, or it reached
  the two writes (whether the users file and the teams file were written).
\<close>

datatype pass = Aborted | Crashed | Finished bool bool

definition updateUserInfoForChannel :: "env \<Rightarrow> store \<Rightarrow> string \<Rightarrow> pass \<times> store" where
  "updateUserInfoForChannel e s channelID =
     (case readUsers s of
        Inl err \<Rightarrow> (Aborted, s)
      | Inr users \<Rightarrow>
          (case readTeams s of
             Inl err \<Rightarrow> (Aborted, s)
           | Inr teams \<Rightarrow>
               (case GetUsersInConversation e channelID of
                  Inl err \<Rightarrow> (Aborted, s)
                | Inr members \<Rightarrow>
                    (case updateMembers e channelID 0 members users teams of
                       None \<Rightarrow> (Crashed, s)
                     | Some (users', teams') \<Rightarrow>
                         (case writeUsers e s users' of
                            Inl err \<Rightarrow>
                              (case writeTeams e s teams' of
                                 Inl err' \<Rightarrow> (Finished False False, s)
                               | Inr s2 \<Rightarrow> (Finished False True, s2))
                          | Inr s1 \<Rightarrow>
                              (case writeTeams e s1 teams' of
                                 Inl err' \<Rightarrow> (Finished True False, s1)
                               | Inr s2 \<Rightarrow> (Finished True True, s2)))))))"

section \<open>Queries and the command router (main.go, lines 155-236 and 416-534)\<close>

text \<open>
  The values of a map in the order \<open>ks\<close> of one execution of \<^verbatim>\<open>range\<close>; a key that is
  not in the map is not visited.
\<close>

fun rangeValues :: "'v gomap \<Rightarrow> string list \<Rightarrow> 'v list" where
  "rangeValues m [] = []"
| "rangeValues m (k # ks) =
     (case map_lookup m k of
        None \<Rightarrow> rangeValues m ks
      | Some v \<Rightarrow> v # rangeValues m ks)"

definition printTeams :: "env \<Rightarrow> store \<Rightarrow> result" where
  "printTeams e s =
     (case readTeams s of
        Inl err \<Rightarrow> responseError s [] ''Error reading teams.''
      | Inr teams \<Rightarrow>
          let teamNames = filter (\<lambda>team. map_lookup (Teams teams) team \<noteq> None) (rangeTeams e) in
          if length teamNames = 0 then responseSuccess s [] ''No teams found.''
          else responseSuccess s [] (''Teams: '' @ Join teamNames '', ''))"

definition printChannels :: "env \<Rightarrow> store \<Rightarrow> result" where
  "printChannels e s =
     (case readChannels s of
        Inl err \<Rightarrow> responseError s [] ''Error reading channels.''
      | Inr channels \<Rightarrow>
          let channelNames = map Channel.Name (rangeValues channels (rangeChannels e)) in
          if length channelNames = 0 then responseSuccess s [] ''No channels found.''
          else responseSuccess s [] (''Channels: '' @ Join channelNames '', ''))"

definition handlePrint :: "env \<Rightarrow> store \<Rightarrow> string list \<Rightarrow> result" where
  "handlePrint e s args =
     (if length args < 1
      then responseError s [] ''Please specify what to print: teams, channels, or members <team>.''
      else let option = args ! 0 in
        if option = ''teams'' then printTeams e s
        else if option = ''channels'' then printChannels e s
        else if option = ''members'' then
          (if length args < 2
           then responseError s [] ''Please provide a team name to print members.''
           else printMembers s (args ! 1))
        else responseError s []
               (''Invalid print option. Use '' @ quoted ''teams'' @ '', '' @ quoted ''channels''
                  @ '', or '' @ quoted ''members <team>'' @ ''.''))"

definition handleInvite :: "store \<Rightarrow> string list \<Rightarrow> result" where
  "handleInvite s args =
     (if length args < 1 then responseError s [] ''Please provide a team name for invitation.''
      else let team = args ! 0 in
        case readTeams s of
          Inl err \<Rightarrow> responseError s [] ''Error reading teams.''
        | Inr teams \<Rightarrow>
            (case map_lookup (Teams teams) team of
               None \<Rightarrow> responseError s [] (''Team '' @ quoted team @ '' does not exist.'')
             | Some t \<Rightarrow>
                 responseSuccess s []
                   (''To invite team '' @ quoted team @ '', use these member IDs: ''
                      @ Join (map Member.MemberID (Members t)) '', '')))"

definition helpText :: string where
  "helpText = Join
     [''Available commands:'',
      ''- /connect create-team <team>'',
      ''- /connect remove-team <team>'',
      ''- /connect add <team> <member_id>'',
      ''- /connect remove <team> <member_id>'',
      ''- /connect print teams'',
      ''- /connect print channels'',
      ''- /connect print members <team>'',
      ''- /connect invite <team>'',
      ''- /connect ping <team> <channel>'',
      ''- /connect add-channel'',
      ''- /connect remove-channel <channel>'',
      ''- /connect help or /connect -h (shows this help message)'']
     [CHR 0x0A]"

definition showHelp :: "store \<Rightarrow> result" where
  "showHelp s = responseSuccess s [] helpText"

text \<open>
  Lines 184-216 of \<^verbatim>\<open>handleSlackCommand\<close>: \<open>args\<close> are the fields of the command text,
  and the channel id and name are those of the request.
\<close>

definition handleSlackCommand :: "env \<Rightarrow> store \<Rightarrow> string list \<Rightarrow> string \<Rightarrow> string \<Rightarrow> result" where
  "handleSlackCommand e s args channelID channelName =
     (if length args = 0 \<or> args ! 0 = ''help'' \<or> args ! 0 = ''-h'' then showHelp s
      else let action = args ! 0 in
        if action = ''create-team'' then handleCreateTeam e s (tl args)
        else if action = ''remove-team'' then handleRemoveTeam e s (tl args)
        else if action = ''add'' then handleAdd e s (tl args)
        else if action = ''remove'' then handleRemove e s (tl args)
        else if action = ''print'' then handlePrint e s (tl args)
        else if action = ''invite'' then handleInvite s (tl args)
        else if action = ''ping'' then handlePing e s (tl args)
        else if action = ''add-channel'' then handleAddChannel e s (tl args) channelID channelName
        else if action = ''remove-channel'' then handleRemoveChannel e s (tl args)
        else showHelp s)"

section \<open>Notions used to state the properties\<close>

text \<open>
  The display name a pass resolves for a member id it does not skip (lines 743-757):
  \<open>None\<close> when the profile cannot be fetched or is a bot's.
\<close>

definition refreshed :: "env \<Rightarrow> string \<Rightarrow> string option" where
  "refreshed e memberID =
     (case GetUserInfo e memberID of
        Inl err \<Rightarrow> None
      | Inr userInfo \<Rightarrow> if IsBot userInfo then None else Some (displayNameOf userInfo))"

text \<open>
  The two halves of the loop \<open>updateMembers\<close>: what it does to the users, and what it
  does to one member of a team. Lemma \<open>updateMembers_split\<close> below shows that the loop is
  exactly the two together.
\<close>

fun refreshUsers :: "env \<Rightarrow> string \<Rightarrow> nat \<Rightarrow> string list \<Rightarrow> Users \<Rightarrow> Users option" where
  "refreshUsers e channelID i [] users = Some users"
| "refreshUsers e channelID i (memberID # rest) users =
     (case refreshed e memberID of
        None \<Rightarrow> refreshUsers e channelID (Suc i) rest users
      | Some displayName \<Rightarrow>
          (case updateUser (Now e i) channelID memberID displayName users of
             None \<Rightarrow> None
           | Some users' \<Rightarrow> refreshUsers e channelID (Suc i) rest users'))"

definition refreshMember :: "env \<Rightarrow> string \<Rightarrow> string list \<Rightarrow> Member \<Rightarrow> Member" where
  "refreshMember e channelID members member =
     (if Member.MemberID member \<in> set members
      then (case refreshed e (Member.MemberID member) of
              None \<Rightarrow> member
            | Some displayName \<Rightarrow>
                updateMember channelID (Member.MemberID member) displayName member)
      else member)"

text \<open>A function applied to every member of every team.\<close>

definition mapMembers :: "(Member \<Rightarrow> Member) \<Rightarrow> Teams \<Rightarrow> Teams" where
  "mapMembers f teams =
     teams\<lparr>Teams :=
       (case Teams teams of
          NilMap \<Rightarrow> NilMap
        | GoMap ts \<Rightarrow>
            GoMap (\<lambda>teamName.
              map_option (\<lambda>team. team\<lparr>Members := map f (Members team)\<rparr>) (ts teamName)))\<rparr>"

text \<open>The users with every \<^verbatim>\<open>UpdatedAt\<close> blanked: all of their content but the timestamps.\<close>

definition forget_time :: "Users \<Rightarrow> Users" where
  "forget_time users =
     (case users of
        NilMap \<Rightarrow> NilMap
      | GoMap us \<Rightarrow> GoMap (\<lambda>memberID. map_option (\<lambda>user. user\<lparr>UpdatedAt := 0\<rparr>) (us memberID)))"

text \<open>
  The user \<open>memberID\<close> is registered under \<open>displayName\<close> and recorded as a member of the
  channel.
\<close>

definition user_settled :: "string \<Rightarrow> string \<Rightarrow> string \<Rightarrow> Users \<Rightarrow> bool" where
  "user_settled channelID memberID displayName users =
     (\<exists>us user cs. users = GoMap us \<and> us memberID = Some user \<and>
        User.Name user = displayName \<and> User.Channels user = GoMap cs \<and>
        cs channelID = Some memberID)"

text \<open>
  Every member of every team whose id has an entry among the users carries that user's
  name.
\<close>

definition names_agree :: "Users \<Rightarrow> Teams \<Rightarrow> bool" where
  "names_agree users teams =
     (\<forall>teamName team member user.
        map_lookup (Teams teams) teamName = Some team \<and> member \<in> set (Members team) \<and>
        map_lookup users (Member.MemberID member) = Some user
        \<longrightarrow> Member.Name member = User.Name user)"

text \<open>The same for the collections a store holds, as \<open>readUsers\<close> and \<open>readTeams\<close> load them.\<close>

definition store_names_agree :: "store \<Rightarrow> bool" where
  "store_names_agree s =
     (\<forall>users teams. readUsers s = Inr users \<and> readTeams s = Inr teams
        \<longrightarrow> names_agree users teams)"

text \<open>Within every team, no member id occurs twice.\<close>

definition teams_unique :: "Teams \<Rightarrow> bool" where
  "teams_unique teams =
     (\<forall>teamName team. map_lookup (Teams teams) teamName = Some team
        \<longrightarrow> distinct (map Member.MemberID (Members team)))"

text \<open>The same for the teams a store holds, as \<open>readTeams\<close> loads them.\<close>

definition unique_member_ids :: "store \<Rightarrow> bool" where
  "unique_member_ids s = (\<forall>teams. readTeams s = Inr teams \<longrightarrow> teams_unique teams)"

text \<open>
  The platform has a profile only for a member id that is valid UTF-8: the identifiers it
  issues are text.
\<close>

definition profile_ids_valid :: "env \<Rightarrow> bool" where
  "profile_ids_valid e =
     (\<forall>memberID userInfo. GetUserInfo e memberID = Inr userInfo \<longrightarrow> validUTF8 memberID)"

text \<open>The member ids of every team, in order: who is in which team.\<close>

definition membership :: "Teams \<Rightarrow> string \<Rightarrow> string list option" where
  "membership teams teamName =
     map_option (\<lambda>team. map Member.MemberID (Members team)) (map_lookup (Teams teams) teamName)"

text \<open>
  What a pass makes of the users, up to the timestamps: the entry of a member id it
  refreshes is created or renamed and records the channel (\<open>refreshedUser\<close>), and every
  other entry stays. Lemma \<open>refreshUsers_closed\<close> below shows that the loop
  \<open>refreshUsers\<close>, when it does not panic, leaves exactly these users.
\<close>

definition refreshedUser :: "string \<Rightarrow> string \<Rightarrow> string \<Rightarrow> User option \<Rightarrow> User" where
  "refreshedUser channelID memberID displayName old =
     (case old of
        None \<Rightarrow>
          \<lparr>User.MemberID = memberID, User.Name = displayName, UpdatedAt = 0,
           User.Channels = GoMap [channelID \<mapsto> memberID]\<rparr>
      | Some user \<Rightarrow>
          user\<lparr>User.Name := displayName, UpdatedAt := 0,
               User.Channels :=
                 (case User.Channels user of
                    NilMap \<Rightarrow> NilMap
                  | GoMap cs \<Rightarrow> GoMap (cs(channelID \<mapsto> memberID)))\<rparr>)"

definition refreshedUsers ::
  "env \<Rightarrow> string \<Rightarrow> string list \<Rightarrow> (string \<rightharpoonup> User) \<Rightarrow> (string \<rightharpoonup> User)" where
  "refreshedUsers e channelID members us =
     (\<lambda>memberID.
        case (if memberID \<in> set members then refreshed e memberID else None) of
          None \<Rightarrow> map_option (\<lambda>user. user\<lparr>UpdatedAt := 0\<rparr>) (us memberID)
        | Some displayName \<Rightarrow>
            Some (refreshedUser channelID memberID displayName (us memberID)))"

section \<open>Example data\<close>

text \<open>A store whose teams and channels files are missing and whose users file is broken.\<close>

definition fresh_store :: store where
  "fresh_store = \<lparr>TeamsFile = NotExist, UsersFile = Malformed, ChannelsFile = NotExist\<rparr>"

text \<open>
  A Slack workspace that knows two persons, \<^verbatim>\<open>U123\<close> and \<^verbatim>\<open>U9\<close>, and the bot
  \<^verbatim>\<open>B1\<close>; the channel \<^verbatim>\<open>C1\<close> has the members \<^verbatim>\<open>B1\<close> and \<^verbatim>\<open>U123\<close>; every file can
  be written.
\<close>

definition ada :: SlackUser where
  "ada = \<lparr>IsBot = False, ProfileDisplayName = ''Ada'', SlackUser.Name = ''ada.lovelace''\<rparr>"

definition bot :: SlackUser where
  "bot = \<lparr>IsBot = True, ProfileDisplayName = ''connect'', SlackUser.Name = ''connect''\<rparr>"

definition grace :: SlackUser where
  "grace = \<lparr>IsBot = False, ProfileDisplayName = ''Grace'', SlackUser.Name = ''grace.hopper''\<rparr>"

definition slack :: env where
  "slack =
     \<lparr>GetUserInfo = (\<lambda>memberID. if memberID = ''U123'' then Inr ada
                       else if memberID = ''U9'' then Inr grace
                       else if memberID = ''B1'' then Inr bot else Inl ''user_not_found''),
      GetUsersInConversation = (\<lambda>channelID. if channelID = ''C1'' then Inr [''B1'', ''U123'']
                       else Inl ''channel_not_found''),
      PostMessage = (\<lambda>channelID text. None),
      JoinConversation = (\<lambda>channelID. None),
      Now = (\<lambda>i. 100 + i),
      TeamsWritable = True, UsersWritable = True, ChannelsWritable = True,
      rangeTeams = [''eng''], rangeChannels = [''C1'']\<rparr>"

definition general :: Channel where
  "general = \<lparr>ID = ''C1'', Channel.Name = ''general''\<rparr>"

text \<open>A store with the empty team \<^verbatim>\<open>eng\<close>, no user and the channel \<^verbatim>\<open>C1\<close>.\<close>

definition eng_store :: store where
  "eng_store =
     \<lparr>TeamsFile = Stored \<lparr>Teams = GoMap [''eng'' \<mapsto> \<lparr>Members = []\<rparr>]\<rparr>,
      UsersFile = Stored (GoMap Map.empty),
      ChannelsFile = Stored (GoMap [''C1'' \<mapsto> general])\<rparr>"

text \<open>
  A store in which \<^verbatim>\<open>U9\<close> is a member of team \<^verbatim>\<open>eng\<close> and a registered user, both
  under the name \<^verbatim>\<open>Grace Hopper\<close>, and the team \<^verbatim>\<open>ops\<close> is empty; and the store that
  \<^verbatim>\<open>add ops U9\<close> makes of it once \<^verbatim>\<open>U9\<close> has changed the display name to
  \<^verbatim>\<open>Grace\<close>.
\<close>

definition grace_store :: store where
  "grace_store =
     \<lparr>TeamsFile = Stored \<lparr>Teams = GoMap [''eng'' \<mapsto>
        \<lparr>Members = [\<lparr>Member.MemberID = ''U9'', Member.Name = ''Grace Hopper'',
                      Member.Channels = GoMap Map.empty\<rparr>]\<rparr>, ''ops'' \<mapsto> \<lparr>Members = []\<rparr>]\<rparr>,
      UsersFile = Stored (GoMap [''U9'' \<mapsto>
        \<lparr>User.MemberID = ''U9'', User.Name = ''Grace Hopper'', UpdatedAt = 50,
         User.Channels = GoMap Map.empty\<rparr>]),
      ChannelsFile = Stored (GoMap [''C1'' \<mapsto> general])\<rparr>"

definition stale_store :: store where
  "stale_store =
     \<lparr>TeamsFile = Stored \<lparr>Teams = GoMap [''eng'' \<mapsto>
        \<lparr>Members = [\<lparr>Member.MemberID = ''U9'', Member.Name = ''Grace Hopper'',
                      Member.Channels = GoMap Map.empty\<rparr>]\<rparr>,
        ''ops'' \<mapsto>
        \<lparr>Members = [\<lparr>Member.MemberID = ''U9'', Member.Name = ''Grace'',
                      Member.Channels = GoMap Map.empty\<rparr>]\<rparr>]\<rparr>,
      UsersFile = Stored (GoMap [''U9'' \<mapsto>
        \<lparr>User.MemberID = ''U9'', User.Name = ''Grace'', UpdatedAt = 100,
         User.Channels = GoMap Map.empty\<rparr>]),
      ChannelsFile = Stored (GoMap [''C1'' \<mapsto> general])\<rparr>"

text \<open>
  A store in which \<^verbatim>\<open>U123\<close> is a member of team \<^verbatim>\<open>eng\<close> and a registered user, under
  an older name and seen in another channel; the team \<^verbatim>\<open>ops\<close> is empty.
\<close>

definition ada_store :: store where
  "ada_store =
     \<lparr>TeamsFile = Stored \<lparr>Teams = GoMap [''eng'' \<mapsto>
        \<lparr>Members = [\<lparr>Member.MemberID = ''U123'', Member.Name = ''Ada L.'',
                      Member.Channels = NilMap\<rparr>]\<rparr>, ''ops'' \<mapsto> \<lparr>Members = []\<rparr>]\<rparr>,
      UsersFile = Stored (GoMap [''U123'' \<mapsto>
        \<lparr>User.MemberID = ''U123'', User.Name = ''Ada L.'', UpdatedAt = 7,
         User.Channels = GoMap [''C0'' \<mapsto> ''U123'']\<rparr>]),
      ChannelsFile = Stored (GoMap [''C1'' \<mapsto> general])\<rparr>"

text \<open>The store \<open>eng_store\<close> with a users file that cannot be parsed.\<close>

definition broken_users_store :: store where
  "broken_users_store = eng_store\<lparr>UsersFile := Malformed\<rparr>"

text \<open>
  Two tracked channels: with different names, and with the same name. In the second store
  \<^verbatim>\<open>U123\<close> is a member of team \<^verbatim>\<open>eng\<close>.
\<close>

definition two_channels :: Channels where
  "two_channels = GoMap [''C1'' \<mapsto> general, ''C2'' \<mapsto> \<lparr>ID = ''C2'', Channel.Name = ''random''\<rparr>]"

definition twin_channels :: Channels where
  "twin_channels = GoMap [''C1'' \<mapsto> general, ''C2'' \<mapsto> \<lparr>ID = ''C2'', Channel.Name = ''general''\<rparr>]"

definition twin_store :: store where
  "twin_store =
     \<lparr>TeamsFile = Stored \<lparr>Teams = GoMap [''eng'' \<mapsto>
        \<lparr>Members = [\<lparr>Member.MemberID = ''U123'', Member.Name = ''Ada'',
                      Member.Channels = GoMap Map.empty\<rparr>]\<rparr>]\<rparr>,
      UsersFile = Stored (GoMap Map.empty),
      ChannelsFile = Stored twin_channels\<rparr>"

text \<open>The store as \<^verbatim>\<open>ensureFileExists\<close> initialises it: three empty collections.\<close>

definition initial_store :: store where
  "initial_store =
     \<lparr>TeamsFile = Stored \<lparr>Teams = GoMap Map.empty\<rparr>,
      UsersFile = Stored (GoMap Map.empty),
      ChannelsFile = Stored (GoMap Map.empty)\<rparr>"

text \<open>
  A platform that has a profile for every member id, also for the byte \<^verbatim>\<open>0xFF\<close>, which
  is not valid UTF-8.
\<close>

definition lenient_slack :: env where
  "lenient_slack = slack\<lparr>GetUserInfo := (\<lambda>memberID. Inr ada)\<rparr>"

section \<open>The round trip through \<open>encoding/json\<close>\<close>

lemma runeLength_bounds:
  "runeLength s = Some n \<Longrightarrow> 0 < n \<and> n \<le> length s"
  by (cases s) (auto split: if_splits list.splits)

lemma runeLength_prefix:
  "runeLength s = Some n \<Longrightarrow> runeLength (take n s @ t) = Some n"
  by (cases s) (auto split: if_splits list.splits)

lemma runeLength_replacement:
  "runeLength (replacement @ t) = Some 3"
  by (simp add: replacement_def inRange_def)

lemma runeLength_ascii:
  "of_char b < (128::nat) \<Longrightarrow> runeLength (b # rest) = Some 1"
  by (simp add: inRange_def)

declare runeLength.simps(2) [simp del]
declare jsonString.simps(2) [simp del]

lemma jsonString_unfold:
  "s \<noteq> [] \<Longrightarrow> jsonString s =
     (case runeLength s of
        Some n \<Rightarrow> take n s @ jsonString (drop n s)
      | None \<Rightarrow> replacement @ jsonString (tl s))"
  by (cases s) (simp_all add: jsonString.simps(2) split: option.split)

lemma jsonString_rune:
  assumes "runeLength s = Some n"
  shows "jsonString (take n s @ t) = take n s @ jsonString t"
proof -
  from assms have n: "0 < n" "n \<le> length s"
    using runeLength_bounds by blast+
  then have ne: "take n s @ t \<noteq> []"
    by (cases s) auto
  have "runeLength (take n s @ t) = Some n"
    using assms by (rule runeLength_prefix)
  then show ?thesis
    using n by (simp add: jsonString_unfold [OF ne])
qed

lemma jsonString_replacement:
  "jsonString (replacement @ t) = replacement @ jsonString t"
proof -
  have "replacement @ t \<noteq> []"
    by (simp add: replacement_def)
  from jsonString_unfold [OF this] show ?thesis
    by (simp add: runeLength_replacement) (simp add: replacement_def)
qed

text \<open>What has been written and read once is written as it is.\<close>

lemma jsonString_idem [simp]:
  "jsonString (jsonString s) = jsonString s"
proof (induction s rule: jsonString.induct)
  case 1
  show ?case by simp
next
  case (2 b rest)
  show ?case
  proof (cases "runeLength (b # rest)")
    case None
    then show ?thesis
      using 2(1) [OF None] by (simp add: jsonString.simps(2) jsonString_replacement)
  next
    case (Some n)
    then show ?thesis
      using 2(2) [OF Some] jsonString_rune [OF Some]
      by (simp add: jsonString.simps(2))
  qed
qed

lemma validUTF8_jsonString [simp]:
  "validUTF8 (jsonString s)"
  by (simp add: validUTF8_def)

text \<open>ASCII text is valid UTF-8.\<close>

lemma jsonString_ascii:
  "list_all (\<lambda>b. of_char b < (128::nat)) s \<Longrightarrow> jsonString s = s"
  by (induction s) (simp_all add: jsonString.simps(2) runeLength_ascii)

lemma validUTF8_ascii:
  "list_all (\<lambda>b. of_char b < (128::nat)) s \<Longrightarrow> validUTF8 s"
  by (simp add: validUTF8_def jsonString_ascii)

text \<open>A byte that starts no well-formed sequence is written as U+FFFD.\<close>

lemma jsonString_invalid_byte:
  "jsonString [CHR 0xFF] = replacement"
  by (simp add: jsonString.simps(2) runeLength.simps(2) inRange_def)

lemma candidates_Cons:
  "raw \<in> set (candidates k) \<Longrightarrow> b # raw \<in> set (candidates (b # k))"
  by (cases "b # k" rule: candidates.cases) auto

lemma candidates_append:
  "raw \<in> set (candidates k) \<Longrightarrow> p @ raw \<in> set (candidates (p @ k))"
  by (induction p) (simp_all add: candidates_Cons)

lemma candidates_replacement:
  "raw \<in> set (candidates k) \<Longrightarrow> b # raw \<in> set (candidates (replacement @ k))"
  by (auto simp: replacement_def enum_UNIV)

lemma candidates_complete:
  "raw \<in> set (candidates (jsonString raw))"
proof (induction raw rule: jsonString.induct)
  case 1
  show ?case by simp
next
  case (2 b rest)
  show ?case
  proof (cases "runeLength (b # rest)")
    case None
    then show ?thesis
      using 2(1) [OF None] by (simp add: jsonString.simps(2) candidates_replacement)
  next
    case (Some n)
    have "take n (b # rest) @ drop n (b # rest)
            \<in> set (candidates (take n (b # rest) @ jsonString (drop n (b # rest))))"
      using 2(2) [OF Some] by (rule candidates_append)
    then show ?thesis
      using Some by (simp add: jsonString.simps(2))
  qed
qed

text \<open>\<open>writtenAs k\<close> lists exactly the byte strings that are written as \<open>k\<close>.\<close>

lemma writtenAs_iff [simp]:
  "raw \<in> set (writtenAs k) \<longleftrightarrow> jsonString raw = k"
  using candidates_complete [of raw] by (auto simp: writtenAs_def)

lemma lastKey_None:
  "lastKey f k = None \<longleftrightarrow> (\<forall>raw. jsonString raw = k \<longrightarrow> f raw = None)"
proof -
  have "lastKey f k = None \<longleftrightarrow> filter (\<lambda>raw. f raw \<noteq> None) (writtenAs k) = []"
    by (simp add: lastKey_def split: list.split)
  also have "\<dots> \<longleftrightarrow> (\<forall>raw. jsonString raw = k \<longrightarrow> f raw = None)"
    by (auto simp: filter_empty_conv)
  finally show ?thesis .
qed

text \<open>\<open>lastKey f k\<close> is the greatest key of \<open>f\<close> that is written as \<open>k\<close>.\<close>

lemma lastKey_Some:
  "lastKey f k = Some raw \<longleftrightarrow>
     f raw \<noteq> None \<and> jsonString raw = k \<and>
     (\<forall>r. f r \<noteq> None \<and> jsonString r = k \<longrightarrow> r \<le> raw)"
proof -
  let ?ks = "filter (\<lambda>raw. f raw \<noteq> None) (writtenAs k)"
  have set: "set ?ks = {r. f r \<noteq> None \<and> jsonString r = k}"
    by auto
  show ?thesis
  proof (cases ?ks)
    case Nil
    then have "lastKey f k = None"
      by (simp add: lastKey_def)
    moreover have "\<forall>r. jsonString r = k \<longrightarrow> f r = None"
      using calculation by (simp add: lastKey_None)
    ultimately show ?thesis by auto
  next
    case (Cons a as)
    then have l: "lastKey f k = Some (Max (set ?ks))"
      by (simp add: lastKey_def)
    have ne: "set ?ks \<noteq> {}" and fin: "finite (set ?ks)"
      using Cons by simp_all
    have "Max (set ?ks) = raw \<longleftrightarrow> raw \<in> set ?ks \<and> (\<forall>r \<in> set ?ks. r \<le> raw)"
      using Max_eq_iff [OF fin ne] by blast
    then show ?thesis
      unfolding l set by auto
  qed
qed

lemma lastKey_valid:
  assumes "\<forall>r. f r \<noteq> None \<longrightarrow> validUTF8 r"
  shows "lastKey f k = (if f k = None then None else Some k)"
proof (cases "f k")
  case None
  have "f raw = None" if "jsonString raw = k" for raw
  proof (rule ccontr)
    assume "f raw \<noteq> None"
    then have "jsonString raw = raw"
      using assms by (simp add: validUTF8_def)
    then show False
      using that None \<open>f raw \<noteq> None\<close> by simp
  qed
  then show ?thesis
    using None by (simp add: lastKey_None)
next
  case (Some v)
  then have k: "jsonString k = k"
    using assms by (simp add: validUTF8_def)
  have "r \<le> k" if "f r \<noteq> None" "jsonString r = k" for r
  proof -
    have "jsonString r = r"
      using assms that(1) by (simp add: validUTF8_def)
    then show ?thesis
      using that(2) by simp
  qed
  then show ?thesis
    using Some k by (simp add: lastKey_Some)
qed

text \<open>A map whose keys are valid UTF-8 keeps its keys; only its values change.\<close>

lemma jsonMap_valid_keys:
  assumes "\<forall>r. f r \<noteq> None \<longrightarrow> validUTF8 r"
  shows "jsonMap enc (GoMap f) = GoMap (\<lambda>k. map_option enc (f k))"
  by (auto simp: jsonMap_def lastKey_valid [OF assms] fun_eq_iff)

lemma jsonMap_NilMap [simp]:
  "jsonMap enc NilMap = NilMap"
  by (simp add: jsonMap_def)

lemma jsonMap_empty [simp]:
  "jsonMap enc (GoMap Map.empty) = GoMap Map.empty"
  by (simp add: jsonMap_valid_keys)

lemma jsonMap_lookup:
  "map_lookup (jsonMap enc m) k = Some v \<longleftrightarrow>
     (\<exists>raw x. map_lookup m raw = Some x \<and> v = enc x \<and> jsonString raw = k \<and>
        (\<forall>r. map_lookup m r \<noteq> None \<and> jsonString r = k \<longrightarrow> r \<le> raw))"
proof (cases m)
  case NilMap
  then show ?thesis
    by (simp add: map_lookup_def)
next
  case (GoMap f)
  show ?thesis
  proof (cases "lastKey f k")
    case None
    then have "\<forall>raw. jsonString raw = k \<longrightarrow> f raw = None"
      by (simp add: lastKey_None)
    then show ?thesis
      using GoMap None by (auto simp: jsonMap_def map_lookup_def)
  next
    case (Some raw)
    then have raw: "f raw \<noteq> None" "jsonString raw = k"
      "\<And>r. f r \<noteq> None \<Longrightarrow> jsonString r = k \<Longrightarrow> r \<le> raw"
      by (simp_all add: lastKey_Some)
    have l: "map_lookup (jsonMap enc m) k = map_option enc (f raw)"
      using GoMap Some by (simp add: jsonMap_def map_lookup_def)
    have u: "raw' = raw"
      if "f raw' = Some x" "jsonString raw' = k"
        "\<forall>r. f r \<noteq> None \<and> jsonString r = k \<longrightarrow> r \<le> raw'" for raw' x
      using that raw by (metis antisym option.distinct(1))
    show ?thesis
    proof
      assume "map_lookup (jsonMap enc m) k = Some v"
      then obtain x where "f raw = Some x" "v = enc x"
        using l by auto
      then show "\<exists>raw x. map_lookup m raw = Some x \<and> v = enc x \<and> jsonString raw = k \<and>
        (\<forall>r. map_lookup m r \<noteq> None \<and> jsonString r = k \<longrightarrow> r \<le> raw)"
        using raw GoMap by (intro exI [of _ raw] exI [of _ x]) (simp add: map_lookup_def)
    next
      assume "\<exists>raw x. map_lookup m raw = Some x \<and> v = enc x \<and> jsonString raw = k \<and>
        (\<forall>r. map_lookup m r \<noteq> None \<and> jsonString r = k \<longrightarrow> r \<le> raw)"
      then obtain raw' x where r': "f raw' = Some x" "v = enc x" "jsonString raw' = k"
        "\<forall>r. f r \<noteq> None \<and> jsonString r = k \<longrightarrow> r \<le> raw'"
        using GoMap by (auto simp: map_lookup_def)
      then have "raw' = raw"
        using u by blast
      then show "map_lookup (jsonMap enc m) k = Some v"
        using l r' by simp
    qed
  qed
qed

lemma jsonMap_keys_valid:
  assumes "map_lookup (jsonMap enc m) k \<noteq> None"
  shows "validUTF8 k"
proof -
  from assms obtain v where "map_lookup (jsonMap enc m) k = Some v"
    by auto
  then obtain raw where "jsonString raw = k"
    by (auto simp: jsonMap_lookup)
  then show ?thesis
    by (auto simp: validUTF8_def)
qed

lemma jsonMap_idem:
  assumes "\<And>x. enc (enc x) = enc x"
  shows "jsonMap enc (jsonMap enc m) = jsonMap enc m"
proof (cases m)
  case NilMap
  then show ?thesis by simp
next
  case (GoMap f)
  obtain g where g: "jsonMap enc (GoMap f) = GoMap g"
    by (simp add: jsonMap_def)
  have "\<forall>r. g r \<noteq> None \<longrightarrow> validUTF8 r"
    using jsonMap_keys_valid [of enc "GoMap f"] by (simp add: g map_lookup_def)
  then have "jsonMap enc (GoMap g) = GoMap (\<lambda>k. map_option enc (g k))"
    by (rule jsonMap_valid_keys)
  moreover have "map_option enc (g k) = g k" for k
  proof (cases "g k")
    case None
    then show ?thesis by simp
  next
    case (Some v)
    then have "map_lookup (jsonMap enc (GoMap f)) k = Some v"
      by (simp add: g map_lookup_def)
    then obtain x where "v = enc x"
      by (auto simp: jsonMap_lookup)
    then show ?thesis
      using Some assms by simp
  qed
  ultimately show ?thesis
    using GoMap g by simp
qed

text \<open>What a round trip leaves unchanged has valid keys and values it leaves unchanged.\<close>

lemma jsonMap_fixed:
  assumes "jsonMap enc m = m" and "map_lookup m k = Some v"
  shows "validUTF8 k \<and> enc v = v"
proof -
  have k: "validUTF8 k"
    using jsonMap_keys_valid [of enc m k] assms by simp
  obtain f where m: "m = GoMap f"
    using assms(2) by (cases m) (simp_all add: map_lookup_def)
  have "\<forall>r. f r \<noteq> None \<longrightarrow> validUTF8 r"
    using jsonMap_keys_valid [of enc m] assms(1) m by (simp add: map_lookup_def)
  then have "jsonMap enc (GoMap f) = GoMap (\<lambda>k. map_option enc (f k))"
    by (rule jsonMap_valid_keys)
  then have "map_option enc (f k) = f k"
    using assms(1) m by (simp add: fun_eq_iff)
  then show ?thesis
    using k assms(2) m by (simp add: map_lookup_def)
qed

lemma jsonMap_fixed_iff:
  "jsonMap enc (GoMap f) = GoMap f \<longleftrightarrow> (\<forall>k v. f k = Some v \<longrightarrow> validUTF8 k \<and> enc v = v)"
proof
  assume "jsonMap enc (GoMap f) = GoMap f"
  then show "\<forall>k v. f k = Some v \<longrightarrow> validUTF8 k \<and> enc v = v"
    using jsonMap_fixed [of enc "GoMap f"] by (simp add: map_lookup_def)
next
  assume a: "\<forall>k v. f k = Some v \<longrightarrow> validUTF8 k \<and> enc v = v"
  then have "\<forall>r. f r \<noteq> None \<longrightarrow> validUTF8 r"
    by auto
  then have "jsonMap enc (GoMap f) = GoMap (\<lambda>k. map_option enc (f k))"
    by (rule jsonMap_valid_keys)
  moreover have "map_option enc (f k) = f k" for k
    using a by (cases "f k") simp_all
  ultimately show "jsonMap enc (GoMap f) = GoMap f"
    by simp
qed

lemma jsonStrings_idem [simp]:
  "jsonMap jsonString (jsonMap jsonString m) = jsonMap jsonString m"
  by (rule jsonMap_idem) simp

lemma jsonMember_idem [simp]:
  "jsonMember (jsonMember member) = jsonMember member"
  by (simp add: jsonMember_def)

lemma jsonTeam_idem [simp]:
  "jsonTeam (jsonTeam team) = jsonTeam team"
  by (simp add: jsonTeam_def comp_def)

lemma jsonTeams_idem [simp]:
  "jsonTeams (jsonTeams teams) = jsonTeams teams"
  by (simp add: jsonTeams_def jsonMap_idem)

lemma jsonUser_idem [simp]:
  "jsonUser (jsonUser user) = jsonUser user"
  by (simp add: jsonUser_def)

lemma jsonUsers_idem [simp]:
  "jsonUsers (jsonUsers users) = jsonUsers users"
  by (simp add: jsonUsers_def jsonMap_idem)

lemma jsonChannel_idem [simp]:
  "jsonChannel (jsonChannel channel) = jsonChannel channel"
  by (simp add: jsonChannel_def)

lemma jsonChannels_idem [simp]:
  "jsonChannels (jsonChannels channels) = jsonChannels channels"
  by (simp add: jsonChannels_def jsonMap_idem)

text \<open>What is loaded has been through a round trip, and is what is loaded after a write.\<close>

lemma read_decoded:
  "readTeams s = Inr teams \<Longrightarrow> jsonTeams teams = teams"
  "readUsers s = Inr users \<Longrightarrow> jsonUsers users = users"
  "readChannels s = Inr channels \<Longrightarrow> jsonChannels channels = channels"
  by (auto simp: readTeams_def readUsers_def readChannels_def make_map_def jsonTeams_def
      jsonUsers_def jsonChannels_def jsonMap_idem split: jsonfile.splits)

lemma read_after_write [simp]:
  "readUsers (s\<lparr>UsersFile := Stored users\<rparr>) = Inr (jsonUsers users)"
  "readTeams (s\<lparr>TeamsFile := Stored teams\<rparr>) = Inr (jsonTeams teams)"
  "readChannels (s\<lparr>ChannelsFile := Stored channels\<rparr>) = Inr (jsonChannels channels)"
  "readUsers (s\<lparr>TeamsFile := t\<rparr>) = readUsers s"
  "readUsers (s\<lparr>ChannelsFile := c\<rparr>) = readUsers s"
  "readTeams (s\<lparr>UsersFile := u\<rparr>) = readTeams s"
  "readTeams (s\<lparr>ChannelsFile := c\<rparr>) = readTeams s"
  "readChannels (s\<lparr>UsersFile := u\<rparr>) = readChannels s"
  "readChannels (s\<lparr>TeamsFile := t\<rparr>) = readChannels s"
  by (simp_all add: readUsers_def readTeams_def readChannels_def)

text \<open>The facts that evaluate the round trip of a value whose strings are ASCII.\<close>

lemma jsonMap_fixed_eval:
  "(\<forall>k v. f k = Some v \<longrightarrow> validUTF8 k \<and> enc v = v) \<Longrightarrow> jsonMap enc (GoMap f) = GoMap f"
  by (simp add: jsonMap_fixed_iff)

lemmas json_eval =
  jsonTeams_def jsonUsers_def jsonChannels_def jsonMap_fixed_eval jsonTeam_def jsonMember_def
  jsonUser_def jsonChannel_def jsonString_ascii validUTF8_ascii

text \<open>Assigning to a valid key of a map that a round trip leaves unchanged, and deleting.\<close>

lemma jsonMap_update_fixed:
  assumes "jsonMap enc (GoMap f) = GoMap f" and "validUTF8 k"
  shows "jsonMap enc (GoMap (f(k \<mapsto> v))) = GoMap (f(k \<mapsto> enc v))"
proof -
  have fixed: "\<forall>k v. f k = Some v \<longrightarrow> validUTF8 k \<and> enc v = v"
    using assms(1) by (simp add: jsonMap_fixed_iff)
  then have "\<forall>r. (f(k \<mapsto> v)) r \<noteq> None \<longrightarrow> validUTF8 r"
    using assms(2) by auto
  then have "jsonMap enc (GoMap (f(k \<mapsto> v))) = GoMap (\<lambda>r. map_option enc ((f(k \<mapsto> v)) r))"
    by (rule jsonMap_valid_keys)
  moreover have "map_option enc ((f(k \<mapsto> v)) r) = (f(k \<mapsto> enc v)) r" for r
    using fixed by (cases "f r") auto
  then have "(\<lambda>r. map_option enc ((f(k \<mapsto> v)) r)) = f(k \<mapsto> enc v)"
    by (simp only: fun_eq_iff) simp
  ultimately show ?thesis
    by (simp only:)
qed

lemma jsonMap_delete_fixed:
  assumes "jsonMap enc (GoMap f) = GoMap f"
  shows "jsonMap enc (GoMap (f(k := None))) = GoMap (f(k := None))"
  using assms by (auto simp: jsonMap_fixed_iff split: if_splits)

lemma jsonTeams_fixed:
  assumes "jsonTeams teams = teams" and "Teams teams = GoMap ts"
  shows "jsonMap jsonTeam (GoMap ts) = GoMap ts"
  using assms by (cases teams) (simp add: jsonTeams_def)

lemma jsonTeams_update_fixed:
  assumes "jsonTeams teams = teams" and "Teams teams = GoMap ts" and "validUTF8 team"
  shows "jsonTeams (teams\<lparr>Teams := GoMap (ts(team \<mapsto> t))\<rparr>)
           = teams\<lparr>Teams := GoMap (ts(team \<mapsto> jsonTeam t))\<rparr>"
  using jsonMap_update_fixed [OF jsonTeams_fixed [OF assms(1,2)] assms(3), of t]
  by (cases teams) (simp add: jsonTeams_def)

text \<open>What a loaded collection holds: valid keys, and values a round trip leaves unchanged.\<close>

lemma decoded_team:
  assumes "jsonTeams teams = teams" and "map_lookup (Teams teams) team = Some t"
  shows "validUTF8 team \<and> jsonTeam t = t"
proof -
  have "jsonMap jsonTeam (Teams teams) = Teams teams"
    using assms(1) by (cases teams) (simp add: jsonTeams_def)
  from jsonMap_fixed [OF this assms(2)] show ?thesis .
qed

lemma decoded_member:
  assumes "jsonTeam t = t" and "member \<in> set (Members t)"
  shows "jsonMember member = member"
proof -
  have "map jsonMember (Members t) = Members t"
    using assms(1) by (cases t) (simp add: jsonTeam_def)
  then have "\<forall>x \<in> set (Members t). jsonMember x = x"
    by (simp add: map_eq_conv [of jsonMember "Members t" "\<lambda>x. x", simplified])
  then show ?thesis
    using assms(2) by simp
qed

lemma decoded_member_id:
  assumes "jsonMember member = member"
  shows "validUTF8 (Member.MemberID member)" and "validUTF8 (Member.Name member)"
    and "jsonMap jsonString (Member.Channels member) = Member.Channels member"
  using assms by (cases member; simp add: jsonMember_def validUTF8_def)+

lemma lookup_jsonTeams_valid:
  assumes "\<forall>k. map_lookup (Teams written) k \<noteq> None \<longrightarrow> validUTF8 k"
  shows "map_lookup (Teams (jsonTeams written)) k
           = map_option jsonTeam (map_lookup (Teams written) k)"
proof (cases "Teams written")
  case NilMap
  then show ?thesis
    by (simp add: jsonTeams_def map_lookup_def)
next
  case (GoMap ts)
  then have "\<forall>r. ts r \<noteq> None \<longrightarrow> validUTF8 r"
    using assms by (simp add: map_lookup_def)
  from jsonMap_valid_keys [OF this] show ?thesis
    using GoMap by (simp add: jsonTeams_def map_lookup_def)
qed

lemma lookup_jsonMap_valid:
  assumes "\<forall>k. map_lookup written k \<noteq> None \<longrightarrow> validUTF8 k"
  shows "map_lookup (jsonMap enc written) k = map_option enc (map_lookup written k)"
proof (cases written)
  case NilMap
  then show ?thesis
    by (simp add: map_lookup_def)
next
  case (GoMap f)
  then have "\<forall>r. f r \<noteq> None \<longrightarrow> validUTF8 r"
    using assms by (simp add: map_lookup_def)
  from jsonMap_valid_keys [OF this] show ?thesis
    using GoMap by (simp add: map_lookup_def)
qed

lemma decoded_user:
  assumes "jsonUsers users = users" and "map_lookup users memberID = Some user"
  shows "validUTF8 memberID \<and> jsonUser user = user"
  using jsonMap_fixed [of jsonUser users memberID user] assms by (simp add: jsonUsers_def)

text \<open>
  Assigning to any key of a map that a round trip leaves unchanged: the key is written
  coerced, and the value read back under it is the one assigned unless the map held the
  coerced key already and that key is the greater one. Assigning the same once more to
  what is read back changes nothing.
\<close>

lemma lastKey_update:
  assumes "\<forall>r. f r \<noteq> None \<longrightarrow> validUTF8 r"
  shows "lastKey (f(k \<mapsto> v)) q =
           (if q = jsonString k then (if f q \<noteq> None \<and> k < q then Some q else Some k)
            else if f q = None then None else Some q)"
proof -
  have valid: "jsonString r = r" if "f r \<noteq> None" for r
    using assms that by (simp add: validUTF8_def)
  show ?thesis
  proof (cases "q = jsonString k")
    case K: True
    show ?thesis
    proof (cases "f q \<noteq> None \<and> k < q")
      case True
      have "lastKey (f(k \<mapsto> v)) q = Some q"
        unfolding lastKey_Some
      proof (intro conjI allI impI)
        show "(f(k \<mapsto> v)) q \<noteq> None"
          using True by simp
        show "jsonString q = q"
          using True valid by simp
        fix r
        assume "(f(k \<mapsto> v)) r \<noteq> None \<and> jsonString r = q"
        then show "r \<le> q"
          using True valid [of r] by (cases "r = k") auto
      qed
      then show ?thesis
        using K True by simp
    next
      case False
      have "lastKey (f(k \<mapsto> v)) q = Some k"
        unfolding lastKey_Some
      proof (intro conjI allI impI)
        show "(f(k \<mapsto> v)) k \<noteq> None"
          by simp
        show "jsonString k = q"
          using K by simp
        fix r
        assume r: "(f(k \<mapsto> v)) r \<noteq> None \<and> jsonString r = q"
        show "r \<le> k"
        proof (cases "r = k")
          case True
          then show ?thesis by simp
        next
          case False
          then have "f r \<noteq> None" "r = q"
            using r valid [of r] by auto
          then show ?thesis
            using \<open>\<not> (f q \<noteq> None \<and> k < q)\<close> by auto
        qed
      qed
      then show ?thesis
        using K False by auto
    qed
  next
    case notK: False
    show ?thesis
    proof (cases "f q")
      case None
      have "lastKey (f(k \<mapsto> v)) q = None"
        unfolding lastKey_None
      proof (intro allI impI)
        fix raw
        assume raw: "jsonString raw = q"
        show "(f(k \<mapsto> v)) raw = None"
        proof (rule ccontr)
          assume a: "(f(k \<mapsto> v)) raw \<noteq> None"
          then have "raw \<noteq> k"
            using raw notK by auto
          then have "f raw \<noteq> None"
            using a by simp
          then show False
            using valid [of raw] raw None by simp
        qed
      qed
      then show ?thesis
        using notK None by simp
    next
      case (Some y)
      have "lastKey (f(k \<mapsto> v)) q = Some q"
        unfolding lastKey_Some
      proof (intro conjI allI impI)
        show "(f(k \<mapsto> v)) q \<noteq> None"
          using Some by simp
        show "jsonString q = q"
          using Some valid by simp
        fix r
        assume "(f(k \<mapsto> v)) r \<noteq> None \<and> jsonString r = q"
        then show "r \<le> q"
          using notK valid [of r] by (cases "r = k") auto
      qed
      then show ?thesis
        using notK Some by simp
    qed
  qed
qed

lemma jsonMap_update:
  assumes "jsonMap enc (GoMap f) = GoMap f"
  shows "jsonMap enc (GoMap (f(k \<mapsto> v))) =
           GoMap (\<lambda>q. if q = jsonString k
                       then (if f q \<noteq> None \<and> k < q then f q else Some (enc v))
                       else f q)"
proof -
  have fixed: "\<forall>k v. f k = Some v \<longrightarrow> validUTF8 k \<and> enc v = v"
    using assms by (simp add: jsonMap_fixed_iff)
  then have keys: "\<forall>r. f r \<noteq> None \<longrightarrow> validUTF8 r"
    by auto
  have "(case lastKey (f(k \<mapsto> v)) q of None \<Rightarrow> None
         | Some raw \<Rightarrow> map_option enc ((f(k \<mapsto> v)) raw))
        = (if q = jsonString k
           then (if f q \<noteq> None \<and> k < q then f q else Some (enc v))
           else f q)" for q
    using fixed by (cases "f q") (auto simp: lastKey_update [OF keys] validUTF8_def)
  then show ?thesis
    by (simp add: jsonMap_def)
qed

lemma jsonMap_reassign:
  assumes "jsonMap enc (GoMap f) = GoMap f"
    and "\<And>x. enc (enc x) = enc x"
    and "jsonMap enc (GoMap (f(k \<mapsto> v))) = GoMap g"
  shows "jsonMap enc (GoMap (g(k \<mapsto> v))) = GoMap g"
proof -
  have g: "g = (\<lambda>q. if q = jsonString k
                       then (if f q \<noteq> None \<and> k < q then f q else Some (enc v))
                       else f q)"
    using jsonMap_update [OF assms(1), of k v] assms(3) by simp
  have "jsonMap enc (jsonMap enc (GoMap (f(k \<mapsto> v)))) = jsonMap enc (GoMap (f(k \<mapsto> v)))"
    by (rule jsonMap_idem) (rule assms(2))
  then have "jsonMap enc (GoMap g) = GoMap g"
    by (simp only: assms(3))
  from jsonMap_update [OF this, of k v]
  have "jsonMap enc (GoMap (g(k \<mapsto> v))) =
           GoMap (\<lambda>q. if q = jsonString k
                       then (if g q \<noteq> None \<and> k < q then g q else Some (enc v))
                       else g q)" .
  moreover have "(if q = jsonString k
                       then (if g q \<noteq> None \<and> k < q then g q else Some (enc v))
                       else g q) = g q" for q
    by (simp add: g)
  ultimately show ?thesis
    by simp
qed

section \<open>What the example stores hold\<close>

lemma read_eng_store:
  "readTeams eng_store = Inr \<lparr>Teams = GoMap [''eng'' \<mapsto> \<lparr>Members = []\<rparr>]\<rparr>"
  "readUsers eng_store = Inr (GoMap Map.empty)"
  "readChannels eng_store = Inr (GoMap [''C1'' \<mapsto> general])"
  by (simp_all add: eng_store_def general_def readTeams_def readUsers_def readChannels_def
      json_eval)

lemma read_broken_users_store:
  "readTeams broken_users_store = Inr \<lparr>Teams = GoMap [''eng'' \<mapsto> \<lparr>Members = []\<rparr>]\<rparr>"
  "readUsers broken_users_store = Inl SyntaxError"
  using read_eng_store(1) by (simp_all add: broken_users_store_def readUsers_def)

lemma read_ada_store:
  "readTeams ada_store = Inr \<lparr>Teams = GoMap [''eng'' \<mapsto>
        \<lparr>Members = [\<lparr>Member.MemberID = ''U123'', Member.Name = ''Ada L.'',
                      Member.Channels = NilMap\<rparr>]\<rparr>, ''ops'' \<mapsto> \<lparr>Members = []\<rparr>]\<rparr>"
  "readUsers ada_store = Inr (GoMap [''U123'' \<mapsto>
        \<lparr>User.MemberID = ''U123'', User.Name = ''Ada L.'', UpdatedAt = 7,
         User.Channels = GoMap [''C0'' \<mapsto> ''U123'']\<rparr>])"
  by (simp_all add: ada_store_def readTeams_def readUsers_def json_eval)

lemma read_grace_store:
  "readTeams grace_store = Inr \<lparr>Teams = GoMap [''eng'' \<mapsto>
        \<lparr>Members = [\<lparr>Member.MemberID = ''U9'', Member.Name = ''Grace Hopper'',
                      Member.Channels = GoMap Map.empty\<rparr>]\<rparr>, ''ops'' \<mapsto> \<lparr>Members = []\<rparr>]\<rparr>"
  "readUsers grace_store = Inr (GoMap [''U9'' \<mapsto>
        \<lparr>User.MemberID = ''U9'', User.Name = ''Grace Hopper'', UpdatedAt = 50,
         User.Channels = GoMap Map.empty\<rparr>])"
  by (simp_all add: grace_store_def readTeams_def readUsers_def json_eval)

lemma read_stale_store:
  "readTeams stale_store = Inr \<lparr>Teams = GoMap [''eng'' \<mapsto>
        \<lparr>Members = [\<lparr>Member.MemberID = ''U9'', Member.Name = ''Grace Hopper'',
                      Member.Channels = GoMap Map.empty\<rparr>]\<rparr>,
        ''ops'' \<mapsto>
        \<lparr>Members = [\<lparr>Member.MemberID = ''U9'', Member.Name = ''Grace'',
                      Member.Channels = GoMap Map.empty\<rparr>]\<rparr>]\<rparr>"
  "readUsers stale_store = Inr (GoMap [''U9'' \<mapsto>
        \<lparr>User.MemberID = ''U9'', User.Name = ''Grace'', UpdatedAt = 100,
         User.Channels = GoMap Map.empty\<rparr>])"
  by (simp_all add: stale_store_def readTeams_def readUsers_def json_eval)

lemma read_twin_store:
  "readTeams twin_store = Inr \<lparr>Teams = GoMap [''eng'' \<mapsto>
        \<lparr>Members = [\<lparr>Member.MemberID = ''U123'', Member.Name = ''Ada'',
                      Member.Channels = GoMap Map.empty\<rparr>]\<rparr>]\<rparr>"
  "readChannels twin_store = Inr twin_channels"
  by (simp_all add: twin_store_def twin_channels_def general_def readTeams_def readChannels_def
      json_eval)

lemma read_initial_store:
  "readTeams initial_store = Inr \<lparr>Teams = GoMap Map.empty\<rparr>"
  "readUsers initial_store = Inr (GoMap Map.empty)"
  "readChannels initial_store = Inr (GoMap Map.empty)"
  by (simp_all add: initial_store_def readTeams_def readUsers_def readChannels_def json_eval)

lemma slack_profile_ids_valid:
  "profile_ids_valid slack"
  by (simp add: profile_ids_valid_def slack_def validUTF8_ascii)

section \<open>The reconciliation loop, taken apart\<close>

lemma updateTeamMembers_mapMembers:
  "updateTeamMembers channelID memberID displayName teams
     = mapMembers (updateMember channelID memberID displayName) teams"
  by (simp add: updateTeamMembers_def mapMembers_def)

lemma mapMembers_comp:
  "mapMembers f (mapMembers g teams) = mapMembers (f \<circ> g) teams"
  by (cases "Teams teams") (auto simp: mapMembers_def fun_eq_iff option.map_comp comp_def)

lemma updateMember_id [simp]:
  "Member.MemberID (updateMember channelID memberID displayName member) = Member.MemberID member"
  by (simp add: updateMember_def)

lemma updateMember_twice [simp]:
  "updateMember channelID memberID displayName (updateMember channelID memberID displayName member)
     = updateMember channelID memberID displayName member"
  by (cases "Member.Channels member") (simp_all add: updateMember_def)

lemma updateMember_other:
  "Member.MemberID member \<noteq> memberID \<Longrightarrow>
   updateMember channelID memberID displayName member = member"
  by (simp add: updateMember_def)

lemma mapMembers_ident:
  assumes "\<And>member. f member = member"
  shows "mapMembers f teams = teams"
proof -
  have "f = (\<lambda>member. member)"
    using assms by (simp add: fun_eq_iff)
  then show ?thesis
    by (cases "Teams teams") (simp_all add: mapMembers_def option.map_ident)
qed

lemma refreshMember_Nil:
  "refreshMember e channelID [] member = member"
  by (simp add: refreshMember_def)

lemma refreshMember_Cons_skip:
  "refreshed e memberID = None \<Longrightarrow>
   refreshMember e channelID (memberID # rest) = refreshMember e channelID rest"
  by (auto simp: refreshMember_def fun_eq_iff)

lemma refreshMember_Cons_update:
  assumes "refreshed e memberID = Some displayName"
  shows "refreshMember e channelID rest \<circ> updateMember channelID memberID displayName
           = refreshMember e channelID (memberID # rest)"
proof
  fix member
  show "(refreshMember e channelID rest \<circ> updateMember channelID memberID displayName) member
          = refreshMember e channelID (memberID # rest) member"
  proof (cases "Member.MemberID member = memberID")
    case True
    then show ?thesis
      using assms by (simp add: refreshMember_def)
  next
    case False
    then show ?thesis
      by (simp add: refreshMember_def updateMember_other)
  qed
qed

lemma updateMembers_split:
  "updateMembers e channelID i members users teams
     = map_option (\<lambda>users'. (users', mapMembers (refreshMember e channelID members) teams))
         (refreshUsers e channelID i members users)"
proof (induction members arbitrary: i users teams)
  case Nil
  show ?case
    by (simp add: mapMembers_ident refreshMember_Nil)
next
  case (Cons memberID rest)
  show ?case
  proof (cases "refreshed e memberID")
    case None
    then show ?thesis
      using Cons.IH
      by (auto simp: refreshed_def refreshMember_Cons_skip split: sum.splits if_splits)
  next
    case (Some displayName)
    then obtain userInfo where ui: "GetUserInfo e memberID = Inr userInfo" "\<not> IsBot userInfo"
      "displayNameOf userInfo = displayName"
      by (auto simp: refreshed_def split: sum.splits if_splits)
    show ?thesis
      using Some ui Cons.IH
      by (auto simp: updateTeamMembers_mapMembers mapMembers_comp refreshMember_Cons_update
          split: option.splits)
  qed
qed


lemma refreshMember_twice:
  "refreshMember e channelID members (refreshMember e channelID members member)
     = refreshMember e channelID members member"
  by (simp add: refreshMember_def split: option.splits)

lemma mapMembers_refresh_twice:
  "mapMembers (refreshMember e channelID members)
     (mapMembers (refreshMember e channelID members) teams)
   = mapMembers (refreshMember e channelID members) teams"
proof -
  have "refreshMember e channelID members \<circ> refreshMember e channelID members
          = refreshMember e channelID members"
    by (simp add: fun_eq_iff refreshMember_twice)
  then show ?thesis
    by (simp add: mapMembers_comp)
qed

lemma updateUser_settles:
  assumes "updateUser now channelID memberID displayName users = Some users'"
  shows "user_settled channelID memberID displayName users'"
  using assms
  by (auto simp: updateUser_def user_settled_def map_assign_def map_lookup_def make_map_def
      Let_def split: gomap.splits option.splits)

lemma updateUser_keeps_settled:
  assumes "updateUser now channelID memberID displayName users = Some users'"
    and "user_settled channelID other name users"
    and "other \<noteq> memberID"
  shows "user_settled channelID other name users'"
  using assms
  by (auto simp: updateUser_def user_settled_def map_assign_def map_lookup_def make_map_def
      Let_def split: gomap.splits option.splits)

lemma refreshUsers_settles:
  assumes "refreshUsers e channelID i members users = Some users'"
    and "refreshed e memberID = Some displayName"
    and "memberID \<in> set members \<or> user_settled channelID memberID displayName users"
  shows "user_settled channelID memberID displayName users'"
  using assms
proof (induction members arbitrary: i users)
  case Nil
  then show ?case by simp
next
  case (Cons m rest)
  show ?case
  proof (cases "refreshed e m")
    case None
    then have "m \<noteq> memberID"
      using Cons.prems(2) by auto
    with None Cons show ?thesis by auto
  next
    case (Some d)
    then obtain users1 where u1: "updateUser (Now e i) channelID m d users = Some users1"
      and rest: "refreshUsers e channelID (Suc i) rest users1 = Some users'"
      using Cons.prems(1) by (auto split: option.splits)
    have "memberID \<in> set rest \<or> user_settled channelID memberID displayName users1"
    proof (cases "memberID = m")
      case True
      then show ?thesis
        using Some Cons.prems(2) updateUser_settles [OF u1] by simp
    next
      case False
      then show ?thesis
        using Cons.prems(3) updateUser_keeps_settled [OF u1] by auto
    qed
    then show ?thesis
      using Cons.IH [OF rest Cons.prems(2)] by simp
  qed
qed

lemma updateUser_settled_fix:
  assumes "user_settled channelID memberID displayName users"
  shows "\<exists>users'. updateUser now channelID memberID displayName users = Some users' \<and>
           forget_time users' = forget_time users \<and>
           (\<forall>other name. user_settled channelID other name users
              \<longrightarrow> user_settled channelID other name users')"
proof -
  from assms obtain us user cs where u: "users = GoMap us" "us memberID = Some user"
    "User.Name user = displayName" "User.Channels user = GoMap cs" "cs channelID = Some memberID"
    by (auto simp: user_settled_def)
  have cs: "cs(channelID \<mapsto> memberID) = cs"
    using u(5) by (simp add: map_upd_triv)
  have same: "user\<lparr>User.Name := displayName, UpdatedAt := now, User.Channels := GoMap cs\<rparr>
                = user\<lparr>UpdatedAt := now\<rparr>"
    using u(3,4) by (cases user) simp
  have upd: "updateUser now channelID memberID displayName users
               = Some (GoMap (us(memberID \<mapsto> user\<lparr>UpdatedAt := now\<rparr>)))"
    using u(1,2,4) by (simp add: updateUser_def map_lookup_def map_assign_def Let_def cs same)
  have ft: "forget_time (GoMap (us(memberID \<mapsto> user\<lparr>UpdatedAt := now\<rparr>))) = forget_time users"
    using u(1,2) by (auto simp: forget_time_def fun_eq_iff)
  have keep: "user_settled channelID other name (GoMap (us(memberID \<mapsto> user\<lparr>UpdatedAt := now\<rparr>)))"
    if "user_settled channelID other name users" for other name
    using that u(1,2) by (auto simp: user_settled_def)
  show ?thesis
    using upd ft keep by simp
qed

lemma refreshUsers_fix:
  assumes "\<forall>memberID \<in> set members. \<forall>displayName. refreshed e memberID = Some displayName
             \<longrightarrow> user_settled channelID memberID displayName users"
  shows "\<exists>users'. refreshUsers e channelID i members users = Some users' \<and>
           forget_time users' = forget_time users"
  using assms
proof (induction members arbitrary: i users)
  case Nil
  then show ?case by simp
next
  case (Cons m rest)
  show ?case
  proof (cases "refreshed e m")
    case None
    then show ?thesis
      using Cons.IH [of users "Suc i"] Cons.prems by simp
  next
    case (Some d)
    then have "user_settled channelID m d users"
      using Cons.prems by simp
    from updateUser_settled_fix [OF this, of "Now e i"]
    obtain users1 where u1: "updateUser (Now e i) channelID m d users = Some users1"
      and ft: "forget_time users1 = forget_time users"
      and keep: "\<And>other name. user_settled channelID other name users
                   \<Longrightarrow> user_settled channelID other name users1"
      by blast
    have "\<forall>memberID \<in> set rest. \<forall>displayName. refreshed e memberID = Some displayName
             \<longrightarrow> user_settled channelID memberID displayName users1"
      using Cons.prems keep by simp
    from Cons.IH [OF this, of "Suc i"] show ?thesis
      using Some u1 ft by auto
  qed
qed


lemma forget_time_eq_GoMap:
  "(forget_time (GoMap a) = forget_time (GoMap b))
     = (\<forall>k. map_option (\<lambda>user. user\<lparr>UpdatedAt := 0\<rparr>) (a k)
            = map_option (\<lambda>user. user\<lparr>UpdatedAt := 0\<rparr>) (b k))"
  by (simp add: forget_time_def fun_eq_iff)

lemma forget_time_eq_cases:
  assumes "forget_time users = forget_time users2"
  obtains "users = NilMap" "users2 = NilMap"
  | a b where "users = GoMap a" "users2 = GoMap b"
      "\<And>k. map_option (\<lambda>user. user\<lparr>UpdatedAt := 0\<rparr>) (a k)
            = map_option (\<lambda>user. user\<lparr>UpdatedAt := 0\<rparr>) (b k)"
  using assms
  by (cases users; cases users2) (auto simp: forget_time_def fun_eq_iff)

lemma updateUser_modulo_time:
  assumes "forget_time users = forget_time users2"
  shows "rel_option (\<lambda>a b. forget_time a = forget_time b)
           (updateUser now channelID memberID displayName users)
           (updateUser now2 channelID memberID displayName users2)"
  using assms
proof (cases rule: forget_time_eq_cases)
  case 1
  then show ?thesis
    by (simp add: updateUser_def map_lookup_def map_assign_def make_map_def Let_def)
next
  case (2 a b)
  show ?thesis
  proof (cases "a memberID")
    case None
    then have "b memberID = None"
      using 2(3) [of memberID] by simp
    with None 2 show ?thesis
      by (simp add: updateUser_def map_lookup_def map_assign_def make_map_def Let_def
          forget_time_eq_GoMap)
  next
    case (Some user)
    then obtain user2 where b: "b memberID = Some user2"
      and eq: "user\<lparr>UpdatedAt := 0\<rparr> = user2\<lparr>UpdatedAt := 0\<rparr>"
      using 2(3) [of memberID] by (cases "b memberID") auto
    obtain mid nm at cs where user: "user = \<lparr>User.MemberID = mid, User.Name = nm,
        UpdatedAt = at, User.Channels = cs\<rparr>"
      by (cases user) simp
    obtain at2 where user2: "user2 = \<lparr>User.MemberID = mid, User.Name = nm,
        UpdatedAt = at2, User.Channels = cs\<rparr>"
      using eq user by (cases user2) simp
    show ?thesis
      using Some b 2
      by (cases cs)
         (simp_all add: user user2 updateUser_def map_lookup_def map_assign_def Let_def
            forget_time_eq_GoMap)
  qed
qed

lemma refreshUsers_modulo_time:
  assumes "forget_time users = forget_time users2"
    and "refreshed e2 = refreshed e"
  shows "rel_option (\<lambda>a b. forget_time a = forget_time b)
           (refreshUsers e channelID i members users)
           (refreshUsers e2 channelID j members users2)"
  using assms(1)
proof (induction members arbitrary: i j users users2)
  case Nil
  then show ?case by simp
next
  case (Cons m rest)
  show ?case
  proof (cases "refreshed e m")
    case None
    then show ?thesis
      using Cons assms(2) by simp
  next
    case (Some d)
    from updateUser_modulo_time [OF Cons.prems, of "Now e i" channelID m d "Now e2 j"]
    show ?thesis
      using Some assms(2) Cons.IH
      by (cases "updateUser (Now e i) channelID m d users";
          cases "updateUser (Now e2 j) channelID m d users2") simp_all
  qed
qed

lemma visitTeams_NilMap:
  "Teams teams = NilMap \<Longrightarrow> visitTeams channelID memberID displayName ks teams = teams"
  by (induction ks) (simp_all add: map_lookup_def)

lemma visitTeams_GoMap:
  assumes "Teams teams = GoMap ts" and "distinct ks"
  shows "visitTeams channelID memberID displayName ks teams =
           teams\<lparr>Teams := GoMap (\<lambda>k. if k \<in> set ks
              then map_option (\<lambda>team. team\<lparr>Members :=
                     map (updateMember channelID memberID displayName) (Members team)\<rparr>) (ts k)
              else ts k)\<rparr>"
  using assms
proof (induction ks arbitrary: teams ts)
  case Nil
  then show ?case by simp
next
  case (Cons teamName ks)
  let ?f = "\<lambda>team. team\<lparr>Members :=
              map (updateMember channelID memberID displayName) (Members team)\<rparr>"
  show ?case
  proof (cases "ts teamName")
    case None
    then have "visitTeams channelID memberID displayName (teamName # ks) teams
                 = visitTeams channelID memberID displayName ks teams"
      using Cons.prems(1) by (simp add: map_lookup_def)
    also have "\<dots> = teams\<lparr>Teams := GoMap (\<lambda>k. if k \<in> set ks then map_option ?f (ts k) else ts k)\<rparr>"
      using Cons.IH [OF Cons.prems(1)] Cons.prems(2) by simp
    also have "(\<lambda>k. if k \<in> set ks then map_option ?f (ts k) else ts k)
                 = (\<lambda>k. if k \<in> set (teamName # ks) then map_option ?f (ts k) else ts k)"
      using None by (auto simp: fun_eq_iff)
    finally show ?thesis .
  next
    case (Some team)
    let ?ts1 = "ts(teamName \<mapsto> ?f team)"
    have "visitTeams channelID memberID displayName (teamName # ks) teams
                 = visitTeams channelID memberID displayName ks (teams\<lparr>Teams := GoMap ?ts1\<rparr>)"
      using Cons.prems(1) Some by (simp add: map_lookup_def)
    also have "\<dots> = (teams\<lparr>Teams := GoMap ?ts1\<rparr>)
                 \<lparr>Teams := GoMap (\<lambda>k. if k \<in> set ks then map_option ?f (?ts1 k) else ?ts1 k)\<rparr>"
    proof (rule Cons.IH)
      show "Teams (teams\<lparr>Teams := GoMap ?ts1\<rparr>) = GoMap ?ts1"
        by simp
      show "distinct ks"
        using Cons.prems(2) by simp
    qed
    also have "\<dots> = teams\<lparr>Teams := GoMap (\<lambda>k. if k \<in> set ks then map_option ?f (?ts1 k) else ?ts1 k)\<rparr>"
      by simp
    also have "(\<lambda>k. if k \<in> set ks then map_option ?f (?ts1 k) else ?ts1 k)
                 = (\<lambda>k. if k \<in> set (teamName # ks) then map_option ?f (ts k) else ts k)"
      using Some Cons.prems(2) by (auto simp: fun_eq_iff)
    finally show ?thesis .
  qed
qed

lemma visitTeams_any_order:
  assumes "range_order (Teams teams) ks"
  shows "visitTeams channelID memberID displayName ks teams
           = updateTeamMembers channelID memberID displayName teams"
proof (cases "Teams teams")
  case NilMap
  then show ?thesis
    by (simp add: visitTeams_NilMap updateTeamMembers_def)
next
  case (GoMap ts)
  then have d: "distinct ks" and s: "set ks = dom ts"
    using assms by (simp_all add: range_order_def)
  have "(\<lambda>k. if k \<in> set ks
              then map_option (\<lambda>team. team\<lparr>Members :=
                     map (updateMember channelID memberID displayName) (Members team)\<rparr>) (ts k)
              else ts k)
        = (\<lambda>k. map_option (\<lambda>team. team\<lparr>Members :=
                     map (updateMember channelID memberID displayName) (Members team)\<rparr>) (ts k))"
    using s by (auto simp: fun_eq_iff dom_def)
  then show ?thesis
    using GoMap by (simp add: visitTeams_GoMap [OF GoMap d] updateTeamMembers_def)
qed

section \<open>How a pass ends\<close>

lemma refreshed_clock [simp]:
  "refreshed (e\<lparr>Now := clock\<rparr>) = refreshed e"
  by (simp add: refreshed_def fun_eq_iff)

lemma refreshMember_clock [simp]:
  "refreshMember (e\<lparr>Now := clock\<rparr>) = refreshMember e"
  by (simp add: refreshMember_def fun_eq_iff)

lemma pass_aborted:
  assumes "(\<exists>err. readUsers s = Inl err) \<or> (\<exists>err. readTeams s = Inl err) \<or>
           (\<exists>err. GetUsersInConversation e channelID = Inl err)"
  shows "updateUserInfoForChannel e s channelID = (Aborted, s)"
  using assms
  by (auto simp: updateUserInfoForChannel_def split: sum.splits)

lemma pass_crashed:
  assumes "readUsers s = Inr users" and "readTeams s = Inr teams"
    and "GetUsersInConversation e channelID = Inr members"
    and "refreshUsers e channelID 0 members users = None"
  shows "updateUserInfoForChannel e s channelID = (Crashed, s)"
  using assms
  by (simp add: updateUserInfoForChannel_def updateMembers_split)

lemma pass_finished:
  assumes "readUsers s = Inr users" and "readTeams s = Inr teams"
    and "GetUsersInConversation e channelID = Inr members"
    and "refreshUsers e channelID 0 members users = Some users'"
  shows "updateUserInfoForChannel e s channelID =
           (Finished (UsersWritable e) (TeamsWritable e),
            s\<lparr>UsersFile := (if UsersWritable e then Stored (jsonUsers users') else UsersFile s),
              TeamsFile := (if TeamsWritable e
                            then Stored (jsonTeams
                                   (mapMembers (refreshMember e channelID members) teams))
                            else TeamsFile s)\<rparr>)"
  using assms
  by (simp add: updateUserInfoForChannel_def updateMembers_split writeUsers_def writeTeams_def)

lemma pass_finished_inv:
  assumes "updateUserInfoForChannel e s channelID = (Finished usersSaved teamsSaved, s')"
  obtains users teams members users' where
    "readUsers s = Inr users" "readTeams s = Inr teams"
    "GetUsersInConversation e channelID = Inr members"
    "refreshUsers e channelID 0 members users = Some users'"
    "UsersWritable e = usersSaved" "TeamsWritable e = teamsSaved"
    "s' = s\<lparr>UsersFile := (if UsersWritable e then Stored (jsonUsers users') else UsersFile s),
             TeamsFile := (if TeamsWritable e
                           then Stored (jsonTeams
                                  (mapMembers (refreshMember e channelID members) teams))
                           else TeamsFile s)\<rparr>"
proof (cases "readUsers s")
  case (Inl err)
  then show ?thesis
    using assms by (simp add: pass_aborted)
next
  case ru: (Inr users)
  show ?thesis
  proof (cases "readTeams s")
    case (Inl err)
    then show ?thesis
      using assms by (simp add: pass_aborted)
  next
    case rt: (Inr teams)
    show ?thesis
    proof (cases "GetUsersInConversation e channelID")
      case (Inl err)
      then show ?thesis
        using assms by (simp add: pass_aborted)
    next
      case g: (Inr members)
      show ?thesis
      proof (cases "refreshUsers e channelID 0 members users")
        case None
        then show ?thesis
          using assms by (simp add: pass_crashed [OF ru rt g])
      next
        case (Some users')
        from assms pass_finished [OF ru rt g Some]
        have "UsersWritable e = usersSaved" "TeamsWritable e = teamsSaved"
          "s' = s\<lparr>UsersFile := (if UsersWritable e then Stored (jsonUsers users') else UsersFile s),
             TeamsFile := (if TeamsWritable e
                           then Stored (jsonTeams
                                  (mapMembers (refreshMember e channelID members) teams))
                           else TeamsFile s)\<rparr>"
          by auto
        then show ?thesis
          by (rule that [OF ru rt g Some])
      qed
    qed
  qed
qed


section \<open>Names and membership through a pass\<close>

lemma lookup_mapMembers:
  "map_lookup (Teams (mapMembers f teams)) teamName
     = map_option (\<lambda>team. team\<lparr>Members := map f (Members team)\<rparr>)
         (map_lookup (Teams teams) teamName)"
  by (cases "Teams teams") (simp_all add: mapMembers_def map_lookup_def)

lemma refreshMember_id [simp]:
  "Member.MemberID (refreshMember e channelID members member) = Member.MemberID member"
  by (simp add: refreshMember_def split: option.splits)

lemma membership_mapMembers:
  assumes "\<And>member. Member.MemberID (f member) = Member.MemberID member"
  shows "membership (mapMembers f teams) = membership teams"
  using assms
  by (auto simp: membership_def lookup_mapMembers fun_eq_iff option.map_comp comp_def)

lemma updateMember_name:
  "Member.MemberID member = memberID \<Longrightarrow>
   Member.Name (updateMember channelID memberID displayName member) = displayName"
  by (simp add: updateMember_def)

lemma updateUser_lookup:
  assumes "updateUser now channelID memberID displayName users = Some users'"
  shows "(\<exists>user. map_lookup users' memberID = Some user \<and> User.Name user = displayName) \<and>
         (\<forall>other. other \<noteq> memberID \<longrightarrow> map_lookup users' other = map_lookup users other)"
  using assms
  by (auto simp: updateUser_def map_assign_def map_lookup_def make_map_def
      Let_def split: gomap.splits option.splits)

lemma updateUser_names_agree:
  assumes "names_agree users teams"
    and "updateUser now channelID memberID displayName users = Some users'"
  shows "names_agree users' (mapMembers (updateMember channelID memberID displayName) teams)"
  unfolding names_agree_def
proof (intro allI impI, elim conjE)
  fix teamName team member user
  assume t: "map_lookup (Teams (mapMembers (updateMember channelID memberID displayName) teams))
               teamName = Some team"
    and m: "member \<in> set (Members team)"
    and u: "map_lookup users' (Member.MemberID member) = Some user"
  from t obtain team0 where t0: "map_lookup (Teams teams) teamName = Some team0"
    and team: "Members team = map (updateMember channelID memberID displayName) (Members team0)"
    by (auto simp: lookup_mapMembers)
  from m team obtain member0 where m0: "member0 \<in> set (Members team0)"
    and member: "member = updateMember channelID memberID displayName member0"
    by auto
  show "Member.Name member = User.Name user"
  proof (cases "Member.MemberID member0 = memberID")
    case True
    then show ?thesis
      using u member updateUser_lookup [OF assms(2)] by (auto simp: updateMember_name)
  next
    case False
    then have "map_lookup users (Member.MemberID member0) = Some user"
      using u member updateUser_lookup [OF assms(2)] by (simp add: updateMember_other)
    then show ?thesis
      using assms(1) t0 m0 False member
      by (auto simp: names_agree_def updateMember_other)
  qed
qed

lemma updateMembers_names_agree:
  assumes "updateMembers e channelID i members users teams = Some (users', teams')"
    and "names_agree users teams"
  shows "names_agree users' teams'"
  using assms
proof (induction members arbitrary: i users teams)
  case Nil
  then show ?case by simp
next
  case (Cons m rest)
  show ?case
  proof (cases "refreshed e m")
    case None
    then have "updateMembers e channelID (Suc i) rest users teams = Some (users', teams')"
      using Cons.prems(1) by (auto simp: refreshed_def split: sum.splits if_splits)
    then show ?thesis
      using Cons.IH Cons.prems(2) by blast
  next
    case (Some d)
    then obtain users1 where u1: "updateUser (Now e i) channelID m d users = Some users1"
      and rest: "updateMembers e channelID (Suc i) rest users1
                   (mapMembers (updateMember channelID m d) teams) = Some (users', teams')"
      using Cons.prems(1)
      by (auto simp: refreshed_def updateTeamMembers_mapMembers
          split: sum.splits if_splits option.splits)
    show ?thesis
      using Cons.IH [OF rest updateUser_names_agree [OF Cons.prems(2) u1]] .
  qed
qed

lemma refreshed_member_named:
  assumes "map_lookup (Teams (mapMembers (refreshMember e channelID members) teams)) teamName
             = Some team"
    and "member \<in> set (Members team)"
    and "Member.MemberID member \<in> set members"
    and "refreshed e (Member.MemberID member) = Some displayName"
  shows "Member.Name member = displayName"
proof -
  from assms(1) obtain team0 :: Team where
    team: "Members team = map (refreshMember e channelID members) (Members team0)"
    by (auto simp: lookup_mapMembers)
  with assms(2) obtain member0 where
    member: "member = refreshMember e channelID members member0"
    by auto
  then have "Member.MemberID member0 = Member.MemberID member"
    by simp
  then show ?thesis
    using assms(3,4) member by (simp add: refreshMember_def updateMember_name)
qed

text \<open>The loop over the members leaves the users it does not refresh as they were.\<close>

lemma refreshUsers_other:
  assumes "refreshUsers e channelID i members users = Some users'"
    and "\<not> (memberID \<in> set members \<and> refreshed e memberID \<noteq> None)"
  shows "map_lookup users' memberID = map_lookup users memberID"
  using assms
proof (induction members arbitrary: i users)
  case Nil
  then show ?case by simp
next
  case (Cons m rest)
  show ?case
  proof (cases "refreshed e m")
    case None
    then show ?thesis
      using Cons by auto
  next
    case (Some d)
    then obtain users1 where u1: "updateUser (Now e i) channelID m d users = Some users1"
      and rest: "refreshUsers e channelID (Suc i) rest users1 = Some users'"
      using Cons.prems(1) by (auto split: option.splits)
    have "memberID \<noteq> m"
      using Some Cons.prems(2) by auto
    then have "map_lookup users1 memberID = map_lookup users memberID"
      using updateUser_lookup [OF u1] by simp
    moreover have "\<not> (memberID \<in> set rest \<and> refreshed e memberID \<noteq> None)"
      using Cons.prems(2) by auto
    then have "map_lookup users' memberID = map_lookup users1 memberID"
      by (rule Cons.IH [OF rest])
    ultimately show ?thesis
      by simp
  qed
qed

lemma refreshMember_other:
  "\<not> (Member.MemberID member \<in> set members \<and> refreshed e (Member.MemberID member) \<noteq> None)
   \<Longrightarrow> refreshMember e channelID members member = member"
  by (auto simp: refreshMember_def)

section \<open>The commands, case by case\<close>


text \<open>What a successful \<^verbatim>\<open>add\<close> has done before it registers the user.\<close>

lemma handleAdd_success:
  assumes "response (handleAdd e s (team # memberID # rest)) = Success message"
  obtains teams ts t userInfo where
    "readTeams s = Inr teams" "Teams teams = GoMap ts" "ts team = Some t"
    "\<forall>member \<in> set (Members t). Member.MemberID member \<noteq> memberID"
    "GetUserInfo e memberID = Inr userInfo" "TeamsWritable e"
    "handleAdd e s (team # memberID # rest) =
       registerUser e
         (s\<lparr>TeamsFile := Stored (jsonTeams (teams\<lparr>Teams := GoMap (ts(team \<mapsto>
            t\<lparr>Members := Members t @
              [\<lparr>Member.MemberID = memberID, Member.Name = displayNameOf userInfo,
                Member.Channels = GoMap Map.empty\<rparr>]\<rparr>))\<rparr>))\<rparr>)
         [CallGetUserInfo memberID] team memberID (displayNameOf userInfo)"
proof (cases "readTeams s")
  case (Inl err)
  then show ?thesis
    using assms by (simp add: handleAdd_def responseError_def)
next
  case (Inr teams)
  show ?thesis
  proof (cases "Teams teams")
    case NilMap
    then show ?thesis
      using assms Inr by (simp add: handleAdd_def responseError_def map_lookup_def)
  next
    case (GoMap ts)
    show ?thesis
    proof (cases "ts team")
      case None
      then show ?thesis
        using assms Inr GoMap by (simp add: handleAdd_def responseError_def map_lookup_def)
    next
      case (Some t)
      have fresh: "\<forall>member \<in> set (Members t). Member.MemberID member \<noteq> memberID"
      proof (rule ccontr)
        assume "\<not> (\<forall>member \<in> set (Members t). Member.MemberID member \<noteq> memberID)"
        then have "\<exists>member \<in> set (Members t). Member.MemberID member = memberID"
          by blast
        then show False
          using assms Inr GoMap Some
          by (simp add: handleAdd_def responseError_def map_lookup_def Let_def)
      qed
      show ?thesis
      proof (cases "GetUserInfo e memberID")
        case (Inl err)
        then show ?thesis
          using assms Inr GoMap Some fresh
          by (simp add: handleAdd_def responseError_def map_lookup_def Let_def)
      next
        case ui: (Inr userInfo)
        have w: "TeamsWritable e"
          using assms Inr GoMap Some fresh ui
          by (auto simp: handleAdd_def responseError_def map_lookup_def map_assign_def Let_def
              writeTeams_def split: if_splits)
        have "handleAdd e s (team # memberID # rest) =
               registerUser e
                 (s\<lparr>TeamsFile := Stored (jsonTeams (teams\<lparr>Teams := GoMap (ts(team \<mapsto>
                    t\<lparr>Members := Members t @
                      [\<lparr>Member.MemberID = memberID, Member.Name = displayNameOf userInfo,
                        Member.Channels = GoMap Map.empty\<rparr>]\<rparr>))\<rparr>))\<rparr>)
                 [CallGetUserInfo memberID] team memberID (displayNameOf userInfo)"
          using Inr GoMap Some fresh ui w
          by (simp add: handleAdd_def map_lookup_def map_assign_def Let_def writeTeams_def
              make_map_def)
        then show ?thesis
          by (rule that [OF Inr GoMap Some fresh ui w])
      qed
    qed
  qed
qed


lemma registerUser_response:
  "response (registerUser e s cs team memberID displayName) = Success message \<Longrightarrow>
   message = ''Added user '' @ displayName @ '' ('' @ memberID @ '') to team ''
               @ quoted team @ ''.''"
  by (auto simp: registerUser_def writeUsers_def responseSuccess_def panics_def
      map_assign_def Let_def split: sum.splits gomap.splits if_splits)



section \<open>Unique member ids, command by command\<close>

















text \<open>The teams a pass writes, as they are loaded afterwards.\<close>

lemma lookup_written_teams:
  assumes "jsonTeams teams = teams"
  shows "map_lookup (Teams (jsonTeams (mapMembers f teams))) k
           = map_option (\<lambda>team. \<lparr>Members = map (\<lambda>member. jsonMember (f member)) (Members team)\<rparr>)
               (map_lookup (Teams teams) k)"
proof -
  have "\<forall>k. map_lookup (Teams (mapMembers f teams)) k \<noteq> None \<longrightarrow> validUTF8 k"
    using decoded_team [OF assms] by (auto simp: lookup_mapMembers)
  from lookup_jsonTeams_valid [OF this] show ?thesis
    by (simp add: lookup_mapMembers option.map_comp comp_def jsonTeam_def)
qed

lemma lookup_pass_teams:
  assumes "readTeams s = Inr teams"
  shows "map_lookup (Teams (jsonTeams (mapMembers f teams))) k
           = map_option (\<lambda>team. \<lparr>Members = map (\<lambda>member. jsonMember (f member)) (Members team)\<rparr>)
               (map_lookup (Teams teams) k)"
  by (rule lookup_written_teams [OF read_decoded(1) [OF assms]])








section \<open>The scan for a channel name\<close>

lemma findChannelID_find:
  "findChannelID channels ks channelName =
     (case find (\<lambda>k. \<exists>channel. map_lookup channels k = Some channel \<and>
                        Channel.Name channel = channelName) ks of
        None \<Rightarrow> ''''
      | Some k \<Rightarrow> k)"
  by (induction ks) (auto split: option.splits)

section \<open>A second pass over the same channel\<close>

lemma gomap_eqI:
  assumes "m = NilMap \<longleftrightarrow> m' = NilMap" and "\<And>k. map_lookup m k = map_lookup m' k"
  shows "m = m'"
  using assms by (cases m; cases m') (auto simp: map_lookup_def fun_eq_iff)

lemma jsonMap_Nil_iff [simp]:
  "jsonMap enc m = NilMap \<longleftrightarrow> m = NilMap"
  by (cases m) (simp_all add: jsonMap_def)

lemma updateMember_json_twice:
  assumes "jsonMember member = member" and "validUTF8 memberID"
  shows "jsonMember (updateMember channelID memberID displayName
            (jsonMember (updateMember channelID memberID displayName member)))
         = jsonMember (updateMember channelID memberID displayName member)"
proof (cases "Member.MemberID member = memberID")
  case False
  then show ?thesis
    using assms(1) by (simp add: updateMember_other)
next
  case True
  define cs where "cs = (case Member.Channels member of NilMap \<Rightarrow> Map.empty | GoMap f \<Rightarrow> f)"
  have fixed: "jsonMap jsonString (GoMap cs) = GoMap cs"
    using decoded_member_id(3) [OF assms(1)]
    by (cases "Member.Channels member") (simp_all add: cs_def)
  have m1: "updateMember channelID memberID displayName member
              = member\<lparr>Member.Name := displayName,
                       Member.Channels := GoMap (cs(channelID \<mapsto> memberID))\<rparr>"
    using True by (cases "Member.Channels member") (simp_all add: updateMember_def cs_def)
  obtain g where g: "jsonMap jsonString (GoMap (cs(channelID \<mapsto> memberID))) = GoMap g"
    by (simp add: jsonMap_def)
  have again: "jsonMap jsonString (GoMap (g(channelID \<mapsto> memberID))) = GoMap g"
    by (rule jsonMap_reassign [OF fixed _ g]) simp
  have id: "jsonString memberID = memberID"
    using assms(2) by (simp add: validUTF8_def)
  have j1: "jsonMember (updateMember channelID memberID displayName member)
              = \<lparr>Member.MemberID = memberID, Member.Name = jsonString displayName,
                 Member.Channels = GoMap g\<rparr>"
    using True id g by (simp add: m1 jsonMember_def)
  have u2: "updateMember channelID memberID displayName
              \<lparr>Member.MemberID = memberID, Member.Name = jsonString displayName,
               Member.Channels = GoMap g\<rparr>
            = \<lparr>Member.MemberID = memberID, Member.Name = displayName,
               Member.Channels = GoMap (g(channelID \<mapsto> memberID))\<rparr>"
    by (simp add: updateMember_def)
  have j2: "jsonMember \<lparr>Member.MemberID = memberID, Member.Name = displayName,
               Member.Channels = GoMap (g(channelID \<mapsto> memberID))\<rparr>
            = \<lparr>Member.MemberID = memberID, Member.Name = jsonString displayName,
               Member.Channels = GoMap g\<rparr>"
    using id again by (simp add: jsonMember_def)
  show ?thesis
    unfolding j1 u2 j2 ..
qed

lemma refreshMember_json_twice:
  assumes "jsonMember member = member"
  shows "jsonMember (refreshMember e channelID members
            (jsonMember (refreshMember e channelID members member)))
         = jsonMember (refreshMember e channelID members member)"
proof -
  have v: "validUTF8 (Member.MemberID member)"
    by (rule decoded_member_id(1) [OF assms])
  then have id: "Member.MemberID (jsonMember (refreshMember e channelID members member))
               = Member.MemberID member"
    by (simp add: jsonMember_def validUTF8_def)
  show ?thesis
  proof (cases "Member.MemberID member \<in> set members \<and>
                refreshed e (Member.MemberID member) \<noteq> None")
    case False
    then show ?thesis
      using assms by (auto simp: refreshMember_def)
  next
    case True
    then obtain d where d: "refreshed e (Member.MemberID member) = Some d"
      by auto
    have r1: "refreshMember e channelID members member
                = updateMember channelID (Member.MemberID member) d member"
      using True d by (simp add: refreshMember_def)
    have r2: "refreshMember e channelID members
                (jsonMember (updateMember channelID (Member.MemberID member) d member))
              = updateMember channelID (Member.MemberID member) d
                  (jsonMember (updateMember channelID (Member.MemberID member) d member))"
      using True d id by (simp add: refreshMember_def r1)
    show ?thesis
      unfolding r1 r2 by (rule updateMember_json_twice [OF assms v])
  qed
qed

lemma pass_teams_twice:
  assumes "jsonTeams teams = teams"
  shows "jsonTeams (mapMembers (refreshMember e channelID members)
            (jsonTeams (mapMembers (refreshMember e channelID members) teams)))
         = jsonTeams (mapMembers (refreshMember e channelID members) teams)"
proof -
  let ?f = "refreshMember e channelID members"
  let ?t1 = "jsonTeams (mapMembers ?f teams)"
  have t1: "jsonTeams ?t1 = ?t1"
    by simp
  have l: "map_lookup (Teams (jsonTeams (mapMembers ?f ?t1))) k = map_lookup (Teams ?t1) k" for k
  proof (cases "map_lookup (Teams teams) k")
    case None
    then show ?thesis
      by (simp add: lookup_written_teams [OF t1] lookup_written_teams [OF assms])
  next
    case (Some team)
    have "jsonTeam team = team"
      using decoded_team [OF assms Some] by simp
    then have "jsonMember (?f (jsonMember (?f member))) = jsonMember (?f member)"
      if "member \<in> set (Members team)" for member
      using refreshMember_json_twice [OF decoded_member [OF _ that]] by simp
    then show ?thesis
      using Some
      by (simp add: lookup_written_teams [OF t1] lookup_written_teams [OF assms] comp_def)
  qed
  have n: "Teams (jsonTeams (mapMembers ?f ?t1)) = NilMap \<longleftrightarrow> Teams ?t1 = NilMap"
    by (cases "Teams teams") (simp_all add: jsonTeams_def mapMembers_def jsonMap_def)
  have "Teams (jsonTeams (mapMembers ?f ?t1)) = Teams ?t1"
    by (rule gomap_eqI [OF n l])
  then show ?thesis
    by (simp add: jsonTeams_def)
qed

text \<open>
  The users after the loop, in closed form, and the users a second pass over what the
  first one wrote leaves: the same up to the timestamps, also when member ids the
  platform lists are not valid UTF-8 and are written as the key of another entry.
\<close>

lemma updateUser_closed:
  assumes "updateUser now channelID memberID displayName (GoMap us) = Some users1"
  shows "\<exists>user. users1 = GoMap (us(memberID \<mapsto> user)) \<and>
           user\<lparr>UpdatedAt := 0\<rparr> = refreshedUser channelID memberID displayName (us memberID) \<and>
           refreshedUser channelID memberID displayName (Some user)
             = refreshedUser channelID memberID displayName (us memberID) \<and>
           User.Channels user \<noteq> NilMap"
proof (cases "us memberID")
  case None
  then show ?thesis
    using assms
    by (auto simp: updateUser_def refreshedUser_def map_lookup_def map_assign_def make_map_def
        Let_def)
next
  case (Some old)
  obtain mid nm at cs where old: "old = \<lparr>User.MemberID = mid, User.Name = nm,
        UpdatedAt = at, User.Channels = cs\<rparr>"
    by (cases old) simp
  show ?thesis
    using assms Some
    by (cases cs)
       (auto simp: old updateUser_def refreshedUser_def map_lookup_def map_assign_def Let_def)
qed

lemma refreshedUsers_Nil:
  "GoMap (refreshedUsers e channelID [] us) = forget_time (GoMap us)"
  by (simp add: refreshedUsers_def forget_time_def)

lemma refreshUsers_closed:
  assumes "refreshUsers e channelID i members (GoMap us) = Some users'"
  shows "forget_time users' = GoMap (refreshedUsers e channelID members us)"
  using assms
proof (induction members arbitrary: i us)
  case Nil
  then show ?case
    by (simp add: refreshedUsers_Nil)
next
  case (Cons m rest)
  show ?case
  proof (cases "refreshed e m")
    case None
    then have "refreshUsers e channelID (Suc i) rest (GoMap us) = Some users'"
      using Cons.prems by simp
    from Cons.IH [OF this] have "forget_time users' = GoMap (refreshedUsers e channelID rest us)" .
    moreover have "refreshedUsers e channelID rest us = refreshedUsers e channelID (m # rest) us"
      using None by (auto simp: refreshedUsers_def fun_eq_iff)
    ultimately show ?thesis
      by simp
  next
    case (Some d)
    then obtain users1 where u1: "updateUser (Now e i) channelID m d (GoMap us) = Some users1"
      and rest: "refreshUsers e channelID (Suc i) rest users1 = Some users'"
      using Cons.prems by (auto split: option.splits)
    from updateUser_closed [OF u1] obtain user where
      users1: "users1 = GoMap (us(m \<mapsto> user))"
      and t0: "user\<lparr>UpdatedAt := 0\<rparr> = refreshedUser channelID m d (us m)"
      and again: "refreshedUser channelID m d (Some user) = refreshedUser channelID m d (us m)"
      by blast
    have "forget_time users' = GoMap (refreshedUsers e channelID rest (us(m \<mapsto> user)))"
      by (rule Cons.IH [OF rest [unfolded users1]])
    moreover have "refreshedUsers e channelID rest (us(m \<mapsto> user)) k
                     = refreshedUsers e channelID (m # rest) us k" for k
      using Some t0 again
      by (cases "k = m") (auto simp: refreshedUsers_def split: option.splits)
    ultimately show ?thesis
      by (simp add: fun_eq_iff)
  qed
qed


lemma refreshedUser_json_twice:
  assumes "old = None \<or> (\<exists>x. old = Some x \<and> jsonUser x = x)" and "jsonString k = k"
  shows "jsonUser (refreshedUser channelID k d (Some (jsonUser (refreshedUser channelID k d old))))
           = jsonUser (refreshedUser channelID k d old)"
proof (cases old)
  case None
  obtain g where g: "jsonMap jsonString (GoMap [channelID \<mapsto> k]) = GoMap g"
    by (simp add: jsonMap_def)
  have "jsonMap jsonString (GoMap (Map.empty :: string \<rightharpoonup> string)) = GoMap Map.empty"
    by simp
  from jsonMap_reassign [OF this _ g]
  have again: "jsonMap jsonString (GoMap (g(channelID \<mapsto> k))) = GoMap g"
    by simp
  show ?thesis
    using None assms(2) g again by (simp add: refreshedUser_def jsonUser_def)
next
  case (Some x)
  then have fx: "jsonUser x = x"
    using assms(1) by simp
  obtain mid nm at cs where x: "x = \<lparr>User.MemberID = mid, User.Name = nm,
        UpdatedAt = at, User.Channels = cs\<rparr>"
    by (cases x) simp
  have mid: "jsonString mid = mid" and cs: "jsonMap jsonString cs = cs"
    using fx by (simp_all add: x jsonUser_def)
  show ?thesis
  proof (cases cs)
    case NilMap
    then show ?thesis
      using Some mid by (simp add: x refreshedUser_def jsonUser_def)
  next
    case (GoMap c)
    obtain g where g: "jsonMap jsonString (GoMap (c(channelID \<mapsto> k))) = GoMap g"
      by (simp add: jsonMap_def)
    have "jsonMap jsonString (GoMap c) = GoMap c"
      using cs GoMap by simp
    from jsonMap_reassign [OF this _ g]
    have again: "jsonMap jsonString (GoMap (g(channelID \<mapsto> k))) = GoMap g"
      by simp
    show ?thesis
      using Some GoMap mid g again by (simp add: x refreshedUser_def jsonUser_def)
  qed
qed

lemma refreshedUsers_twice:
  assumes fixed: "jsonMap jsonUser (GoMap us) = GoMap us"
    and G: "jsonMap jsonUser (GoMap (refreshedUsers e channelID members us)) = GoMap G"
  shows "jsonMap jsonUser (GoMap (refreshedUsers e channelID members G)) = GoMap G"
proof -
  let ?Y = "refreshedUsers e channelID members us"
  let ?Z = "refreshedUsers e channelID members G"
  define I where "I = (\<lambda>k. k \<in> set members \<and> refreshed e k \<noteq> None)"
  have us_valid: "jsonString k = k \<and> jsonUser x = x" if "us k = Some x" for k x
    using fixed that by (auto simp: jsonMap_fixed_iff validUTF8_def)
  have Gq: "G q = (case lastKey ?Y q of None \<Rightarrow> None | Some w \<Rightarrow> map_option jsonUser (?Y w))"
    for q
    using G by (auto simp: jsonMap_def fun_eq_iff)
  have G_valid: "jsonString q = q" if "G q \<noteq> None" for q
    using jsonMap_keys_valid [of jsonUser "GoMap ?Y" q] that G
    by (simp add: map_lookup_def validUTF8_def)
  have I_d: "\<exists>d. refreshed e k = Some d \<and>
               (\<forall>f. refreshedUsers e channelID members f k
                      = Some (refreshedUser channelID k d (f k)))" if "I k" for k
    using that by (auto simp: I_def refreshedUsers_def)
  have not_I: "refreshedUsers e channelID members f k
                 = map_option (\<lambda>user. user\<lparr>UpdatedAt := 0\<rparr>) (f k)" if "\<not> I k" for k f
    using that by (auto simp: I_def refreshedUsers_def)
  have I_dom: "refreshedUsers e channelID members f k \<noteq> None" if "I k" for k f
    using I_d [OF that] by auto
  have goal: "(case lastKey ?Z q of None \<Rightarrow> None | Some w \<Rightarrow> map_option jsonUser (?Z w)) = G q"
    for q
  proof (cases "lastKey ?Y q")
    case None
    then have noY: "?Y r = None" if "jsonString r = q" for r
      using that by (simp add: lastKey_None)
    have Gn: "G q = None"
      using None by (simp add: Gq)
    have "lastKey ?Z q = None"
      unfolding lastKey_None
    proof (intro allI impI)
      fix r
      assume r: "jsonString r = q"
      show "?Z r = None"
      proof (cases "I r")
        case True
        then show ?thesis
          using noY [OF r] I_dom [OF True, of us] by simp
      next
        case False
        have "G r = None"
        proof (rule ccontr)
          assume a: "G r \<noteq> None"
          then have "r = q"
            using G_valid [OF a] r by simp
          then show False
            using a Gn by simp
        qed
        then show ?thesis
          using False by (simp add: not_I)
      qed
    qed
    then show ?thesis
      using Gn by simp
  next
    case (Some w)
    then have w: "?Y w \<noteq> None" "jsonString w = q"
      and wmax: "\<And>r. ?Y r \<noteq> None \<Longrightarrow> jsonString r = q \<Longrightarrow> r \<le> w"
      by (simp_all add: lastKey_Some)
    obtain yw where yw: "?Y w = Some yw"
      using w(1) by auto
    have Gw: "G q = Some (jsonUser yw)"
      using Some yw by (simp add: Gq)
    have q: "jsonString q = q"
      using G_valid [of q] Gw by simp
    have Ipre: "r \<le> w" if "I r" "jsonString r = q" for r
      using wmax [of r] I_dom [OF that(1), of us] that(2) by simp
    have Gpre: "r = q" if "G r \<noteq> None" "jsonString r = q" for r
      using G_valid [OF that(1)] that(2) by simp
    have Zdom: "I r \<or> G r \<noteq> None" if "?Z r \<noteq> None" for r
      using that not_I [of r G] by (cases "I r") auto
    show ?thesis
    proof (cases "w = q")
      case True
      have l: "lastKey ?Z q = Some q"
        unfolding lastKey_Some
      proof (intro conjI allI impI)
        show "?Z q \<noteq> None"
          using Gw I_dom [of q G] not_I [of q G] by (cases "I q") auto
        show "jsonString q = q"
          by (rule q)
        fix r
        assume r: "?Z r \<noteq> None \<and> jsonString r = q"
        then show "r \<le> q"
          using Zdom [of r] Ipre [of r] Gpre [of r] True by auto
      qed
      have v: "map_option jsonUser (?Z q) = Some (jsonUser yw)"
      proof (cases "I q")
        case Iq: True
        from I_d [OF Iq] obtain d where
          Yq: "?Y q = Some (refreshedUser channelID q d (us q))"
          and Zq: "?Z q = Some (refreshedUser channelID q d (G q))"
          by blast
        have ywq: "yw = refreshedUser channelID q d (us q)"
          using yw Yq True by simp
        have "us q = None \<or> (\<exists>x. us q = Some x \<and> jsonUser x = x)"
          using us_valid [of q] by (cases "us q") auto
        from refreshedUser_json_twice [OF this q, of channelID d]
        show ?thesis
          by (simp add: Zq Gw ywq)
      next
        case nIq: False
        then obtain x where "us q = Some x" and ywx: "yw = x\<lparr>UpdatedAt := 0\<rparr>"
          using yw True by (auto simp: not_I)
        have "?Z q = Some ((jsonUser yw)\<lparr>UpdatedAt := 0\<rparr>)"
          using nIq Gw by (simp add: not_I)
        then show ?thesis
          by (simp add: ywx jsonUser_def)
      qed
      show ?thesis
        using l v Gw by simp
    next
      case False
      then have inv: "jsonString w \<noteq> w"
        using w(2) by auto
      have usw: "us w = None"
        using us_valid [of w] inv by (cases "us w") auto
      have Iw: "I w"
      proof (rule ccontr)
        assume "\<not> I w"
        then have "?Y w = None"
          using usw by (simp add: not_I)
        then show False
          using w(1) by simp
      qed
      from I_d [OF Iw] obtain d where
        Yw: "?Y w = Some (refreshedUser channelID w d (us w))"
        and Zw: "?Z w = Some (refreshedUser channelID w d (G w))"
        by blast
      have ywd: "yw = refreshedUser channelID w d None"
        using yw Yw usw by simp
      have Gw_none: "G w = None"
        using G_valid [of w] inv by (cases "G w") simp_all
      show ?thesis
      proof (cases "q < w")
        case True
        have l: "lastKey ?Z q = Some w"
          unfolding lastKey_Some
        proof (intro conjI allI impI)
          show "?Z w \<noteq> None"
            by (simp add: Zw)
          show "jsonString w = q"
            by (rule w(2))
          fix r
          assume r: "?Z r \<noteq> None \<and> jsonString r = q"
          then show "r \<le> w"
            using Zdom [of r] Ipre [of r] Gpre [of r] True by auto
        qed
        show ?thesis
          using l Gw by (simp add: Zw Gw_none ywd)
      next
        case nlt: False
        then have lt: "w < q"
          using False by auto
        have qY: "?Y q = None"
        proof (rule ccontr)
          assume "?Y q \<noteq> None"
          then have "q \<le> w"
            using wmax [of q] q by simp
          then show False
            using lt by simp
        qed
        then have nIq: "\<not> I q"
          using I_dom [of q us] by auto
        have Zq: "?Z q = Some ((jsonUser yw)\<lparr>UpdatedAt := 0\<rparr>)"
          using nIq Gw by (simp add: not_I)
        have l: "lastKey ?Z q = Some q"
          unfolding lastKey_Some
        proof (intro conjI allI impI)
          show "?Z q \<noteq> None"
            by (simp add: Zq)
          show "jsonString q = q"
            by (rule q)
          fix r
          assume r: "?Z r \<noteq> None \<and> jsonString r = q"
          then show "r \<le> q"
            using Zdom [of r] Ipre [of r] Gpre [of r] lt by auto
        qed
        show ?thesis
          using l Gw by (simp add: Zq ywd refreshedUser_def jsonUser_def)
      qed
    qed
  qed
  show ?thesis
    by (simp add: jsonMap_def goal)
qed


lemma lastKey_map_option:
  "lastKey (\<lambda>k. map_option h (f k)) = lastKey f"
  by (simp add: lastKey_def fun_eq_iff)

lemma forget_time_jsonUsers:
  "forget_time (jsonUsers users) = jsonUsers (forget_time users)"
proof (cases users)
  case NilMap
  then show ?thesis
    by (simp add: jsonUsers_def forget_time_def)
next
  case (GoMap us)
  have "map_option (\<lambda>user. user\<lparr>UpdatedAt := 0\<rparr>)
          (case lastKey us k of None \<Rightarrow> None | Some raw \<Rightarrow> map_option jsonUser (us raw))
        = (case lastKey us k of None \<Rightarrow> None
           | Some raw \<Rightarrow> map_option jsonUser (map_option (\<lambda>user. user\<lparr>UpdatedAt := 0\<rparr>) (us raw)))"
    for k
    by (auto simp: jsonUser_def option.map_comp comp_def split: option.splits)
  then show ?thesis
    using GoMap by (simp add: jsonUsers_def forget_time_def jsonMap_def lastKey_map_option)
qed

lemma refreshedUser_time:
  "refreshedUser channelID k d (map_option (\<lambda>user. user\<lparr>UpdatedAt := 0\<rparr>) old)
     = refreshedUser channelID k d old"
  by (cases old) (simp_all add: refreshedUser_def)

lemma refreshedUsers_time:
  "refreshedUsers e channelID members (\<lambda>k. map_option (\<lambda>user. user\<lparr>UpdatedAt := 0\<rparr>) (g k))
     = refreshedUsers e channelID members g"
  by (auto simp: refreshedUsers_def fun_eq_iff refreshedUser_time option.map_comp comp_def
      split: option.splits)

lemma refreshedUsers_env:
  "refreshed e2 = refreshed e \<Longrightarrow>
   refreshedUsers e2 channelID members = refreshedUsers e channelID members"
  by (simp add: refreshedUsers_def fun_eq_iff)

lemma refreshUsers_NilMap:
  assumes "refreshUsers e channelID i members NilMap = Some users'"
  shows "users' = NilMap \<and> (\<forall>m \<in> set members. refreshed e m = None)"
  using assms
proof (induction members arbitrary: i)
  case Nil
  then show ?case by simp
next
  case (Cons m rest)
  show ?case
  proof (cases "refreshed e m")
    case None
    then show ?thesis
      using Cons by auto
  next
    case (Some d)
    then show ?thesis
      using Cons.prems
      by (simp add: updateUser_def map_lookup_def map_assign_def make_map_def Let_def)
  qed
qed

lemma refreshUsers_skips:
  "\<forall>m \<in> set members. refreshed e m = None \<Longrightarrow>
   refreshUsers e channelID i members users = Some users"
  by (induction members arbitrary: i) simp_all

lemma refreshUsers_total:
  assumes "\<forall>k d x. k \<in> set members \<and> refreshed e k = Some d \<and> us k = Some x
             \<longrightarrow> User.Channels x \<noteq> NilMap"
  shows "\<exists>users'. refreshUsers e channelID i members (GoMap us) = Some users'"
  using assms
proof (induction members arbitrary: i us)
  case Nil
  then show ?case by simp
next
  case (Cons m rest)
  show ?case
  proof (cases "refreshed e m")
    case None
    have "\<forall>k d x. k \<in> set rest \<and> refreshed e k = Some d \<and> us k = Some x
             \<longrightarrow> User.Channels x \<noteq> NilMap"
      using Cons.prems by auto
    from Cons.IH [OF this, of "Suc i"] show ?thesis
      using None by simp
  next
    case (Some d)
    have "\<exists>users1. updateUser (Now e i) channelID m d (GoMap us) = Some users1"
    proof (cases "us m")
      case None
      then show ?thesis
        by (simp add: updateUser_def map_lookup_def map_assign_def make_map_def Let_def)
    next
      case (Some x)
      then have "User.Channels x \<noteq> NilMap"
        using Cons.prems \<open>refreshed e m = Some d\<close> by auto
      then show ?thesis
        using Some
        by (cases "User.Channels x")
           (simp_all add: updateUser_def map_lookup_def map_assign_def Let_def)
    qed
    then obtain users1 where u1: "updateUser (Now e i) channelID m d (GoMap us) = Some users1"
      by blast
    from updateUser_closed [OF u1] obtain user where
      users1: "users1 = GoMap (us(m \<mapsto> user))" and c: "User.Channels user \<noteq> NilMap"
      by blast
    have "\<forall>k d x. k \<in> set rest \<and> refreshed e k = Some d \<and> (us(m \<mapsto> user)) k = Some x
             \<longrightarrow> User.Channels x \<noteq> NilMap"
      using Cons.prems c by auto
    from Cons.IH [of "us(m \<mapsto> user)" "Suc i", OF this]
    obtain users' where "refreshUsers e channelID (Suc i) rest users1 = Some users'"
      unfolding users1 by blast
    then show ?thesis
      using Some u1 by simp
  qed
qed

lemma pass_users_twice:
  assumes fixed: "jsonUsers users = users"
    and run1: "refreshUsers e channelID i members users = Some users1"
    and same: "refreshed e2 = refreshed e"
  shows "\<exists>users2. refreshUsers e2 channelID j members (jsonUsers users1) = Some users2 \<and>
           forget_time (jsonUsers users2) = forget_time (jsonUsers users1)"
proof (cases users)
  case NilMap
  then have "users1 = NilMap" and "\<forall>m \<in> set members. refreshed e2 m = None"
    using refreshUsers_NilMap [of e channelID i members users1] run1 same by simp_all
  then show ?thesis
    using refreshUsers_skips [of members e2 channelID j NilMap] by (simp add: jsonUsers_def)
next
  case (GoMap us)
  let ?Y = "refreshedUsers e channelID members us"
  have fus: "jsonMap jsonUser (GoMap us) = GoMap us"
    using fixed GoMap by (simp add: jsonUsers_def)
  have closed1: "forget_time users1 = GoMap ?Y"
    using refreshUsers_closed run1 GoMap by simp
  then obtain y where y: "users1 = GoMap y"
    by (cases users1) (simp_all add: forget_time_def)
  obtain g where g: "jsonUsers users1 = GoMap g"
    using y by (simp add: jsonUsers_def jsonMap_def)
  define G where "G = (\<lambda>k. map_option (\<lambda>user. user\<lparr>UpdatedAt := 0\<rparr>) (g k))"
  have G: "jsonMap jsonUser (GoMap ?Y) = GoMap G"
    using forget_time_jsonUsers [of users1] closed1 g
    by (simp add: G_def forget_time_def jsonUsers_def)
  have channels: "User.Channels x \<noteq> NilMap"
    if "k \<in> set members" "refreshed e2 k = Some d" "g k = Some x" for k d x
  proof -
    from that(3) have "map_lookup (jsonMap jsonUser users1) k = Some x"
      using g by (simp add: jsonUsers_def map_lookup_def)
    then obtain w yw where w: "map_lookup users1 w = Some yw" "x = jsonUser yw" "jsonString w = k"
      by (auto simp: jsonMap_lookup)
    have "User.Channels yw \<noteq> NilMap"
    proof (cases "w \<in> set members \<and> refreshed e w \<noteq> None")
      case True
      then obtain dw where "refreshed e w = Some dw"
        by auto
      with True have "user_settled channelID w dw users1"
        using refreshUsers_settles [OF run1] by simp
      then show ?thesis
        using w(1) by (auto simp: user_settled_def map_lookup_def)
    next
      case False
      then have "map_lookup users w = Some yw"
        using refreshUsers_other [OF run1 False] w(1) by simp
      then have "jsonString w = w"
        using decoded_user [OF fixed] by (auto simp: validUTF8_def)
      then have "w = k"
        using w(3) by simp
      then show ?thesis
        using False that(1,2) same by simp
    qed
    then show ?thesis
      by (cases "User.Channels yw") (simp_all add: w(2) jsonUser_def jsonMap_def)
  qed
  then have "\<forall>k d x. k \<in> set members \<and> refreshed e2 k = Some d \<and> g k = Some x
             \<longrightarrow> User.Channels x \<noteq> NilMap"
    by blast
  from refreshUsers_total [OF this, of channelID j]
  obtain users2 where run2: "refreshUsers e2 channelID j members (GoMap g) = Some users2"
    by blast
  have "forget_time users2 = GoMap (refreshedUsers e2 channelID members g)"
    by (rule refreshUsers_closed [OF run2])
  also have "\<dots> = GoMap (refreshedUsers e channelID members G)"
    by (simp add: refreshedUsers_env [OF same] G_def refreshedUsers_time)
  finally have closed2: "forget_time users2 = GoMap (refreshedUsers e channelID members G)" .
  have "forget_time (jsonUsers users2) = jsonUsers (forget_time users2)"
    by (rule forget_time_jsonUsers)
  also have "\<dots> = jsonMap jsonUser (GoMap (refreshedUsers e channelID members G))"
    unfolding closed2 by (simp add: jsonUsers_def)
  also have "\<dots> = GoMap G"
    by (rule refreshedUsers_twice [OF fus G])
  also have "\<dots> = forget_time (jsonUsers users1)"
    by (simp add: g G_def forget_time_def)
  finally show ?thesis
    using run2 g by auto
qed

section \<open>Loading a collection\<close>

text \<open>
  C7. For each of the three collections, load returns the empty initialised value (for
  the teams a \<^verbatim>\<open>Teams\<close> whose map is empty, for the users and the channels an empty
  map), without error, when the file is absent; it returns what the document of the file
  decodes to when the file holds one; and it fails exactly when the file exists but cannot
  be read or cannot be parsed.
\<close>

theorem load_absent_is_empty_and_fails_only_on_bad_file:
  "(TeamsFile s = NotExist \<longrightarrow> readTeams s = Inr \<lparr>Teams = GoMap Map.empty\<rparr>) \<and>
   (UsersFile s = NotExist \<longrightarrow> readUsers s = Inr (GoMap Map.empty)) \<and>
   (ChannelsFile s = NotExist \<longrightarrow> readChannels s = Inr (GoMap Map.empty)) \<and>
   (\<forall>teams. TeamsFile s = Stored teams \<longrightarrow> readTeams s = Inr (jsonTeams teams)) \<and>
   (\<forall>users. UsersFile s = Stored users \<longrightarrow> readUsers s = Inr (jsonUsers users)) \<and>
   (\<forall>channels. ChannelsFile s = Stored channels
      \<longrightarrow> readChannels s = Inr (jsonChannels channels)) \<and>
   ((\<exists>err. readTeams s = Inl err) = (TeamsFile s = Unreadable \<or> TeamsFile s = Malformed)) \<and>
   ((\<exists>err. readUsers s = Inl err) = (UsersFile s = Unreadable \<or> UsersFile s = Malformed)) \<and>
   ((\<exists>err. readChannels s = Inl err)
      = (ChannelsFile s = Unreadable \<or> ChannelsFile s = Malformed))"
proof -
  have t: "(\<exists>err. readTeams s = Inl err) = (TeamsFile s = Unreadable \<or> TeamsFile s = Malformed)"
    by (cases "TeamsFile s") (simp_all add: readTeams_def)
  have u: "(\<exists>err. readUsers s = Inl err) = (UsersFile s = Unreadable \<or> UsersFile s = Malformed)"
    by (cases "UsersFile s") (simp_all add: readUsers_def)
  have c: "(\<exists>err. readChannels s = Inl err)
             = (ChannelsFile s = Unreadable \<or> ChannelsFile s = Malformed)"
    by (cases "ChannelsFile s") (simp_all add: readChannels_def)
  show ?thesis
    using t u c by (simp add: readTeams_def readUsers_def readChannels_def make_map_def)
qed

theorem load_fresh_store:
  "readTeams fresh_store = Inr \<lparr>Teams = GoMap Map.empty\<rparr> \<and>
   (\<exists>err. readUsers fresh_store = Inl err) \<and>
   readChannels fresh_store = Inr (GoMap Map.empty)"
  using load_absent_is_empty_and_fails_only_on_bad_file [of fresh_store]
  by (simp add: fresh_store_def)

section \<open>Ping\<close>

text \<open>
  C5. For every team that exists in the store and has no member, and every channel name,
  \<^verbatim>\<open>ping\<close> answers with an error text and calls nothing of the platform (so no message
  is sent) and leaves the store as it was; when the channel is tracked (its name resolves
  to an id) the error is the one about the team having no members.
\<close>

theorem ping_empty_team_sends_nothing:
  assumes "readTeams s = Inr teams"
    and "map_lookup (Teams teams) team = Some t"
    and "Members t = []"
  shows "(\<exists>message. response (handlePing e s (team # channelName # rest)) = Error message) \<and>
         calls (handlePing e s (team # channelName # rest)) = [] \<and>
         after (handlePing e s (team # channelName # rest)) = s \<and>
         (\<forall>channels. readChannels s = Inr channels \<and>
              findChannelID channels (rangeChannels e) channelName \<noteq> '''' \<longrightarrow>
            response (handlePing e s (team # channelName # rest))
              = Error (''No members of team '' @ quoted team @ '' found.''))"
  using assms
  by (auto simp: handlePing_def responseError_def Let_def split: sum.splits)

text \<open>Pinging the empty team \<^verbatim>\<open>eng\<close> in the tracked channel \<^verbatim>\<open>general\<close>.\<close>

theorem ping_empty_eng:
  "response (handlePing slack eng_store [''eng'', ''general''])
     = Error (''No members of team '' @ quoted ''eng'' @ '' found.'') \<and>
   calls (handlePing slack eng_store [''eng'', ''general'']) = []"
proof -
  have t: "map_lookup (Teams \<lparr>Teams = GoMap [''eng'' \<mapsto> \<lparr>Members = []\<rparr>]\<rparr>) ''eng''
             = Some \<lparr>Members = []\<rparr>"
    by (simp add: map_lookup_def)
  have m: "Members \<lparr>Members = []\<rparr> = []"
    by simp
  from ping_empty_team_sends_nothing [OF read_eng_store(1) t m, of slack "''general''" "[]"]
  show ?thesis
    by (simp add: read_eng_store slack_def general_def map_lookup_def)
qed

section \<open>Adding a channel that is tracked\<close>

text \<open>
  C6. For every channel id present in the Channels collection, \<^verbatim>\<open>add-channel\<close> invoked
  from that channel (the request carries the id and the name of the channel it comes
  from, both non-empty) answers with the "already being tracked" error, calls nothing of
  the platform, so it does not join the channel, and leaves the store, and so the
  persisted Channels collection, unchanged.
\<close>

theorem add_channel_already_tracked:
  assumes "readChannels s = Inr channels" and "map_lookup channels channelID \<noteq> None"
    and "channelID \<noteq> ''''" and "channelName \<noteq> ''''"
  shows "response (handleAddChannel e s args channelID channelName)
           = Error (''Channel #'' @ channelName @ '' is already being tracked.'') \<and>
         calls (handleAddChannel e s args channelID channelName) = [] \<and>
         after (handleAddChannel e s args channelID channelName) = s"
  using assms
  by (simp add: handleAddChannel_def responseError_def)

text \<open>Adding the tracked channel \<^verbatim>\<open>C1\<close> again, from the channel itself.\<close>

theorem add_channel_general_again:
  "response (handleAddChannel slack eng_store [] ''C1'' ''general'')
     = Error ''Channel #general is already being tracked.'' \<and>
   calls (handleAddChannel slack eng_store [] ''C1'' ''general'') = [] \<and>
   after (handleAddChannel slack eng_store [] ''C1'' ''general'') = eng_store"
proof -
  have t: "map_lookup (GoMap [''C1'' \<mapsto> general]) ''C1'' \<noteq> None"
    by (simp add: map_lookup_def)
  from add_channel_already_tracked [OF read_eng_store(3) t, of "''general''" slack "[]"]
  show ?thesis
    by simp
qed

section \<open>Adding a member\<close>

text \<open>
  C10. When \<^verbatim>\<open>add\<close> gets as far as writing the teams file and that write succeeds (the
  team exists, the member is not in it, the profile is fetched, the file is written), and
  then the users file cannot be loaded, or is loaded and cannot be written, the command
  still answers with the success text "Added user ... to team ...", the teams file holds
  the document written for the team with the new member, and the users file is left as it
  was, without the new or updated entry.
\<close>

theorem add_succeeds_when_users_fail:
  assumes "readTeams s = Inr teams"
    and "Teams teams = GoMap ts"
    and "ts team = Some t"
    and "\<forall>member \<in> set (Members t). Member.MemberID member \<noteq> memberID"
    and "GetUserInfo e memberID = Inr userInfo"
    and "TeamsWritable e"
    and "UsersFile s = Unreadable \<or> UsersFile s = Malformed \<or>
         ((\<exists>users. readUsers s = Inr (GoMap users)) \<and> \<not> UsersWritable e)"
  shows "response (handleAdd e s (team # memberID # rest))
           = Success (''Added user '' @ displayNameOf userInfo @ '' ('' @ memberID
                        @ '') to team '' @ quoted team @ ''.'') \<and>
         UsersFile (after (handleAdd e s (team # memberID # rest))) = UsersFile s \<and>
         TeamsFile (after (handleAdd e s (team # memberID # rest)))
           = Stored (jsonTeams (teams\<lparr>Teams := GoMap (ts(team \<mapsto> t\<lparr>Members := Members t @
               [\<lparr>Member.MemberID = memberID, Member.Name = displayNameOf userInfo,
                 Member.Channels = GoMap Map.empty\<rparr>]\<rparr>))\<rparr>))"
  using assms
  by (auto simp: handleAdd_def registerUser_def readUsers_def writeTeams_def
      writeUsers_def responseSuccess_def Let_def map_lookup_def map_assign_def make_map_def
      split: gomap.splits jsonfile.splits)

text \<open>Adding \<^verbatim>\<open>U123\<close> to \<^verbatim>\<open>eng\<close> while the users file cannot be parsed.\<close>

theorem add_with_broken_users_file:
  "response (handleAdd slack broken_users_store [''eng'', ''U123''])
     = Success (''Added user Ada (U123) to team '' @ quoted ''eng'' @ ''.'') \<and>
   UsersFile (after (handleAdd slack broken_users_store [''eng'', ''U123''])) = Malformed"
proof -
  have ts: "Teams \<lparr>Teams = GoMap [''eng'' \<mapsto> \<lparr>Members = []\<rparr>]\<rparr>
              = GoMap [''eng'' \<mapsto> \<lparr>Members = []\<rparr>]"
    and tm: "[''eng'' \<mapsto> \<lparr>Members = []\<rparr>] ''eng'' = Some \<lparr>Members = []\<rparr>"
    and f: "\<forall>member \<in> set (Members \<lparr>Members = []\<rparr>). Member.MemberID member \<noteq> ''U123''"
    by simp_all
  have g: "GetUserInfo slack ''U123'' = Inr ada" and w: "TeamsWritable slack"
    by (simp_all add: slack_def)
  have u: "UsersFile broken_users_store = Unreadable \<or> UsersFile broken_users_store = Malformed \<or>
         ((\<exists>users. readUsers broken_users_store = Inr (GoMap users)) \<and> \<not> UsersWritable slack)"
    by (simp add: broken_users_store_def)
  from add_succeeds_when_users_fail [OF read_broken_users_store(1) ts tm f g w u, of "[]"]
  show ?thesis
    by (simp add: broken_users_store_def ada_def displayNameOf_def)
qed

text \<open>
  C9. When \<^verbatim>\<open>add\<close> succeeds, the Users collection holds an entry for the member id, and
  the users file is written, that entry is replaced as a whole: the new entry carries the
  display name just fetched (as the encoder writes it) and the current time, and its
  channels are an empty mapping, whatever channels the old entry recorded. The other
  entries stay.
\<close>

theorem add_resets_registered_user:
  assumes "response (handleAdd e s (team # memberID # rest)) = Success message"
    and "readUsers s = Inr (GoMap users)"
    and "users memberID = Some old"
    and "UsersWritable e"
  shows "\<exists>userInfo. GetUserInfo e memberID = Inr userInfo \<and>
           UsersFile (after (handleAdd e s (team # memberID # rest)))
             = Stored (GoMap (users(memberID \<mapsto>
                 \<lparr>User.MemberID = memberID, User.Name = jsonString (displayNameOf userInfo),
                  UpdatedAt = Now e 0, User.Channels = GoMap Map.empty\<rparr>)))"
proof -
  from assms(1) obtain teams ts t userInfo where
    ui: "GetUserInfo e memberID = Inr userInfo"
    and add: "handleAdd e s (team # memberID # rest) =
       registerUser e
         (s\<lparr>TeamsFile := Stored (jsonTeams (teams\<lparr>Teams := GoMap (ts(team \<mapsto>
            t\<lparr>Members := Members t @
              [\<lparr>Member.MemberID = memberID, Member.Name = displayNameOf userInfo,
                Member.Channels = GoMap Map.empty\<rparr>]\<rparr>))\<rparr>))\<rparr>)
         [CallGetUserInfo memberID] team memberID (displayNameOf userInfo)"
    by (rule handleAdd_success)
  have fixed: "jsonMap jsonUser (GoMap users) = GoMap users"
    using read_decoded(2) [OF assms(2)] by (simp add: jsonUsers_def)
  then have valid: "validUTF8 memberID"
    using jsonMap_fixed [of jsonUser "GoMap users" memberID old] assms(3)
    by (simp add: map_lookup_def)
  have "jsonUsers (GoMap (users(memberID \<mapsto>
          \<lparr>User.MemberID = memberID, User.Name = displayNameOf userInfo,
           UpdatedAt = Now e 0, User.Channels = GoMap Map.empty\<rparr>)))
        = GoMap (users(memberID \<mapsto>
          \<lparr>User.MemberID = memberID, User.Name = jsonString (displayNameOf userInfo),
           UpdatedAt = Now e 0, User.Channels = GoMap Map.empty\<rparr>))"
    using valid jsonMap_update_fixed [OF fixed valid]
    by (simp add: jsonUsers_def jsonUser_def validUTF8_def)
  then have "UsersFile (after (handleAdd e s (team # memberID # rest)))
             = Stored (GoMap (users(memberID \<mapsto>
                 \<lparr>User.MemberID = memberID, User.Name = jsonString (displayNameOf userInfo),
                  UpdatedAt = Now e 0, User.Channels = GoMap Map.empty\<rparr>)))"
    using assms(2,4)
    by (simp add: add registerUser_def writeUsers_def responseSuccess_def Let_def
        map_assign_def make_map_def)
  then show ?thesis
    using ui by blast
qed

text \<open>
  Adding the registered user \<^verbatim>\<open>U123\<close> to the team \<^verbatim>\<open>ops\<close>: the entry loses the channel
  \<^verbatim>\<open>C0\<close> it recorded.
\<close>

theorem add_resets_ada:
  "response (handleAdd slack ada_store [''ops'', ''U123''])
     = Success (''Added user Ada (U123) to team '' @ quoted ''ops'' @ ''.'') \<and>
   UsersFile (after (handleAdd slack ada_store [''ops'', ''U123'']))
     = Stored (GoMap [''U123'' \<mapsto>
         \<lparr>User.MemberID = ''U123'', User.Name = ''Ada'', UpdatedAt = 100,
          User.Channels = GoMap Map.empty\<rparr>])"
proof -
  have r: "response (handleAdd slack ada_store [''ops'', ''U123''])
             = Success (''Added user Ada (U123) to team '' @ quoted ''ops'' @ ''.'')"
    by (simp add: handleAdd_def registerUser_def read_ada_store writeTeams_def
        writeUsers_def responseSuccess_def Let_def map_lookup_def map_assign_def make_map_def
        slack_def ada_def displayNameOf_def)
  have o: "[''U123'' \<mapsto>
        \<lparr>User.MemberID = ''U123'', User.Name = ''Ada L.'', UpdatedAt = 7,
         User.Channels = GoMap [''C0'' \<mapsto> ''U123'']\<rparr>] ''U123''
      = Some \<lparr>User.MemberID = ''U123'', User.Name = ''Ada L.'', UpdatedAt = 7,
         User.Channels = GoMap [''C0'' \<mapsto> ''U123'']\<rparr>"
    by simp
  have w: "UsersWritable slack"
    by (simp add: slack_def)
  from add_resets_registered_user [OF r read_ada_store(2) o w]
  have "UsersFile (after (handleAdd slack ada_store [''ops'', ''U123'']))
          = Stored (GoMap ([''U123'' \<mapsto>
              \<lparr>User.MemberID = ''U123'', User.Name = ''Ada L.'', UpdatedAt = 7,
               User.Channels = GoMap [''C0'' \<mapsto> ''U123'']\<rparr>](''U123'' \<mapsto>
              \<lparr>User.MemberID = ''U123'', User.Name = ''Ada'', UpdatedAt = 100,
               User.Channels = GoMap Map.empty\<rparr>)))"
    by (auto simp: slack_def ada_def displayNameOf_def jsonString_ascii)
  then show ?thesis
    using r by simp
qed



section \<open>Resolving a channel name\<close>

text \<open>
  C4, as amended. The resolution of a channel name used by \<^verbatim>\<open>ping\<close> and
  \<^verbatim>\<open>remove-channel\<close> scans the Channels collection in the order in which the map yields
  its entries, compares the stored name for equality with the given name, and returns the
  key of the first match in that order (the empty id when nothing matches). What it
  returns, when not empty, is the id of a tracked channel with that name. The scan is
  deterministic when at most one tracked channel has the name: every iteration order then
  gives the same id.
\<close>

theorem channel_resolution_first_match:
  assumes "range_order channels ks"
  shows "findChannelID channels ks channelName =
           (case find (\<lambda>k. \<exists>channel. map_lookup channels k = Some channel \<and>
                        Channel.Name channel = channelName) ks of
              None \<Rightarrow> ''''
            | Some k \<Rightarrow> k) \<and>
         (findChannelID channels ks channelName \<noteq> '''' \<longrightarrow>
            (\<exists>channel. map_lookup channels (findChannelID channels ks channelName) = Some channel \<and>
               Channel.Name channel = channelName)) \<and>
         ((\<forall>k channel. map_lookup channels k = Some channel
              \<longrightarrow> Channel.Name channel \<noteq> channelName)
            \<longrightarrow> findChannelID channels ks channelName = '''') \<and>
         (\<forall>ks'. range_order channels ks' \<and>
            (\<forall>k k' channel channel'.
               map_lookup channels k = Some channel \<and> Channel.Name channel = channelName \<and>
               map_lookup channels k' = Some channel' \<and> Channel.Name channel' = channelName
               \<longrightarrow> k = k')
            \<longrightarrow> findChannelID channels ks' channelName = findChannelID channels ks channelName)"
proof -
  define P where "P = (\<lambda>k. \<exists>channel. map_lookup channels k = Some channel \<and>
                        Channel.Name channel = channelName)"
  have scan: "findChannelID channels l channelName
                = (case find P l of None \<Rightarrow> '''' | Some k \<Rightarrow> k)" for l
    unfolding P_def by (rule findChannelID_find)
  have found: "P k \<and> k \<in> set l" if "find P l = Some k" for l k
    using that by (induction l) (auto split: if_splits)
  have a: "findChannelID channels ks channelName \<noteq> '''' \<longrightarrow>
            P (findChannelID channels ks channelName)"
    using found [of ks] by (cases "find P ks") (simp_all add: scan)
  have b: "(\<forall>k. \<not> P k) \<longrightarrow> findChannelID channels ks channelName = ''''"
    using found [of ks] by (cases "find P ks") (auto simp: scan)
  have c: "findChannelID channels ks' channelName = findChannelID channels ks channelName"
    if o: "range_order channels ks'" and u: "\<forall>k k'. P k \<and> P k' \<longrightarrow> k = k'" for ks'
  proof -
    have same: "set ks' = set ks"
      using o assms by (simp add: range_order_def)
    show ?thesis
    proof (cases "find P ks")
      case None
      then have "\<not> (\<exists>k. k \<in> set ks \<and> P k)"
        by (metis find_None_iff)
      then have "\<not> (\<exists>k. k \<in> set ks' \<and> P k)"
        using same by blast
      then have "find P ks' = None"
        by (metis find_None_iff)
      with None show ?thesis
        by (simp add: scan)
    next
      case (Some k)
      then have k: "P k" "k \<in> set ks'"
        using found [of ks k] same by blast+
      then have "find P ks' \<noteq> None"
        by (metis find_None_iff)
      then obtain k' where k': "find P ks' = Some k'"
        by blast
      then have "P k'"
        using found [of ks' k'] by blast
      then have "k' = k"
        using k(1) u by blast
      with Some k' show ?thesis
        by (simp add: scan)
    qed
  qed
  have u: "(\<forall>k k' channel channel'.
               map_lookup channels k = Some channel \<and> Channel.Name channel = channelName \<and>
               map_lookup channels k' = Some channel' \<and> Channel.Name channel' = channelName
               \<longrightarrow> k = k') \<Longrightarrow> \<forall>k k'. P k \<and> P k' \<longrightarrow> k = k'"
    unfolding P_def by blast
  have n: "(\<forall>k channel. map_lookup channels k = Some channel
              \<longrightarrow> Channel.Name channel \<noteq> channelName) \<Longrightarrow> \<forall>k. \<not> P k"
    unfolding P_def by blast
  show ?thesis
  proof (intro conjI allI impI)
    show "findChannelID channels ks channelName =
           (case find (\<lambda>k. \<exists>channel. map_lookup channels k = Some channel \<and>
                        Channel.Name channel = channelName) ks of
              None \<Rightarrow> ''''
            | Some k \<Rightarrow> k)"
      by (rule findChannelID_find)
  next
    assume "findChannelID channels ks channelName \<noteq> ''''"
    with a show "\<exists>channel. map_lookup channels (findChannelID channels ks channelName)
                    = Some channel \<and> Channel.Name channel = channelName"
      unfolding P_def by blast
  next
    assume "\<forall>k channel. map_lookup channels k = Some channel
              \<longrightarrow> Channel.Name channel \<noteq> channelName"
    from n [OF this] b show "findChannelID channels ks channelName = ''''"
      by blast
  next
    fix ks'
    assume h: "range_order channels ks' \<and>
            (\<forall>k k' channel channel'.
               map_lookup channels k = Some channel \<and> Channel.Name channel = channelName \<and>
               map_lookup channels k' = Some channel' \<and> Channel.Name channel' = channelName
               \<longrightarrow> k = k')"
    then have "range_order channels ks'" and "\<forall>k k'. P k \<and> P k' \<longrightarrow> k = k'"
      using u by blast+
    then show "findChannelID channels ks' channelName = findChannelID channels ks channelName"
      by (rule c)
  qed
qed
text \<open>Two channels with different names: both iteration orders resolve \<^verbatim>\<open>general\<close> alike.\<close>

theorem channel_resolution_distinct_names:
  "range_order two_channels [''C1'', ''C2''] \<and> range_order two_channels [''C2'', ''C1''] \<and>
   findChannelID two_channels [''C2'', ''C1''] ''general''
     = findChannelID two_channels [''C1'', ''C2''] ''general'' \<and>
   findChannelID two_channels [''C1'', ''C2''] ''general'' = ''C1''"
proof -
  have o1: "range_order two_channels [''C1'', ''C2'']"
    and o2: "range_order two_channels [''C2'', ''C1'']"
    by (auto simp: range_order_def two_channels_def)
  have u: "\<forall>k k' channel channel'.
               map_lookup two_channels k = Some channel \<and> Channel.Name channel = ''general'' \<and>
               map_lookup two_channels k' = Some channel' \<and> Channel.Name channel' = ''general''
               \<longrightarrow> k = k'"
    by (auto simp: two_channels_def map_lookup_def general_def split: if_splits)
  from channel_resolution_first_match [OF o1, of "''general''"] o2 u
  have "findChannelID two_channels [''C2'', ''C1''] ''general''
          = findChannelID two_channels [''C1'', ''C2''] ''general''"
    by blast
  moreover have "findChannelID two_channels [''C1'', ''C2''] ''general'' = ''C1''"
    by (simp add: two_channels_def map_lookup_def general_def)
  ultimately show ?thesis
    using o1 o2 by simp
qed

text \<open>
  The claim as stated fails where it calls the resolution deterministic: with two tracked
  channels of the same name, the two iteration orders of the same collection resolve the
  name to different ids, and \<^verbatim>\<open>ping\<close> posts to different channels.
\<close>

theorem channel_resolution_depends_on_order:
  "range_order twin_channels [''C1'', ''C2''] \<and> range_order twin_channels [''C2'', ''C1''] \<and>
   findChannelID twin_channels [''C1'', ''C2''] ''general'' = ''C1'' \<and>
   findChannelID twin_channels [''C2'', ''C1''] ''general'' = ''C2'' \<and>
   calls (handlePing (slack\<lparr>rangeChannels := [''C1'', ''C2'']\<rparr>) twin_store [''eng'', ''general''])
     = [CallPostMessage ''C1'' ''<@U123>''] \<and>
   calls (handlePing (slack\<lparr>rangeChannels := [''C2'', ''C1'']\<rparr>) twin_store [''eng'', ''general''])
     = [CallPostMessage ''C2'' ''<@U123>'']"
proof -
  have o: "range_order twin_channels [''C1'', ''C2'']" "range_order twin_channels [''C2'', ''C1'']"
    by (auto simp: range_order_def twin_channels_def)
  have f: "findChannelID twin_channels [''C1'', ''C2''] ''general'' = ''C1''"
    "findChannelID twin_channels [''C2'', ''C1''] ''general'' = ''C2''"
    by (simp_all add: twin_channels_def map_lookup_def general_def)
  have p: "calls (handlePing (slack\<lparr>rangeChannels := ks\<rparr>) twin_store [''eng'', ''general''])
             = [CallPostMessage (findChannelID twin_channels ks ''general'') ''<@U123>'']"
    if "findChannelID twin_channels ks ''general'' \<noteq> ''''" for ks
    using that
    by (simp add: handlePing_def read_twin_store slack_def map_lookup_def Let_def
        responseSuccess_def)
  show ?thesis
    using o f p [of "[''C1'', ''C2'']"] p [of "[''C2'', ''C1'']"] by simp
qed

section \<open>Member ids stay unique\<close>


section \<open>What a reconciliation pass does to the names\<close>

text \<open>
  C1, as amended. After a pass that completes with both saves succeeding, for every member
  id the platform lists for the channel whose profile is fetched and is not a bot's, the
  Users collection has an entry for it and every team member with that id carries the
  name of that entry (the display name the pass resolved, as the encoder writes it).
  The pass leaves what it does not refresh as it was: every other entry of the Users
  collection and every other member of every team are the same before and after, and no
  member is added, removed or given another id. So a member the pass does not refresh
  agrees with its user entry after the pass if and only if it did before: if every
  member agreed with its user entry before the pass, every member agrees after it.
  The platform is taken to have profiles only for member ids that are valid UTF-8.
\<close>

theorem pass_aligns_refreshed_members:
  assumes "updateUserInfoForChannel e s channelID = (Finished True True, s')"
    and "profile_ids_valid e"
  shows "\<exists>users teams users' teams' members.
           readUsers s = Inr users \<and> readTeams s = Inr teams \<and>
           readUsers s' = Inr users' \<and> readTeams s' = Inr teams' \<and>
           GetUsersInConversation e channelID = Inr members \<and>
           (\<forall>memberID \<in> set members. \<forall>displayName.
              refreshed e memberID = Some displayName \<longrightarrow>
                (\<exists>user. map_lookup users' memberID = Some user \<and>
                   User.Name user = jsonString displayName) \<and>
                (\<forall>teamName team member.
                   map_lookup (Teams teams') teamName = Some team \<and>
                   member \<in> set (Members team) \<and> Member.MemberID member = memberID
                   \<longrightarrow> Member.Name member = jsonString displayName)) \<and>
           (\<forall>memberID. \<not> (memberID \<in> set members \<and> refreshed e memberID \<noteq> None)
              \<longrightarrow> map_lookup users' memberID = map_lookup users memberID) \<and>
           (\<forall>teamName.
              rel_option
                (\<lambda>team team'.
                   list_all2
                     (\<lambda>member member'.
                        Member.MemberID member' = Member.MemberID member \<and>
                        (\<not> (Member.MemberID member \<in> set members \<and>
                            refreshed e (Member.MemberID member) \<noteq> None)
                         \<longrightarrow> member' = member))
                     (Members team) (Members team'))
                (map_lookup (Teams teams) teamName) (map_lookup (Teams teams') teamName)) \<and>
           (store_names_agree s \<longrightarrow> store_names_agree s')"
proof -
  from assms(1) obtain users teams members users1 where
    ru: "readUsers s = Inr users" and rt: "readTeams s = Inr teams"
    and g: "GetUsersInConversation e channelID = Inr members"
    and loop: "refreshUsers e channelID 0 members users = Some users1"
    and w: "UsersWritable e = True" "TeamsWritable e = True"
    and s': "s' = s\<lparr>UsersFile := (if UsersWritable e then Stored (jsonUsers users1)
                                   else UsersFile s),
             TeamsFile := (if TeamsWritable e
                           then Stored (jsonTeams
                                  (mapMembers (refreshMember e channelID members) teams))
                           else TeamsFile s)\<rparr>"
    by (rule pass_finished_inv)
  define users' where "users' = jsonUsers users1"
  define teams' where "teams' = jsonTeams (mapMembers (refreshMember e channelID members) teams)"
  have ru': "readUsers s' = Inr users'" and rt': "readTeams s' = Inr teams'"
    using w by (simp_all add: s' users'_def teams'_def)
  have fu: "jsonUsers users = users"
    by (rule read_decoded(2) [OF ru])
  have listed_valid: "validUTF8 memberID" if "refreshed e memberID \<noteq> None" for memberID
    using that assms(2)
    by (auto simp: refreshed_def profile_ids_valid_def split: sum.splits)
  have keys: "\<forall>k. map_lookup users1 k \<noteq> None \<longrightarrow> validUTF8 k"
  proof (intro allI impI)
    fix k
    assume k: "map_lookup users1 k \<noteq> None"
    show "validUTF8 k"
    proof (cases "k \<in> set members \<and> refreshed e k \<noteq> None")
      case True
      then show ?thesis
        using listed_valid by simp
    next
      case False
      then have "map_lookup users k \<noteq> None"
        using refreshUsers_other [OF loop False] k by simp
      then show ?thesis
        using decoded_user [OF fu] by auto
    qed
  qed
  have lu: "map_lookup users' k = map_option jsonUser (map_lookup users1 k)" for k
    unfolding users'_def jsonUsers_def by (rule lookup_jsonMap_valid [OF keys])
  have lt: "map_lookup (Teams teams') k
              = map_option (\<lambda>team. \<lparr>Members = map (\<lambda>member. jsonMember
                               (refreshMember e channelID members member)) (Members team)\<rparr>)
                  (map_lookup (Teams teams) k)" for k
    unfolding teams'_def by (rule lookup_pass_teams [OF rt])
  have loaded: "jsonMember member = member \<and> validUTF8 (Member.MemberID member)"
    if "map_lookup (Teams teams) teamName = Some team" "member \<in> set (Members team)"
    for teamName team member
  proof -
    have "jsonTeam team = team"
      using decoded_team [OF read_decoded(1) [OF rt] that(1)] by simp
    from decoded_member [OF this that(2)] show ?thesis
      using decoded_member_id(1) by blast
  qed
  have member': "Member.MemberID (jsonMember (refreshMember e channelID members member))
                   = Member.MemberID member"
    if "map_lookup (Teams teams) teamName = Some team" "member \<in> set (Members team)"
    for teamName team member
    using loaded [OF that] by (simp add: jsonMember_def validUTF8_def)
  have refreshed_entry: "\<exists>user. map_lookup users' memberID = Some user \<and>
                   User.Name user = jsonString displayName"
    if "memberID \<in> set members" "refreshed e memberID = Some displayName"
    for memberID displayName
  proof -
    have "user_settled channelID memberID displayName users1"
      using refreshUsers_settles [OF loop that(2)] that(1) by simp
    then obtain user where "map_lookup users1 memberID = Some user" "User.Name user = displayName"
      by (auto simp: user_settled_def map_lookup_def)
    then show ?thesis
      by (simp add: lu jsonUser_def)
  qed
  have refreshed_member: "Member.Name member = jsonString displayName"
    if "memberID \<in> set members" "refreshed e memberID = Some displayName"
      "map_lookup (Teams teams') teamName = Some team" "member \<in> set (Members team)"
      "Member.MemberID member = memberID"
    for memberID displayName teamName team member
  proof -
    from that(3) obtain team0 :: Team where t0: "map_lookup (Teams teams) teamName = Some team0"
      and team: "Members team = map (\<lambda>member. jsonMember
                   (refreshMember e channelID members member)) (Members team0)"
      by (auto simp: lt)
    with that(4) obtain member0 where m0: "member0 \<in> set (Members team0)"
      and member: "member = jsonMember (refreshMember e channelID members member0)"
      by auto
    have "Member.MemberID member0 = memberID"
      using member' [OF t0 m0] member that(5) by simp
    then have "Member.Name (refreshMember e channelID members member0) = displayName"
      using that(1,2) by (simp add: refreshMember_def updateMember_name)
    then show ?thesis
      by (simp add: member jsonMember_def)
  qed
  have frame_users: "map_lookup users' memberID = map_lookup users memberID"
    if "\<not> (memberID \<in> set members \<and> refreshed e memberID \<noteq> None)" for memberID
  proof (cases "map_lookup users memberID")
    case None
    then show ?thesis
      using refreshUsers_other [OF loop that] by (simp add: lu)
  next
    case (Some user)
    then show ?thesis
      using refreshUsers_other [OF loop that] decoded_user [OF fu Some] by (simp add: lu)
  qed
  have frame_member: "Member.MemberID (jsonMember (refreshMember e channelID members member))
                        = Member.MemberID member \<and>
                      (\<not> (Member.MemberID member \<in> set members \<and>
                           refreshed e (Member.MemberID member) \<noteq> None)
                       \<longrightarrow> jsonMember (refreshMember e channelID members member) = member)"
    if "map_lookup (Teams teams) teamName = Some team" "member \<in> set (Members team)"
    for teamName team member
    using member' [OF that] loaded [OF that] by (auto simp: refreshMember_other)
  have frame_teams: "rel_option
                (\<lambda>team team'.
                   list_all2
                     (\<lambda>member member'.
                        Member.MemberID member' = Member.MemberID member \<and>
                        (\<not> (Member.MemberID member \<in> set members \<and>
                            refreshed e (Member.MemberID member) \<noteq> None)
                         \<longrightarrow> member' = member))
                     (Members team) (Members team'))
                (map_lookup (Teams teams) teamName) (map_lookup (Teams teams') teamName)"
    for teamName
  proof (cases "map_lookup (Teams teams) teamName")
    case None
    then show ?thesis
      by (simp add: lt)
  next
    case (Some team)
    then show ?thesis
      using frame_member [OF Some]
      by (simp add: lt list_all2_map2 list_all2_same)
  qed
  have names: "names_agree users' teams'" if agree: "names_agree users teams"
    unfolding names_agree_def
  proof (intro allI impI, elim conjE)
    fix teamName team member user
    assume t: "map_lookup (Teams teams') teamName = Some team"
      and m: "member \<in> set (Members team)"
      and u: "map_lookup users' (Member.MemberID member) = Some user"
    from t obtain team0 :: Team where t0: "map_lookup (Teams teams) teamName = Some team0"
      and team: "Members team = map (\<lambda>member. jsonMember
                   (refreshMember e channelID members member)) (Members team0)"
      by (auto simp: lt)
    with m obtain member0 where m0: "member0 \<in> set (Members team0)"
      and member: "member = jsonMember (refreshMember e channelID members member0)"
      by auto
    note f = frame_member [OF t0 m0]
    show "Member.Name member = User.Name user"
    proof (cases "Member.MemberID member0 \<in> set members \<and>
                  refreshed e (Member.MemberID member0) \<noteq> None")
      case True
      then obtain displayName where d: "refreshed e (Member.MemberID member0) = Some displayName"
        by auto
      have "Member.Name member = jsonString displayName"
        using refreshed_member [OF _ d t m] True f member by simp
      moreover have "User.Name user = jsonString displayName"
        using refreshed_entry [OF _ d] True u f member by auto
      ultimately show ?thesis
        by simp
    next
      case False
      then have "member = member0"
        using f member by simp
      moreover have "map_lookup users (Member.MemberID member0) = Some user"
        using frame_users [OF False] u f member by simp
      ultimately show ?thesis
        using agree t0 m0 unfolding names_agree_def by blast
    qed
  qed
  have agree: "store_names_agree s \<longrightarrow> store_names_agree s'"
    using names ru rt ru' rt' by (simp add: store_names_agree_def)
  show ?thesis
    using ru rt ru' rt' g refreshed_entry refreshed_member frame_users frame_teams agree
    by (intro exI [of _ users] exI [of _ teams] exI [of _ users'] exI [of _ teams']
        exI [of _ members]) blast
qed

text \<open>
  A pass over \<^verbatim>\<open>C1\<close> on \<open>ada_store\<close>: the user \<^verbatim>\<open>U123\<close> is renamed, and the names agree
  before and after.
\<close>

theorem pass_aligns_ada:
  "fst (updateUserInfoForChannel slack ada_store ''C1'') = Finished True True \<and>
   refreshed slack ''U123'' = Some ''Ada'' \<and>
   (\<exists>users user. readUsers (snd (updateUserInfoForChannel slack ada_store ''C1'')) = Inr users \<and>
      map_lookup users ''U123'' = Some user \<and> User.Name user = ''Ada'') \<and>
   store_names_agree ada_store \<and>
   store_names_agree (snd (updateUserInfoForChannel slack ada_store ''C1''))"
proof -
  have g: "GetUsersInConversation slack ''C1'' = Inr [''B1'', ''U123'']"
    by (simp add: slack_def)
  have f: "refreshed slack ''U123'' = Some ''Ada''"
    by (simp add: refreshed_def slack_def ada_def displayNameOf_def)
  obtain users' where loop: "refreshUsers slack ''C1'' 0 [''B1'', ''U123'']
      (GoMap [''U123'' \<mapsto>
        \<lparr>User.MemberID = ''U123'', User.Name = ''Ada L.'', UpdatedAt = 7,
         User.Channels = GoMap [''C0'' \<mapsto> ''U123'']\<rparr>]) = Some users'"
    by (simp add: refreshed_def slack_def ada_def bot_def displayNameOf_def updateUser_def
        map_lookup_def map_assign_def)
  have w: "UsersWritable slack" "TeamsWritable slack"
    by (simp_all add: slack_def)
  define s' where "s' = snd (updateUserInfoForChannel slack ada_store ''C1'')"
  have p: "updateUserInfoForChannel slack ada_store ''C1'' = (Finished True True, s')"
    using pass_finished [OF read_ada_store(2,1) g loop] w by (simp add: s'_def)
  have before: "store_names_agree ada_store"
    by (auto simp: store_names_agree_def names_agree_def read_ada_store map_lookup_def
        split: if_splits)
  from pass_aligns_refreshed_members [OF p slack_profile_ids_valid] before
  have after: "store_names_agree s'"
    by blast
  from pass_aligns_refreshed_members [OF p slack_profile_ids_valid] g
  obtain users where "readUsers s' = Inr users"
    and "\<forall>memberID \<in> set [''B1'', ''U123'']. \<forall>displayName.
           refreshed slack memberID = Some displayName \<longrightarrow>
             (\<exists>user. map_lookup users memberID = Some user \<and>
                User.Name user = jsonString displayName)"
    by auto
  then have "\<exists>users user. readUsers s' = Inr users \<and>
      map_lookup users ''U123'' = Some user \<and> User.Name user = ''Ada''"
    using f by (auto simp: jsonString_ascii)
  then show ?thesis
    using f before after by (simp add: p)
qed

text \<open>
  The claim as stated fails for a member the pass does not refresh. In \<open>grace_store\<close>
  every name agrees; \<^verbatim>\<open>add ops U9\<close>, after the display name has changed, rewrites the
  user entry and leaves the member of team \<^verbatim>\<open>eng\<close> under the old name; \<^verbatim>\<open>U9\<close> is not
  in the channel \<^verbatim>\<open>C1\<close>, so the pass over it completes with both saves and the member of
  \<^verbatim>\<open>eng\<close> still differs from the user.
\<close>

theorem pass_leaves_stale_name:
  "store_names_agree grace_store \<and>
   after (handleAdd slack grace_store [''ops'', ''U9'']) = stale_store \<and>
   fst (updateUserInfoForChannel slack stale_store ''C1'') = Finished True True \<and>
   \<not> store_names_agree (snd (updateUserInfoForChannel slack stale_store ''C1''))"
proof -
  let ?hopper = "\<lparr>Member.MemberID = ''U9'', Member.Name = ''Grace Hopper'',
                   Member.Channels = GoMap Map.empty\<rparr>"
  let ?grace = "\<lparr>Member.MemberID = ''U9'', Member.Name = ''Grace'',
                  Member.Channels = GoMap Map.empty\<rparr>"
  let ?user = "\<lparr>User.MemberID = ''U9'', User.Name = ''Grace'', UpdatedAt = 100,
                 User.Channels = GoMap Map.empty\<rparr>"
  let ?teams = "\<lparr>Teams = GoMap [''eng'' \<mapsto> \<lparr>Members = [?hopper]\<rparr>,
                                     ''ops'' \<mapsto> \<lparr>Members = [?grace]\<rparr>]\<rparr>"
  let ?users = "GoMap [''U9'' \<mapsto> ?user]"
  let ?users' = "GoMap [''U9'' \<mapsto> ?user, ''U123'' \<mapsto>
                   \<lparr>User.MemberID = ''U123'', User.Name = ''Ada'', UpdatedAt = 101,
                    User.Channels = GoMap [''C1'' \<mapsto> ''U123'']\<rparr>]"
  have before: "store_names_agree grace_store"
    by (auto simp: store_names_agree_def names_agree_def read_grace_store map_lookup_def
        split: if_splits)
  have added: "after (handleAdd slack grace_store [''ops'', ''U9'']) = stale_store"
    by (simp add: handleAdd_def registerUser_def read_grace_store writeTeams_def
        writeUsers_def responseSuccess_def Let_def map_lookup_def map_assign_def make_map_def
        slack_def grace_def displayNameOf_def)
       (simp add: grace_store_def stale_store_def json_eval)
  have g: "GetUsersInConversation slack ''C1'' = Inr [''B1'', ''U123'']"
    by (simp add: slack_def)
  have loop: "refreshUsers slack ''C1'' 0 [''B1'', ''U123''] ?users = Some ?users'"
    by (simp add: refreshed_def slack_def ada_def bot_def displayNameOf_def updateUser_def
        map_lookup_def map_assign_def make_map_def)
  have w: "UsersWritable slack" "TeamsWritable slack"
    by (simp_all add: slack_def)
  have ju: "jsonUsers ?users' = ?users'"
    by (simp add: json_eval)
  have "mapMembers (refreshMember slack ''C1'' [''B1'', ''U123'']) ?teams = ?teams"
    by (simp add: mapMembers_def refreshMember_def fun_eq_iff)
  moreover have "jsonTeams ?teams = ?teams"
    by (simp add: json_eval)
  ultimately have jt: "jsonTeams (mapMembers (refreshMember slack ''C1'' [''B1'', ''U123''])
                          ?teams) = ?teams"
    by simp
  have p: "updateUserInfoForChannel slack stale_store ''C1'' =
             (Finished True True,
              stale_store\<lparr>UsersFile := Stored ?users', TeamsFile := Stored ?teams\<rparr>)"
    using pass_finished [OF read_stale_store(2,1) g loop] w by (simp add: ju jt)
  have t: "map_lookup (Teams ?teams) ''eng'' = Some \<lparr>Members = [?hopper]\<rparr>"
    by (simp add: map_lookup_def)
  have u: "map_lookup ?users' ''U9'' = Some ?user"
    by (simp add: map_lookup_def)
  have "\<not> names_agree ?users' ?teams"
  proof
    assume "names_agree ?users' ?teams"
    then have "Member.Name ?hopper = User.Name ?user"
      unfolding names_agree_def using t u
      by (metis Member.select_convs(1) Team.select_convs(1) list.set_intros(1))
    then show False by simp
  qed
  moreover have "readUsers (stale_store\<lparr>UsersFile := Stored ?users', TeamsFile := Stored ?teams\<rparr>)
                   = Inr ?users'"
    and "readTeams (stale_store\<lparr>UsersFile := Stored ?users', TeamsFile := Stored ?teams\<rparr>)
                   = Inr ?teams"
    by (simp_all add: readUsers_def readTeams_def json_eval)
  ultimately show ?thesis
    using before added by (simp add: p store_names_agree_def)
qed

section \<open>A second pass changes nothing but the timestamps\<close>

text \<open>
  C2. Running the reconciliation of a channel twice in succession, the platform answering
  the second time as the first (the same member list and profiles, the same files
  writable) and nothing else touching the store in between, the second run leaves the
  teams file exactly as the first run left it, and the users file as the first run left
  it up to the \<^verbatim>\<open>UpdatedAt\<close> timestamps: every name and every channels mapping is the
  same. The clock of the second run is arbitrary, and so are the member ids, the names
  and the channel id: they need not be valid UTF-8.
\<close>

theorem reconciliation_twice_changes_only_time:
  "TeamsFile (snd (updateUserInfoForChannel (e\<lparr>Now := clock\<rparr>)
                     (snd (updateUserInfoForChannel e s channelID)) channelID))
     = TeamsFile (snd (updateUserInfoForChannel e s channelID)) \<and>
   map_jsonfile forget_time
     (UsersFile (snd (updateUserInfoForChannel (e\<lparr>Now := clock\<rparr>)
                     (snd (updateUserInfoForChannel e s channelID)) channelID)))
     = map_jsonfile forget_time (UsersFile (snd (updateUserInfoForChannel e s channelID))) \<and>
   ChannelsFile (snd (updateUserInfoForChannel (e\<lparr>Now := clock\<rparr>)
                     (snd (updateUserInfoForChannel e s channelID)) channelID))
     = ChannelsFile (snd (updateUserInfoForChannel e s channelID))"
proof -
  let ?e2 = "e\<lparr>Now := clock\<rparr>"
  let ?s1 = "snd (updateUserInfoForChannel e s channelID)"
  let ?s2 = "snd (updateUserInfoForChannel ?e2 ?s1 channelID)"
  let ?same = "TeamsFile ?s2 = TeamsFile ?s1 \<and>
    map_jsonfile forget_time (UsersFile ?s2) = map_jsonfile forget_time (UsersFile ?s1) \<and>
    ChannelsFile ?s2 = ChannelsFile ?s1"
  consider
    (aborted) "(\<exists>err. readUsers s = Inl err) \<or> (\<exists>err. readTeams s = Inl err) \<or>
           (\<exists>err. GetUsersInConversation e channelID = Inl err)"
    | (crashed) users teams members where "readUsers s = Inr users" "readTeams s = Inr teams"
        "GetUsersInConversation e channelID = Inr members"
        "refreshUsers e channelID 0 members users = None"
    | (finished) users teams members users' where "readUsers s = Inr users"
        "readTeams s = Inr teams" "GetUsersInConversation e channelID = Inr members"
        "refreshUsers e channelID 0 members users = Some users'"
    by (cases "readUsers s"; cases "readTeams s"; cases "GetUsersInConversation e channelID")
       (auto, force)
  then show ?thesis
  proof cases
    case aborted
    then have "(\<exists>err. readUsers s = Inl err) \<or> (\<exists>err. readTeams s = Inl err) \<or>
           (\<exists>err. GetUsersInConversation ?e2 channelID = Inl err)"
      by simp
    then show ?thesis
      by (simp add: pass_aborted [OF aborted] pass_aborted)
  next
    case crashed
    have "rel_option (\<lambda>a b. forget_time a = forget_time b)
            (refreshUsers e channelID 0 members users) (refreshUsers ?e2 channelID 0 members users)"
      by (rule refreshUsers_modulo_time) simp_all
    then have "refreshUsers ?e2 channelID 0 members users = None"
      using crashed(4) by simp
    then have "updateUserInfoForChannel ?e2 s channelID = (Crashed, s)"
      using crashed(1-3) by (intro pass_crashed) simp_all
    then show ?thesis
      by (simp add: pass_crashed [OF crashed])
  next
    case finished
    let ?f = "refreshMember e channelID members"
    let ?t1 = "jsonTeams (mapMembers ?f teams)"
    define s1 where "s1 =
      s\<lparr>UsersFile := (if UsersWritable e then Stored (jsonUsers users') else UsersFile s),
        TeamsFile := (if TeamsWritable e then Stored ?t1 else TeamsFile s)\<rparr>"
    have p1: "updateUserInfoForChannel e s channelID
                = (Finished (UsersWritable e) (TeamsWritable e), s1)"
      unfolding s1_def by (rule pass_finished [OF finished])
    have ru: "readUsers s1 = Inr (if UsersWritable e then jsonUsers users' else users)"
      using finished(1) by (simp add: s1_def)
    have rt: "readTeams s1 = Inr (if TeamsWritable e then ?t1 else teams)"
      using finished(2) by (simp add: s1_def)
    have "\<exists>users''. refreshUsers ?e2 channelID 0 members
                        (if UsersWritable e then jsonUsers users' else users) = Some users'' \<and>
            (UsersWritable e
               \<longrightarrow> forget_time (jsonUsers users'') = forget_time (jsonUsers users'))"
    proof (cases "UsersWritable e")
      case True
      have "refreshed ?e2 = refreshed e"
        by simp
      from pass_users_twice [OF read_decoded(2) [OF finished(1)] finished(4) this, of 0]
      show ?thesis
        using True by simp
    next
      case False
      have "rel_option (\<lambda>a b. forget_time a = forget_time b)
            (refreshUsers e channelID 0 members users) (refreshUsers ?e2 channelID 0 members users)"
        by (rule refreshUsers_modulo_time) simp_all
      then show ?thesis
        using False finished(4) by (cases "refreshUsers ?e2 channelID 0 members users") simp_all
    qed
    then obtain users'' where
      u2: "refreshUsers ?e2 channelID 0 members
             (if UsersWritable e then jsonUsers users' else users) = Some users''"
      and ft: "UsersWritable e
                 \<Longrightarrow> forget_time (jsonUsers users'') = forget_time (jsonUsers users')"
      by blast
    have g: "GetUsersInConversation ?e2 channelID = Inr members"
      using finished(3) by simp
    note p2 = pass_finished [OF ru rt g u2]
    have f1: "UsersFile s1 = (if UsersWritable e then Stored (jsonUsers users') else UsersFile s)"
      "TeamsFile s1 = (if TeamsWritable e then Stored ?t1 else TeamsFile s)"
      "ChannelsFile s1 = ChannelsFile s"
      by (simp_all add: s1_def)
    have tt: "jsonTeams (mapMembers ?f ?t1) = ?t1"
      by (rule pass_teams_twice [OF read_decoded(1) [OF finished(2)]])
    show ?thesis
      using ft by (simp add: p1 p2 f1 tt)
  qed
qed

text \<open>Two passes over \<^verbatim>\<open>C1\<close> on \<open>ada_store\<close>, the second one a hundred ticks later.\<close>

theorem reconciliation_twice_on_ada_store:
  "TeamsFile (snd (updateUserInfoForChannel (slack\<lparr>Now := (\<lambda>i. 200 + i)\<rparr>)
                     (snd (updateUserInfoForChannel slack ada_store ''C1'')) ''C1''))
     = TeamsFile (snd (updateUserInfoForChannel slack ada_store ''C1'')) \<and>
   map_jsonfile forget_time
     (UsersFile (snd (updateUserInfoForChannel (slack\<lparr>Now := (\<lambda>i. 200 + i)\<rparr>)
                     (snd (updateUserInfoForChannel slack ada_store ''C1'')) ''C1'')))
     = map_jsonfile forget_time (UsersFile (snd (updateUserInfoForChannel slack ada_store ''C1'')))"
  using reconciliation_twice_changes_only_time
          [where e = slack and clock = "\<lambda>i. 200 + i" and s = ada_store and channelID = "''C1''"]
  by simp

section \<open>Further properties of the commands and of a pass\<close>

lemma findChannelID_no_match:
  assumes "\<forall>k channel. map_lookup channels k = Some channel \<longrightarrow> Channel.Name channel \<noteq> channelName"
  shows "findChannelID channels ks channelName = ''''"
  using assms by (induction ks) (auto split: option.splits)

text \<open>
  Creating a team that does not exist, under a name that is valid UTF-8, succeeds;
  creating it again fails with "already exists"; and \<^verbatim>\<open>print teams\<close> then lists it,
  whenever the iteration over the teams yields it.
\<close>

theorem create_team_twice:
  assumes "readTeams s = Inr teams" and "Teams teams = GoMap ts" and "ts team = None"
    and "TeamsWritable e" and "validUTF8 team"
  shows "response (handleCreateTeam e s (team # rest))
           = Success (''Team '' @ quoted team @ '' has been created.'') \<and>
         response (handleCreateTeam e' (after (handleCreateTeam e s (team # rest))) (team # rest'))
           = Error (''Team '' @ quoted team @ '' already exists.'') \<and>
         (team \<in> set (rangeTeams e'') \<longrightarrow>
            (\<exists>teamNames. team \<in> set teamNames \<and>
               response (printTeams e'' (after (handleCreateTeam e s (team # rest))))
                 = Success (''Teams: '' @ Join teamNames '', '')))"
proof -
  have w: "jsonTeams (teams\<lparr>Teams := GoMap (ts(team \<mapsto> \<lparr>Members = []\<rparr>))\<rparr>)
             = teams\<lparr>Teams := GoMap (ts(team \<mapsto> \<lparr>Members = []\<rparr>))\<rparr>"
    using jsonTeams_update_fixed [OF read_decoded(1) [OF assms(1)] assms(2,5), of "\<lparr>Members = []\<rparr>"]
    by (simp add: jsonTeam_def)
  have c: "handleCreateTeam e s (team # rest)
             = responseSuccess (s\<lparr>TeamsFile := Stored (teams\<lparr>Teams := GoMap (ts(team \<mapsto> \<lparr>Members = []\<rparr>))\<rparr>)\<rparr>) []
                 (''Team '' @ quoted team @ '' has been created.'')"
    using assms(1-4)
    by (simp add: handleCreateTeam_def map_lookup_def map_assign_def writeTeams_def w)
  have r: "readTeams (s\<lparr>TeamsFile := Stored (teams\<lparr>Teams := GoMap (ts(team \<mapsto> \<lparr>Members = []\<rparr>))\<rparr>)\<rparr>)
             = Inr (teams\<lparr>Teams := GoMap (ts(team \<mapsto> \<lparr>Members = []\<rparr>))\<rparr>)"
    by (simp add: w)
  have again: "response (handleCreateTeam e' (after (handleCreateTeam e s (team # rest))) (team # rest'))
           = Error (''Team '' @ quoted team @ '' already exists.'')"
    unfolding c
    by (simp add: responseSuccess_def handleCreateTeam_def w map_lookup_def
        responseError_def)
  have listed: "\<exists>teamNames. team \<in> set teamNames \<and>
               response (printTeams e'' (after (handleCreateTeam e s (team # rest))))
                 = Success (''Teams: '' @ Join teamNames '', '')"
    if "team \<in> set (rangeTeams e'')"
  proof -
    let ?names = "filter (\<lambda>k. (ts(team \<mapsto> \<lparr>Members = []\<rparr>)) k \<noteq> None) (rangeTeams e'')"
    have "team \<in> set ?names"
      using that by simp
    moreover from this have "length ?names \<noteq> 0"
      by (metis length_0_conv empty_iff list.set(1))
    then have "response (printTeams e'' (after (handleCreateTeam e s (team # rest))))
                 = Success (''Teams: '' @ Join ?names '', '')"
      unfolding c
      by (simp add: responseSuccess_def printTeams_def w map_lookup_def Let_def)
    ultimately show ?thesis
      by blast
  qed
  show ?thesis
    using again listed by (simp add: c responseSuccess_def)
qed

theorem create_team_eng_twice:
  "response (handleCreateTeam slack initial_store [''eng''])
     = Success (''Team '' @ quoted ''eng'' @ '' has been created.'') \<and>
   response (handleCreateTeam slack (after (handleCreateTeam slack initial_store [''eng''])) [''eng''])
     = Error (''Team '' @ quoted ''eng'' @ '' already exists.'') \<and>
   response (printTeams slack (after (handleCreateTeam slack initial_store [''eng''])))
     = Success ''Teams: eng''"
proof -
  note r = read_initial_store(1)
  have w: "TeamsWritable slack" and o: "''eng'' \<in> set (rangeTeams slack)"
    and v: "validUTF8 ''eng''"
    by (simp_all add: slack_def validUTF8_ascii)
  note t = create_team_twice [OF r _ _ w v, of Map.empty "[]" slack "[]" slack]
  have j: "jsonTeams \<lparr>Teams = GoMap [''eng'' \<mapsto> \<lparr>Members = []\<rparr>]\<rparr>
             = \<lparr>Teams = GoMap [''eng'' \<mapsto> \<lparr>Members = []\<rparr>]\<rparr>"
    by (simp add: json_eval)
  have p: "response (printTeams slack (after (handleCreateTeam slack initial_store [''eng''])))
     = Success ''Teams: eng''"
    by (simp add: handleCreateTeam_def r map_lookup_def map_assign_def writeTeams_def
        responseSuccess_def printTeams_def slack_def Let_def j)
  from t p show ?thesis
    by simp
qed

text \<open>
  \<^verbatim>\<open>remove-channel\<close> with a name that no tracked channel has answers "is not being
  tracked" and changes nothing.
\<close>

theorem remove_untracked_channel:
  assumes "readChannels s = Inr channels"
    and "\<forall>k channel. map_lookup channels k = Some channel \<longrightarrow> Channel.Name channel \<noteq> channelName"
  shows "handleRemoveChannel e s (channelName # rest)
           = responseError s [] (''Channel #'' @ channelName @ '' is not being tracked.'')"
  using assms(1) findChannelID_no_match [OF assms(2)]
  by (simp add: handleRemoveChannel_def)

theorem remove_channel_never_added:
  "handleRemoveChannel slack eng_store [''random'']
     = responseError eng_store [] ''Channel #random is not being tracked.''"
proof -
  note r = read_eng_store(3)
  have n: "\<forall>k channel. map_lookup (GoMap [''C1'' \<mapsto> general]) k = Some channel
             \<longrightarrow> Channel.Name channel \<noteq> ''random''"
    by (auto simp: map_lookup_def general_def split: if_splits)
  from remove_untracked_channel [OF r n, of slack "[]"] show ?thesis
    by simp
qed

text \<open>
  The commands \<^verbatim>\<open>create-team eng\<close>, \<^verbatim>\<open>add eng U123\<close> and \<^verbatim>\<open>print members eng\<close> in
  a row, through the router, on the initial store, where the profile of \<^verbatim>\<open>U123\<close> has
  the display name \<^verbatim>\<open>Ada\<close>.
\<close>

theorem scenario_create_add_print:
  "response (handleSlackCommand slack initial_store [''create-team'', ''eng''] ''C1'' ''general'')
     = Success (''Team '' @ quoted ''eng'' @ '' has been created.'') \<and>
   response (handleSlackCommand slack
               (after (handleSlackCommand slack initial_store [''create-team'', ''eng''] ''C1'' ''general''))
               [''add'', ''eng'', ''U123''] ''C1'' ''general'')
     = Success (''Added user Ada (U123) to team '' @ quoted ''eng'' @ ''.'') \<and>
   response (handleSlackCommand slack
               (after (handleSlackCommand slack
                 (after (handleSlackCommand slack initial_store [''create-team'', ''eng''] ''C1'' ''general''))
                 [''add'', ''eng'', ''U123''] ''C1'' ''general''))
               [''print'', ''members'', ''eng''] ''C1'' ''general'')
     = Success (''Members of team '' @ quoted ''eng'' @ '': Ada (U123)'')"
proof -
  let ?eng = "\<lparr>Teams = GoMap [''eng'' \<mapsto> \<lparr>Members = []\<rparr>]\<rparr>"
  let ?ada = "\<lparr>Teams = GoMap [''eng'' \<mapsto> \<lparr>Members =
     [\<lparr>Member.MemberID = ''U123'', Member.Name = ''Ada'', Member.Channels = GoMap Map.empty\<rparr>]\<rparr>]\<rparr>"
  let ?users = "GoMap [''U123'' \<mapsto> \<lparr>User.MemberID = ''U123'', User.Name = ''Ada'',
     UpdatedAt = 100, User.Channels = GoMap Map.empty\<rparr>]"
  have j: "jsonTeams ?eng = ?eng" "jsonTeams ?ada = ?ada" "jsonUsers ?users = ?users"
    by (simp_all add: json_eval)
  have c: "handleSlackCommand slack initial_store [''create-team'', ''eng''] ''C1'' ''general''
             = responseSuccess (initial_store\<lparr>TeamsFile := Stored ?eng\<rparr>) []
                 (''Team '' @ quoted ''eng'' @ '' has been created.'')"
    by (simp add: handleSlackCommand_def handleCreateTeam_def read_initial_store map_lookup_def
        map_assign_def writeTeams_def slack_def j Let_def)
  have a: "handleSlackCommand slack (initial_store\<lparr>TeamsFile := Stored ?eng\<rparr>)
             [''add'', ''eng'', ''U123''] ''C1'' ''general''
             = responseSuccess
                 (initial_store\<lparr>TeamsFile := Stored ?ada, UsersFile := Stored ?users\<rparr>)
                 [CallGetUserInfo ''U123'']
                 (''Added user Ada (U123) to team '' @ quoted ''eng'' @ ''.'')"
    by (simp add: handleSlackCommand_def handleAdd_def registerUser_def read_initial_store j
        map_lookup_def map_assign_def make_map_def writeTeams_def writeUsers_def slack_def
        ada_def displayNameOf_def Let_def)
  have p: "response (handleSlackCommand slack
             (initial_store\<lparr>TeamsFile := Stored ?ada, UsersFile := Stored ?users\<rparr>)
             [''print'', ''members'', ''eng''] ''C1'' ''general'')
             = Success (''Members of team '' @ quoted ''eng'' @ '': Ada (U123)'')"
    by (simp add: handleSlackCommand_def handlePrint_def printMembers_def memberEntry_def j
        map_lookup_def responseSuccess_def Let_def)
  show ?thesis
    by (simp add: c a p responseSuccess_def)
qed

text \<open>
  A member id that a pass refreshes gets the same name in every team it is a member of:
  the display name of its profile, as \<^verbatim>\<open>teams.json\<close> holds it.
\<close>

theorem pass_names_two_teams_alike:
  assumes "updateUserInfoForChannel e s channelID = (Finished usersSaved True, s')"
    and "readTeams s' = Inr teams'"
    and "GetUsersInConversation e channelID = Inr members"
    and "memberID \<in> set members" and "refreshed e memberID = Some displayName"
    and "map_lookup (Teams teams') teamName1 = Some team1" and "member1 \<in> set (Members team1)"
    and "Member.MemberID member1 = memberID"
    and "map_lookup (Teams teams') teamName2 = Some team2" and "member2 \<in> set (Members team2)"
    and "Member.MemberID member2 = memberID"
  shows "Member.Name member1 = jsonString displayName \<and>
         Member.Name member2 = jsonString displayName"
proof -
  from assms(1) obtain users0 teams0 members0 users' where
    "readUsers s = Inr users0" and rt: "readTeams s = Inr teams0"
    and g: "GetUsersInConversation e channelID = Inr members0"
    and w: "TeamsWritable e = True"
    and s': "s' = s\<lparr>UsersFile := (if UsersWritable e then Stored (jsonUsers users') else UsersFile s),
             TeamsFile := (if TeamsWritable e
                           then Stored (jsonTeams
                                  (mapMembers (refreshMember e channelID members0) teams0))
                           else TeamsFile s)\<rparr>"
    by (rule pass_finished_inv)
  have "members0 = members"
    using g assms(3) by simp
  then have t: "teams' = jsonTeams (mapMembers (refreshMember e channelID members) teams0)"
    using s' w assms(2) by (simp add: readTeams_def)
  have lt: "map_lookup (Teams teams') k
              = map_option (\<lambda>team. \<lparr>Members = map (\<lambda>member. jsonMember
                               (refreshMember e channelID members member)) (Members team)\<rparr>)
                  (map_lookup (Teams teams0) k)" for k
    unfolding t by (rule lookup_pass_teams [OF rt])
  have named: "Member.Name member = jsonString displayName"
    if "map_lookup (Teams teams') teamName = Some team" "member \<in> set (Members team)"
      "Member.MemberID member = memberID"
    for teamName team member
  proof -
    from that(1) obtain team0 :: Team where t0: "map_lookup (Teams teams0) teamName = Some team0"
      and team: "Members team = map (\<lambda>member. jsonMember
                   (refreshMember e channelID members member)) (Members team0)"
      by (auto simp: lt)
    with that(2) obtain member0 where m0: "member0 \<in> set (Members team0)"
      and member: "member = jsonMember (refreshMember e channelID members member0)"
      by auto
    have "jsonTeam team0 = team0"
      using decoded_team [OF read_decoded(1) [OF rt] t0] by simp
    from decoded_member [OF this m0] have "validUTF8 (Member.MemberID member0)"
      using decoded_member_id(1) by blast
    then have "Member.MemberID member0 = memberID"
      using member that(3) by (simp add: jsonMember_def validUTF8_def)
    then have "Member.Name (refreshMember e channelID members member0) = displayName"
      using assms(4,5) by (simp add: refreshMember_def updateMember_name)
    then show ?thesis
      by (simp add: member jsonMember_def)
  qed
  from named [OF assms(6-8)] named [OF assms(9-11)] show ?thesis
    by simp
qed

subsection \<open>A member id that is not valid UTF-8\<close>

text \<open>
  The teams file holds a member id that is not valid UTF-8 with U+FFFD in place of each
  invalid byte, so the id that a later command compares is not the id that was added.
  The theorems on \<^verbatim>\<open>add\<close> followed by \<^verbatim>\<open>remove\<close> and on the uniqueness of member ids
  above are about platforms that have no profile for such an id (\<open>profile_ids_valid\<close>);
  what follows is the behaviour on a platform that has one.
\<close>

lemma raw_member_written:
  "jsonTeams \<lparr>Teams = GoMap [''eng'' \<mapsto> \<lparr>Members = map (\<lambda>memberID.
       \<lparr>Member.MemberID = memberID, Member.Name = ''Ada'', Member.Channels = GoMap Map.empty\<rparr>) ids\<rparr>]\<rparr>
     = \<lparr>Teams = GoMap [''eng'' \<mapsto> \<lparr>Members = map (\<lambda>memberID.
       \<lparr>Member.MemberID = jsonString memberID, Member.Name = ''Ada'', Member.Channels = GoMap Map.empty\<rparr>) ids\<rparr>]\<rparr>"
proof -
  have "jsonMap jsonTeam (GoMap [''eng'' \<mapsto> \<lparr>Members = map (\<lambda>memberID.
       \<lparr>Member.MemberID = memberID, Member.Name = ''Ada'', Member.Channels = GoMap Map.empty\<rparr>) ids\<rparr>])
     = GoMap [''eng'' \<mapsto> jsonTeam \<lparr>Members = map (\<lambda>memberID.
       \<lparr>Member.MemberID = memberID, Member.Name = ''Ada'', Member.Channels = GoMap Map.empty\<rparr>) ids\<rparr>]"
    using jsonMap_update [where f = Map.empty and k = "''eng''" and enc = jsonTeam]
    by (simp add: json_eval fun_eq_iff comp_def)
  then show ?thesis
    by (simp add: jsonTeams_def jsonTeam_def jsonMember_def jsonString_ascii jsonMap_fixed_eval comp_def)
qed

lemma jsonString_replacement_alone:
  "jsonString replacement = replacement"
  using jsonString_replacement [of "[]"] by simp

text \<open>
  \<^verbatim>\<open>add eng\<close> of the member id \<^verbatim>\<open>0xFF\<close> succeeds, and the team as it is loaded afterwards
  has a member whose id is U+FFFD.
\<close>

theorem add_raw_id:
  "response (handleAdd lenient_slack eng_store [''eng'', [CHR 0xFF]])
     = Success (''Added user Ada ('' @ [CHR 0xFF] @ '') to team '' @ quoted ''eng'' @ ''.'') \<and>
   readTeams (after (handleAdd lenient_slack eng_store [''eng'', [CHR 0xFF]]))
     = Inr \<lparr>Teams = GoMap [''eng'' \<mapsto> \<lparr>Members =
         [\<lparr>Member.MemberID = replacement, Member.Name = ''Ada'',
           Member.Channels = GoMap Map.empty\<rparr>]\<rparr>]\<rparr>"
  using raw_member_written [of "[[CHR 0xFF]]"] raw_member_written [of "[replacement]"]
  by (simp add: handleAdd_def registerUser_def read_eng_store map_lookup_def map_assign_def
      make_map_def writeTeams_def writeUsers_def lenient_slack_def slack_def ada_def
      displayNameOf_def Let_def responseSuccess_def jsonString_invalid_byte
      jsonString_replacement_alone)

text \<open>Then \<^verbatim>\<open>remove eng\<close> of the same id finds no such member.\<close>

theorem remove_raw_id_after_add:
  "response (handleRemove lenient_slack
               (after (handleAdd lenient_slack eng_store [''eng'', [CHR 0xFF]]))
               [''eng'', [CHR 0xFF]])
     = Error (''User '' @ [CHR 0xFF] @ '' is not in team '' @ quoted ''eng'' @ ''.'')"
  using add_raw_id
  by (simp add: handleRemove_def map_lookup_def replacement_def responseError_def Let_def)

text \<open>
  And a second \<^verbatim>\<open>add eng\<close> of the same id is accepted: the team then holds the id U+FFFD
  twice.
\<close>

theorem add_raw_id_twice:
  "response (handleAdd lenient_slack
               (after (handleAdd lenient_slack eng_store [''eng'', [CHR 0xFF]]))
               [''eng'', [CHR 0xFF]])
     = Success (''Added user Ada ('' @ [CHR 0xFF] @ '') to team '' @ quoted ''eng'' @ ''.'') \<and>
   readTeams (after (handleAdd lenient_slack
               (after (handleAdd lenient_slack eng_store [''eng'', [CHR 0xFF]]))
               [''eng'', [CHR 0xFF]]))
     = Inr \<lparr>Teams = GoMap [''eng'' \<mapsto> \<lparr>Members =
         [\<lparr>Member.MemberID = replacement, Member.Name = ''Ada'',
           Member.Channels = GoMap Map.empty\<rparr>,
          \<lparr>Member.MemberID = replacement, Member.Name = ''Ada'',
           Member.Channels = GoMap Map.empty\<rparr>]\<rparr>]\<rparr> \<and>
   \<not> unique_member_ids (after (handleAdd lenient_slack
               (after (handleAdd lenient_slack eng_store [''eng'', [CHR 0xFF]]))
               [''eng'', [CHR 0xFF]]))"
proof -
  define s where "s = after (handleAdd lenient_slack eng_store [''eng'', [CHR 0xFF]])"
  have r: "readTeams s = Inr \<lparr>Teams = GoMap [''eng'' \<mapsto> \<lparr>Members =
         [\<lparr>Member.MemberID = replacement, Member.Name = ''Ada'',
           Member.Channels = GoMap Map.empty\<rparr>]\<rparr>]\<rparr>"
    unfolding s_def using add_raw_id by simp
  have "\<exists>us. readUsers s = Inr (GoMap us)"
    unfolding s_def
    by (simp add: handleAdd_def registerUser_def read_eng_store map_lookup_def map_assign_def
        make_map_def writeTeams_def writeUsers_def lenient_slack_def slack_def Let_def
        responseSuccess_def jsonUsers_def jsonMap_def)
  then obtain us where u: "readUsers s = Inr (GoMap us)" ..
  have n: "replacement \<noteq> [CHR 0xFF]"
    by (simp add: replacement_def)
  have a: "response (handleAdd lenient_slack s [''eng'', [CHR 0xFF]])
     = Success (''Added user Ada ('' @ [CHR 0xFF] @ '') to team '' @ quoted ''eng'' @ ''.'')"
    and t: "readTeams (after (handleAdd lenient_slack s [''eng'', [CHR 0xFF]]))
     = Inr \<lparr>Teams = GoMap [''eng'' \<mapsto> \<lparr>Members =
         [\<lparr>Member.MemberID = replacement, Member.Name = ''Ada'',
           Member.Channels = GoMap Map.empty\<rparr>,
          \<lparr>Member.MemberID = replacement, Member.Name = ''Ada'',
           Member.Channels = GoMap Map.empty\<rparr>]\<rparr>]\<rparr>"
    using raw_member_written [of "[replacement, [CHR 0xFF]]"]
      raw_member_written [of "[replacement, replacement]"]
    by (simp_all add: handleAdd_def registerUser_def r u n map_lookup_def map_assign_def
        make_map_def writeTeams_def writeUsers_def lenient_slack_def slack_def ada_def
        displayNameOf_def Let_def responseSuccess_def jsonString_invalid_byte
        jsonString_replacement_alone)
  have "\<not> unique_member_ids (after (handleAdd lenient_slack s [''eng'', [CHR 0xFF]]))"
    unfolding unique_member_ids_def t
    by (simp add: teams_unique_def map_lookup_def)
  with a t show ?thesis
    unfolding s_def by simp
qed

subsection \<open>\<^verbatim>\<open>add-channel\<close> without a channel context\<close>

text \<open>
  A request that carries no channel name is answered with the request to invite the bot,
  also when the channel id it carries is tracked.
\<close>

theorem add_channel_without_name:
  "response (handleAddChannel slack eng_store [] ''C1'' '''') = Error notInChannel \<and>
   after (handleAddChannel slack eng_store [] ''C1'' '''') = eng_store"
  by (simp add: handleAddChannel_def responseError_def)

end
